(* ===== verification/Prelude.thy ===== *)
theory Prelude
  imports Main "HOL-Library.AList" "HOL-Library.Sublist"
begin

text \<open>
  The part of Python that every component uses: strings, truth values, dictionaries and
  dynamically typed values, with the lemmas the component proofs share.

  A Python \<^verbatim>\<open>str\<close> is a \<^typ>\<open>string\<close>, one \<^typ>\<open>char\<close> for each code point; code points
  from 256 up are outside the model, so case mapping, white space and digit tests are
  Python's on the Latin-1 range. A \<^verbatim>\<open>dict\<close> with string keys is an association list with
  distinct keys in insertion order: \<open>AList.update\<close> overwrites in place or appends, which is
  what Python's item assignment does. A raised exception is the value \<^const>\<open>None\<close> or an
  error of a sum type, at the definition where it is raised.
\<close>

named_theorems pystr \<open>rewriting of Python string operations\<close>
named_theorems pydict \<open>rewriting of Python dictionary operations\<close>

subsection \<open>Generic lemmas on lists and options\<close>

lemma takeWhile_dropWhile_split:
  "x \<in> set xs \<Longrightarrow> takeWhile (\<lambda>y. y \<noteq> x) xs @ x # tl (dropWhile (\<lambda>y. y \<noteq> x) xs) = xs"
  by (induction xs) auto

lemma takeWhile_neq_append:
  "x \<notin> set us \<Longrightarrow> takeWhile (\<lambda>y. y \<noteq> x) (us @ x # vs) = us"
  by (induction us) auto

lemma dropWhile_neq_append:
  "x \<notin> set us \<Longrightarrow> dropWhile (\<lambda>y. y \<noteq> x) (us @ x # vs) = x # vs"
  by (induction us) auto

lemma takeWhile_id: "x \<notin> set us \<Longrightarrow> takeWhile (\<lambda>y. y \<noteq> x) us = us"
  by (induction us) auto

lemma dropWhile_nil: "x \<notin> set us \<Longrightarrow> dropWhile (\<lambda>y. y \<noteq> x) us = []"
  by (induction us) auto

lemma not_in_takeWhile_neq: "x \<notin> set (takeWhile (\<lambda>y. y \<noteq> x) xs)"
  by (auto dest: set_takeWhileD)

lemma suffix_drop: "suffix (drop n xs) xs"
  by (metis append_take_drop_id suffixI)

lemma suffix_set_subset: "suffix ys xs \<Longrightarrow> set ys \<subseteq> set xs"
  by (auto simp: suffix_def)

text \<open>The first element that a partial test accepts (\<^verbatim>\<open>next(... for ...)\<close>, an early return in a
  loop).\<close>

fun first_some :: "('a \<Rightarrow> 'b option) \<Rightarrow> 'a list \<Rightarrow> 'b option" where
  "first_some f [] = None"
| "first_some f (x # xs) = (case f x of Some y \<Rightarrow> Some y | None \<Rightarrow> first_some f xs)"

lemma first_some_None_iff: "first_some f xs = None \<longleftrightarrow> (\<forall>x \<in> set xs. f x = None)"
  by (induction xs) (auto split: option.splits)

lemma first_some_SomeD: "first_some f xs = Some y \<Longrightarrow> \<exists>x \<in> set xs. f x = Some y"
  by (induction xs) (auto split: option.splits)

lemma first_some_append:
  "first_some f (xs @ ys) = (case first_some f xs of Some y \<Rightarrow> Some y | None \<Rightarrow> first_some f ys)"
  by (induction xs) (auto split: option.splits)

lemma first_some_cong_set:
  "(\<And>x. x \<in> set xs \<Longrightarrow> f x = g x) \<Longrightarrow> first_some f xs = first_some g xs"
  by (induction xs) (auto split: option.splits)

text \<open>Python's \<^verbatim>\<open>a or b\<close> on values that may be \<^verbatim>\<open>None\<close>, and \<^verbatim>\<open>_first_not_none\<close>-style choice.\<close>

fun orelse :: "'a option \<Rightarrow> 'a option \<Rightarrow> 'a option" where
  "orelse (Some x) b = Some x"
| "orelse None b = b"

lemma orelse_None [simp]: "orelse a None = a"
  by (cases a) auto

lemma orelse_assoc: "orelse (orelse a b) c = orelse a (orelse b c)"
  by (cases a) auto

subsection \<open>Characters\<close>

definition ch_code :: "char \<Rightarrow> nat" where
  "ch_code c = of_char c"

definition py_isdigit_ascii :: "char \<Rightarrow> bool" where
  "py_isdigit_ascii c \<longleftrightarrow> 48 \<le> ch_code c \<and> ch_code c \<le> 57"

definition is_alpha_ascii :: "char \<Rightarrow> bool" where
  "is_alpha_ascii c \<longleftrightarrow> (65 \<le> ch_code c \<and> ch_code c \<le> 90) \<or> (97 \<le> ch_code c \<and> ch_code c \<le> 122)"

definition is_alnum_ascii :: "char \<Rightarrow> bool" where
  "is_alnum_ascii c \<longleftrightarrow> is_alpha_ascii c \<or> py_isdigit_ascii c"

text \<open>\<^verbatim>\<open>str.isspace\<close> on Latin-1, the set that \<^verbatim>\<open>str.strip()\<close> and the regular expression class
  \<^verbatim>\<open>\s\<close> use.\<close>

definition py_isspace :: "char \<Rightarrow> bool" where
  "py_isspace c \<longleftrightarrow> (9 \<le> ch_code c \<and> ch_code c \<le> 13) \<or> (28 \<le> ch_code c \<and> ch_code c \<le> 32)
     \<or> ch_code c = 133 \<or> ch_code c = 160"

text \<open>\<^verbatim>\<open>str.lower\<close> on Latin-1: the ASCII capitals and the accented capitals.\<close>

definition lower_char :: "char \<Rightarrow> char" where
  "lower_char c =
     (if (65 \<le> ch_code c \<and> ch_code c \<le> 90) \<or> (192 \<le> ch_code c \<and> ch_code c \<le> 222 \<and> ch_code c \<noteq> 215)
      then char_of (ch_code c + 32) else c)"

definition py_lower :: "string \<Rightarrow> string" where
  "py_lower s = map lower_char s"

lemma ch_code_less: "ch_code c < 256"
  by (simp add: ch_code_def)

lemma char_of_ch_code [simp]: "char_of (ch_code c) = c"
  by (simp add: ch_code_def)

lemma ch_code_char_of: "n < 256 \<Longrightarrow> ch_code (char_of n) = n"
  by (simp add: ch_code_def)

lemma ch_code_inject [simp]: "ch_code c = ch_code d \<longleftrightarrow> c = d"
  by (metis char_of_ch_code)

lemma lower_char_idem [simp]: "lower_char (lower_char c) = lower_char c"
  by (auto simp: lower_char_def ch_code_char_of)

lemma py_lower_idem [simp]: "py_lower (py_lower s) = py_lower s"
  by (simp add: py_lower_def)

lemma py_lower_append [pystr]: "py_lower (s @ t) = py_lower s @ py_lower t"
  by (simp add: py_lower_def)

lemma length_py_lower [simp]: "length (py_lower s) = length s"
  by (simp add: py_lower_def)

subsection \<open>Strings\<close>

text \<open>\<^verbatim>\<open>sub in s\<close> for strings; \<^verbatim>\<open>s.startswith(p)\<close> and \<^verbatim>\<open>s.endswith(p)\<close> are \<^const>\<open>prefix\<close> and
  \<^const>\<open>suffix\<close>.\<close>

fun py_in :: "string \<Rightarrow> string \<Rightarrow> bool" where
  "py_in sub [] = (sub = [])"
| "py_in sub (c # s) = (prefix sub (c # s) \<or> py_in sub s)"

text \<open>\<^verbatim>\<open>s.partition(c)\<close> and \<^verbatim>\<open>s.rpartition(c)\<close> for a one-character separator: the text before,
  whether the separator occurs, and the text after.\<close>

definition partition_c :: "char \<Rightarrow> string \<Rightarrow> string \<times> bool \<times> string" where
  "partition_c c s = (takeWhile (\<lambda>x. x \<noteq> c) s, c \<in> set s, tl (dropWhile (\<lambda>x. x \<noteq> c) s))"

definition rpartition_c :: "char \<Rightarrow> string \<Rightarrow> string \<times> bool \<times> string" where
  "rpartition_c c s =
     (rev (tl (dropWhile (\<lambda>x. x \<noteq> c) (rev s))), c \<in> set s, rev (takeWhile (\<lambda>x. x \<noteq> c) (rev s)))"

text \<open>\<^verbatim>\<open>s.split(c)\<close> for a one-character separator.\<close>

fun split_c :: "char \<Rightarrow> string \<Rightarrow> string list" where
  "split_c c [] = [[]]"
| "split_c c (x # xs) =
     (if x = c then [] # split_c c xs
      else (case split_c c xs of [] \<Rightarrow> [[x]] | w # ws \<Rightarrow> (x # w) # ws))"

text \<open>\<^verbatim>\<open>s.split()\<close>: words between runs of white space.\<close>

fun words_aux :: "string \<Rightarrow> string \<Rightarrow> string list" where
  "words_aux acc [] = (if acc = [] then [] else [rev acc])"
| "words_aux acc (x # xs) =
     (if py_isspace x then (if acc = [] then words_aux [] xs else rev acc # words_aux [] xs)
      else words_aux (x # acc) xs)"

definition py_split :: "string \<Rightarrow> string list" where
  "py_split s = words_aux [] s"

definition lstrip_p :: "(char \<Rightarrow> bool) \<Rightarrow> string \<Rightarrow> string" where
  "lstrip_p p s = dropWhile p s"

definition rstrip_p :: "(char \<Rightarrow> bool) \<Rightarrow> string \<Rightarrow> string" where
  "rstrip_p p s = rev (dropWhile p (rev s))"

definition strip_p :: "(char \<Rightarrow> bool) \<Rightarrow> string \<Rightarrow> string" where
  "strip_p p s = rstrip_p p (lstrip_p p s)"

abbreviation py_strip :: "string \<Rightarrow> string" where
  "py_strip s \<equiv> strip_p py_isspace s"

text \<open>\<^verbatim>\<open>s.replace(old, new)\<close> for a non-empty \<^verbatim>\<open>old\<close>: the occurrences from left to right, without
  overlap. Dropping at least one character makes the recursion structural in the length.\<close>

function replace_all :: "string \<Rightarrow> string \<Rightarrow> string \<Rightarrow> string" where
  "replace_all old new [] = []"
| "replace_all old new (c # s) =
     (if old \<noteq> [] \<and> prefix old (c # s) then new @ replace_all old new (drop (length old) (c # s))
      else c # replace_all old new s)"
  by pat_completeness auto
termination
  by (relation "measure (\<lambda>(old, new, s). length s)") (auto simp: neq_Nil_conv)

definition replace_c :: "char \<Rightarrow> char \<Rightarrow> string \<Rightarrow> string" where
  "replace_c a b s = map (\<lambda>x. if x = a then b else x) s"

text \<open>\<^verbatim>\<open>sep.join(xs)\<close> and \<^verbatim>\<open>os.path.basename\<close>.\<close>

fun join_str :: "string \<Rightarrow> string list \<Rightarrow> string" where
  "join_str sep [] = []"
| "join_str sep [x] = x"
| "join_str sep (x # y # xs) = x @ sep @ join_str sep (y # xs)"

definition basename :: "string \<Rightarrow> string" where
  "basename p = snd (snd (rpartition_c CHR ''/'' p))"

lemma partition_c_split:
  "partition_c c s = (a, True, b) \<Longrightarrow> s = a @ c # b \<and> c \<notin> set a"
  using takeWhile_dropWhile_split [of c s] not_in_takeWhile_neq [of c s]
  by (auto simp: partition_c_def)

lemma partition_c_absent: "c \<notin> set s \<Longrightarrow> partition_c c s = (s, False, [])"
  by (simp add: partition_c_def takeWhile_id dropWhile_nil)

lemma partition_c_append [pystr]: "c \<notin> set a \<Longrightarrow> partition_c c (a @ c # b) = (a, True, b)"
  by (simp add: partition_c_def takeWhile_neq_append dropWhile_neq_append)

lemma rpartition_c_append [pystr]: "c \<notin> set b \<Longrightarrow> rpartition_c c (a @ c # b) = (a, True, b)"
  by (simp add: rpartition_c_def takeWhile_neq_append dropWhile_neq_append)

lemma rpartition_c_absent: "c \<notin> set s \<Longrightarrow> rpartition_c c s = ([], False, s)"
  by (simp add: rpartition_c_def takeWhile_id dropWhile_nil)

lemma rpartition_c_split:
  "rpartition_c c s = (a, True, b) \<Longrightarrow> s = a @ c # b \<and> c \<notin> set b"
proof -
  assume r: "rpartition_c c s = (a, True, b)"
  then have "c \<in> set (rev s)" by (simp add: rpartition_c_def)
  from takeWhile_dropWhile_split [OF this] r have "rev b @ c # rev a = rev s"
    by (auto simp: rpartition_c_def)
  then have "rev (rev b @ c # rev a) = s" by (simp only: rev_rev_ident)
  moreover have "c \<notin> set b"
    using r not_in_takeWhile_neq [of c "rev s"] by (auto simp: rpartition_c_def)
  ultimately show ?thesis by simp
qed

lemma rpartition_c_fst_subset: "rpartition_c c s = (a, f, b) \<Longrightarrow> set a \<union> set b \<subseteq> set s"
proof -
  assume r: "rpartition_c c s = (a, f, b)"
  have "set (tl (dropWhile (\<lambda>x. x \<noteq> c) (rev s))) \<subseteq> set (rev s)"
    by (metis list.set_sel(2) set_dropWhileD subsetI tl_Nil)
  moreover have "set (takeWhile (\<lambda>x. x \<noteq> c) (rev s)) \<subseteq> set (rev s)"
    by (auto dest: set_takeWhileD)
  ultimately show ?thesis using r by (auto simp: rpartition_c_def)
qed

lemma split_c_not_Nil [simp]: "split_c c s \<noteq> []"
  by (induction s) (auto split: list.splits)

lemma join_split_c: "join_str [c] (split_c c s) = s"
proof (induction s)
  case (Cons x xs)
  show ?case
  proof (cases "split_c c xs")
    case (Cons w ws)
    then show ?thesis using Cons.IH by (cases ws) auto
  qed simp
qed simp

lemma split_c_no_sep: "w \<in> set (split_c c s) \<Longrightarrow> c \<notin> set w"
proof (induction s arbitrary: w)
  case (Cons x xs)
  then show ?case by (cases "split_c c xs") (auto split: if_splits)
qed simp

lemma split_c_absent: "c \<notin> set s \<Longrightarrow> split_c c s = [s]"
  by (induction s) auto

lemma strip_p_subset: "set (strip_p p s) \<subseteq> set s"
  by (auto simp: strip_p_def rstrip_p_def lstrip_p_def dest!: set_dropWhileD)

lemma py_in_append: "py_in sub (a @ sub @ b)"
proof (induction a)
  case Nil
  have "prefix sub (sub @ b)" by simp
  then show ?case by (cases "sub @ b") auto
next
  case (Cons x xs)
  then show ?case by simp
qed

lemma py_in_conv: "py_in sub s \<longleftrightarrow> (\<exists>a b. s = a @ sub @ b)"
proof
  show "py_in sub s \<Longrightarrow> \<exists>a b. s = a @ sub @ b"
  proof (induction s)
    case Nil
    then show ?case by simp
  next
    case (Cons c s)
    then consider "prefix sub (c # s)" | "py_in sub s" by auto
    then show ?case
    proof cases
      case 1
      then obtain b where "c # s = [] @ sub @ b" by (auto simp: prefix_def)
      then show ?thesis by blast
    next
      case 2
      with Cons.IH obtain a b where "s = a @ sub @ b" by blast
      then have "c # s = (c # a) @ sub @ b" by simp
      then show ?thesis by blast
    qed
  qed
qed (auto simp: py_in_append)

lemma basename_no_slash: "CHR ''/'' \<notin> set (basename p)"
  using not_in_takeWhile_neq [of "CHR ''/''" "rev p"] by (auto simp: basename_def rpartition_c_def)

lemma basename_plain: "CHR ''/'' \<notin> set p \<Longrightarrow> basename p = p"
  by (simp add: basename_def rpartition_c_absent)

lemma replace_c_no_source: "a \<noteq> b \<Longrightarrow> a \<notin> set (replace_c a b s)"
  by (auto simp: replace_c_def)

subsection \<open>Numbers in strings\<close>

definition digit_val :: "char \<Rightarrow> int" where
  "digit_val c = int (ch_code c) - 48"

text \<open>The decimal digits of a string read as a number, most significant first; \<^verbatim>\<open>str(n)\<close> the other
  way.\<close>

definition int_of_digits :: "string \<Rightarrow> int" where
  "int_of_digits s = foldl (\<lambda>n c. 10 * n + digit_val c) 0 s"

function str_of_nonneg :: "int \<Rightarrow> string" where
  "str_of_nonneg n =
     (if n < 10 then [char_of (48 + nat n)] else str_of_nonneg (n div 10) @ [char_of (48 + nat (n mod 10))])"
  by pat_completeness auto
termination
  by (relation "measure nat") auto

declare str_of_nonneg.simps [simp del]

definition str_of_int :: "int \<Rightarrow> string" where
  "str_of_int i = (if i < 0 then CHR ''-'' # str_of_nonneg (- i) else str_of_nonneg i)"

lemma digit_val_char_of: "0 \<le> n \<Longrightarrow> n < 10 \<Longrightarrow> digit_val (char_of (48 + nat n)) = n"
  by (simp add: digit_val_def ch_code_char_of)

lemma str_of_nonneg_digits: "0 \<le> n \<Longrightarrow> \<forall>c \<in> set (str_of_nonneg n). py_isdigit_ascii c"
proof (induction n rule: str_of_nonneg.induct)
  case (1 n)
  then show ?case
    by (subst str_of_nonneg.simps) (auto simp: py_isdigit_ascii_def ch_code_char_of nat_less_iff)
qed

lemma str_of_nonneg_not_Nil [simp]: "str_of_nonneg n \<noteq> []"
  by (subst str_of_nonneg.simps) auto

lemma int_of_digits_str_of_nonneg: "0 \<le> n \<Longrightarrow> int_of_digits (str_of_nonneg n) = n"
proof (induction n rule: str_of_nonneg.induct)
  case (1 n)
  show ?case
  proof (cases "n < 10")
    case True
    then show ?thesis using "1.prems"
      by (subst str_of_nonneg.simps) (simp add: int_of_digits_def digit_val_char_of)
  next
    case False
    with 1 have "int_of_digits (str_of_nonneg (n div 10)) = n div 10" by simp
    with False show ?thesis
      by (subst str_of_nonneg.simps) (simp add: int_of_digits_def digit_val_char_of)
  qed
qed

text \<open>\<^verbatim>\<open>int(s)\<close> in base 10: surrounding white space, one sign, digits with single underscores
  between them; \<^const>\<open>None\<close> is \<^verbatim>\<open>ValueError\<close>.\<close>

fun digits_us :: "bool \<Rightarrow> string \<Rightarrow> string option" where
  "digits_us after_digit [] = (if after_digit then Some [] else None)"
| "digits_us after_digit (c # s) =
     (if py_isdigit_ascii c then map_option (Cons c) (digits_us True s)
      else if c = CHR ''_'' \<and> after_digit then digits_us False s
      else None)"

definition py_int :: "string \<Rightarrow> int option" where
  "py_int s =
     (case py_strip s of
        [] \<Rightarrow> None
      | c # t \<Rightarrow>
          (if c = CHR ''-'' then map_option (\<lambda>d. - int_of_digits d) (digits_us False t)
           else if c = CHR ''+'' then map_option (\<lambda>d. int_of_digits d) (digits_us False t)
           else map_option (\<lambda>d. int_of_digits d) (digits_us False (c # t))))"

lemma digits_us_digits: "\<forall>c \<in> set s. py_isdigit_ascii c \<Longrightarrow> s \<noteq> [] \<or> b \<Longrightarrow> digits_us b s = Some s"
  by (induction s arbitrary: b) auto

subsection \<open>Dictionaries\<close>

text \<open>A dictionary with string keys, in insertion order. \<^verbatim>\<open>d.get(k)\<close> is \<^const>\<open>map_of\<close>,
  \<^verbatim>\<open>d[k] = v\<close> is \<^const>\<open>AList.update\<close>, \<^verbatim>\<open>del d[k]\<close> and \<^verbatim>\<open>d.pop(k, None)\<close> are \<^const>\<open>AList.delete\<close>,
  and \<^verbatim>\<open>d.update(e)\<close> and \<^verbatim>\<open>{**d, **e}\<close> assign the items of \<^verbatim>\<open>e\<close> in turn.\<close>

type_synonym 'v dict = "(string \<times> 'v) list"

definition dget :: "'v dict \<Rightarrow> string \<Rightarrow> 'v option" where
  "dget d k = map_of d k"

definition dset :: "string \<Rightarrow> 'v \<Rightarrow> 'v dict \<Rightarrow> 'v dict" where
  "dset k v d = AList.update k v d"

definition ddel :: "string \<Rightarrow> 'v dict \<Rightarrow> 'v dict" where
  "ddel k d = AList.delete k d"

definition dupdate :: "'v dict \<Rightarrow> 'v dict \<Rightarrow> 'v dict" where
  "dupdate d e = fold (\<lambda>(k, v) acc. dset k v acc) e d"

definition dkeys :: "'v dict \<Rightarrow> string set" where
  "dkeys d = fst ` set d"

definition dict_ok :: "'v dict \<Rightarrow> bool" where
  "dict_ok d \<longleftrightarrow> distinct (map fst d)"

text \<open>What a user of a dictionary relies on. The lemmas of the context are proved once from these
  laws, and hold for every implementation of them.\<close>

locale dictionary =
  fixes empty :: 'd
    and get :: "'d \<Rightarrow> 'k \<Rightarrow> 'v option"
    and put :: "'k \<Rightarrow> 'v \<Rightarrow> 'd \<Rightarrow> 'd"
    and del :: "'k \<Rightarrow> 'd \<Rightarrow> 'd"
    and inv :: "'d \<Rightarrow> bool"
  assumes get_empty: "get empty k = None"
    and get_put: "inv d \<Longrightarrow> get (put k v d) = (get d)(k := Some v)"
    and get_del: "inv d \<Longrightarrow> get (del k d) = (get d)(k := None)"
    and inv_empty: "inv empty"
    and inv_put: "inv d \<Longrightarrow> inv (put k v d)"
    and inv_del: "inv d \<Longrightarrow> inv (del k d)"
begin

lemma inv_put_all: "inv d \<Longrightarrow> inv (fold (\<lambda>(k, v) acc. put k v acc) e d)"
  by (induction e arbitrary: d) (auto simp: inv_put)

lemma get_put_all:
  "inv d \<Longrightarrow> get (fold (\<lambda>(k, v) acc. put k v acc) e d) = get d ++ map_of (rev e)"
proof (induction e arbitrary: d)
  case (Cons kv e)
  obtain k v where kv: "kv = (k, v)" by (cases kv)
  have "get (fold (\<lambda>(k, v) acc. put k v acc) e (put k v d)) = get (put k v d) ++ map_of (rev e)"
    using Cons by (simp add: inv_put)
  also have "\<dots> = get d ++ map_of (rev (kv # e))"
    using Cons.prems kv by (auto simp: get_put map_add_def fun_eq_iff split: option.splits)
  finally show ?case using kv by simp
qed simp

lemma put_put_same: "inv d \<Longrightarrow> get (put k v (put k w d)) = get (put k v d)"
  by (simp add: get_put inv_put)

lemma put_put_comm: "inv d \<Longrightarrow> j \<noteq> k \<Longrightarrow> get (put k v (put j w d)) = get (put j w (put k v d))"
  by (simp add: get_put inv_put fun_upd_twist)

end

interpretation pyd: dictionary "[]" dget dset ddel dict_ok
proof
  fix d :: "'v dict" and k v
  show "dget [] k = None" by (simp add: dget_def)
  show "dget (dset k v d) = (dget d)(k := Some v)"
    by (simp add: dget_def dset_def update_conv' fun_eq_iff)
  show "dget (ddel k d) = (dget d)(k := None)"
    by (simp add: dget_def ddel_def delete_conv' fun_eq_iff)
  show "dict_ok []" by (simp add: dict_ok_def)
  show "dict_ok d \<Longrightarrow> dict_ok (dset k v d)"
    by (simp add: dict_ok_def dset_def distinct_update)
  show "dict_ok d \<Longrightarrow> dict_ok (ddel k d)"
    by (simp add: dict_ok_def ddel_def distinct_delete)
qed

lemma dget_dset [pydict, simp]: "dget (dset k v d) j = (if j = k then Some v else dget d j)"
  by (simp add: dget_def dset_def update_conv')

lemma dget_ddel [pydict, simp]: "dget (ddel k d) j = (if j = k then None else dget d j)"
  by (simp add: dget_def ddel_def delete_conv')

lemma dget_Nil [pydict, simp]: "dget [] k = None"
  by (simp add: dget_def)

lemma dget_Cons: "dget ((k, v) # d) j = (if j = k then Some v else dget d j)"
  by (simp add: dget_def)

lemma dict_ok_dset [simp]: "dict_ok d \<Longrightarrow> dict_ok (dset k v d)"
  by (rule pyd.inv_put)

lemma dict_ok_Nil [simp]: "dict_ok []"
  by (rule pyd.inv_empty)

lemma dict_ok_ddel [simp]: "dict_ok d \<Longrightarrow> dict_ok (ddel k d)"
  by (rule pyd.inv_del)

lemma dict_ok_dupdate [simp]: "dict_ok d \<Longrightarrow> dict_ok (dupdate d e)"
  unfolding dupdate_def by (rule pyd.inv_put_all)

lemma dget_dupdate:
  "dget (dupdate d e) k = (case dget (rev e) k of Some v \<Rightarrow> Some v | None \<Rightarrow> dget d k)"
proof -
  have "dget (fold (\<lambda>(k, v) acc. dset k v acc) e d) k = (dget d ++ map_of (rev e)) k"
    by (induction e arbitrary: d) (auto simp: map_add_def split: option.splits)
  then show ?thesis by (simp add: dupdate_def map_add_def dget_def)
qed

lemma map_of_rev_distinct: "distinct (map fst e) \<Longrightarrow> map_of (rev e) = map_of e"
  by (simp add: map_of_inject_set rev_map [symmetric])

lemma dget_dupdate_ok [pydict]:
  "dict_ok e \<Longrightarrow> dget (dupdate d e) k = (case dget e k of Some v \<Rightarrow> Some v | None \<Rightarrow> dget d k)"
  using dget_dupdate [of d e k]
  by (simp add: dict_ok_def dget_def [of e] dget_def [of "rev e"] map_of_rev_distinct)

lemma dkeys_dset [simp]: "dkeys (dset k v d) = insert k (dkeys d)"
  by (simp add: dkeys_def dset_def dom_update)

lemma dget_None_iff: "dget d k = None \<longleftrightarrow> k \<notin> dkeys d"
  by (simp add: dget_def dkeys_def map_of_eq_None_iff)

subsection \<open>Searching lists\<close>

lemma find_filterD: "find P (filter Q xs) = Some x \<Longrightarrow> x \<in> set xs \<and> Q x \<and> P x"
  by (auto simp: find_Some_iff intro: nth_mem dest: nth_mem)

lemma set_map_filter_iff: "y \<in> set (List.map_filter f xs) \<longleftrightarrow> (\<exists>x \<in> set xs. f x = Some y)"
  by (force simp: List.map_filter_def)

subsection \<open>Characters of built strings\<close>

lemma join_str_set: "set (join_str sep xs) \<subseteq> set sep \<union> (\<Union>x \<in> set xs. set x)"
  by (induction sep xs rule: join_str.induct) auto

lemma replace_all_set: "set (replace_all old new s) \<subseteq> set new \<union> set s"
proof (induction old new s rule: replace_all.induct)
  case (2 old new c s)
  have "set (drop (length old) (c # s)) \<subseteq> set (c # s)" by (rule set_drop_subset)
  then show ?case using 2 by (auto simp del: drop_Cons)
qed simp

end
