(* ===== verification/ShellLex.thy ===== *)
theory ShellLex
  imports Prelude
begin

text \<open>
  The standard library's \<^verbatim>\<open>shlex.shlex\<close> as \<^verbatim>\<open>_flatten_container_command\<close> of
  \<^verbatim>\<open>postprocess/postprocess.py\<close> sets it up: POSIX mode, \<^verbatim>\<open>punctuation_chars=";&|\n"\<close>, blanks
  \<^verbatim>\<open>" \t\r"\<close>, \<^verbatim>\<open>whitespace_split\<close> and no comment characters. The character loop of
  \<^verbatim>\<open>read_token\<close> is a recursion over the text with the reader's state; \<^const>\<open>None\<close> is its
  \<^verbatim>\<open>ValueError\<close> (an open quotation, or a backslash at the end). The lemmas give the tokens of a
  script made of plain words, blanks and separators, and of quoted words.
\<close>

subsection \<open>The reader\<close>

definition is_sep :: "char \<Rightarrow> bool" where
  "is_sep c \<longleftrightarrow> c \<in> {CHR '';'', CHR ''&'', CHR ''|'', CHR 0x0A}"

definition is_blank :: "char \<Rightarrow> bool" where
  "is_blank c \<longleftrightarrow> c \<in> {CHR '' '', CHR 0x09, CHR 0x0D}"

definition dquote :: char where "dquote = CHR 0x22"

definition squote :: char where "squote = CHR 0x27"

definition backslash :: char where "backslash = CHR 0x5C"

text \<open>The values of \<^verbatim>\<open>self.state\<close>: blank, word, punctuation, inside a quotation, and after a backslash
  (with the state to go back to: inside double quotes or in a word).\<close>

datatype lex_state = LBlank | LWord | LPunct | LQuote char | LEsc bool

text \<open>What a character does in the blank state: the new state and the token so far.\<close>

definition lex_start :: "char \<Rightarrow> lex_state \<times> string" where
  "lex_start c =
     (if is_blank c then (LBlank, [])
      else if c = backslash then (LEsc False, [])
      else if is_sep c then (LPunct, [c])
      else if c = squote \<or> c = dquote then (LQuote c, [])
      else (LWord, [c]))"

fun lex :: "lex_state \<Rightarrow> string \<Rightarrow> string \<Rightarrow> string list option" where
  "lex LBlank tok [] = Some []"
| "lex LWord tok [] = Some [tok]"
| "lex LPunct tok [] = Some [tok]"
| "lex (LQuote _) tok [] = None"
| "lex (LEsc _) tok [] = None"
| "lex LBlank tok (c # s) = (let (st, t) = lex_start c in lex st t s)"
| "lex (LQuote q) tok (c # s) =
     (if c = q then lex LWord tok s
      else if c = backslash \<and> q = dquote then lex (LEsc True) tok s
      else lex (LQuote q) (tok @ [c]) s)"
| "lex (LEsc in_dq) tok (c # s) =
     lex (if in_dq then LQuote dquote else LWord)
       (tok @ (if in_dq \<and> c \<noteq> backslash \<and> c \<noteq> dquote then [backslash, c] else [c])) s"
| "lex LPunct tok (c # s) =
     (if is_blank c then map_option (Cons tok) (lex LBlank [] s)
      else if is_sep c then lex LPunct (tok @ [c]) s
      else (let (st, t) = lex_start c in map_option (Cons tok) (lex st t s)))"
| "lex LWord tok (c # s) =
     (if is_blank c then map_option (Cons tok) (lex LBlank [] s)
      else if c = squote \<or> c = dquote then lex (LQuote c) tok s
      else if c = backslash then lex (LEsc False) tok s
      else if is_sep c then (let (st, t) = lex_start c in map_option (Cons tok) (lex st t s))
      else lex LWord (tok @ [c]) s)"

definition shlex_tokens :: "string \<Rightarrow> string list option" where
  "shlex_tokens s = lex LBlank [] s"

subsection \<open>Tokens of plain words and of quoted text\<close>

text \<open>A character that stands for itself in a word.\<close>

definition is_plain :: "char \<Rightarrow> bool" where
  "is_plain c \<longleftrightarrow> \<not> is_blank c \<and> \<not> is_sep c \<and> c \<noteq> squote \<and> c \<noteq> dquote \<and> c \<noteq> backslash"

definition plain_word :: "string \<Rightarrow> bool" where
  "plain_word w \<longleftrightarrow> w \<noteq> [] \<and> list_all is_plain w"

lemma is_sep_not_special: "is_sep c \<Longrightarrow> \<not> is_blank c \<and> c \<noteq> squote \<and> c \<noteq> dquote \<and> c \<noteq> backslash"
  by (auto simp: is_sep_def is_blank_def squote_def dquote_def backslash_def)

lemma lex_word: "list_all is_plain w \<Longrightarrow> lex LWord tok (w @ s) = lex LWord (tok @ w) s"
  by (induction w arbitrary: tok) (auto simp: is_plain_def)

lemma lex_blank_word: "plain_word w \<Longrightarrow> lex LBlank t (w @ s) = lex LWord w s"
  by (cases w) (auto simp: plain_word_def lex_start_def is_plain_def lex_word)

lemma lex_punct: "list_all is_sep p \<Longrightarrow> lex LPunct tok (p @ s) = lex LPunct (tok @ p) s"
  by (induction p arbitrary: tok) (auto dest: is_sep_not_special)

lemma lex_blank_punct: "p \<noteq> [] \<Longrightarrow> list_all is_sep p \<Longrightarrow> lex LBlank t (p @ s) = lex LPunct p s"
  by (cases p) (auto simp: lex_start_def lex_punct dest: is_sep_not_special)

lemma is_blank_space [simp]: "is_blank CHR '' ''"
  by (simp add: is_blank_def)

text \<open>A piece of a script is a plain word or a run of separators.\<close>

definition lex_piece :: "string \<Rightarrow> bool" where
  "lex_piece w \<longleftrightarrow> plain_word w \<or> (w \<noteq> [] \<and> list_all is_sep w)"

lemma lex_piece_step:
  assumes "lex_piece w"
  shows "lex LBlank t w = Some [w]" and "lex LBlank t (w @ CHR '' '' # s) = map_option (Cons w) (lex LBlank [] s)"
proof -
  consider "plain_word w" | "w \<noteq> []" "list_all is_sep w" using assms by (auto simp: lex_piece_def)
  then have "lex LBlank t w = Some [w] \<and> lex LBlank t (w @ CHR '' '' # s) = map_option (Cons w) (lex LBlank [] s)"
    using lex_blank_word [of w t "[]"] lex_blank_word [of w t "CHR '' '' # s"]
      lex_blank_punct [of w t "[]"] lex_blank_punct [of w t "CHR '' '' # s"]
    by cases auto
  then show "lex LBlank t w = Some [w]"
    and "lex LBlank t (w @ CHR '' '' # s) = map_option (Cons w) (lex LBlank [] s)" by auto
qed

text \<open>Joining pieces by blanks and reading them back gives the pieces.\<close>

lemma shlex_join: "list_all lex_piece ws \<Longrightarrow> shlex_tokens (join_str '' '' ws) = Some ws"
proof -
  have "list_all lex_piece ws \<Longrightarrow> lex LBlank t (join_str '' '' ws) = Some ws" for t
  proof (induction ws arbitrary: t rule: induct_list012)
    case (3 x y zs)
    then show ?case using lex_piece_step(2) [of x t "join_str '' '' (y # zs)"] by simp
  qed (auto simp: lex_piece_step)
  then show "list_all lex_piece ws \<Longrightarrow> ?thesis" by (simp add: shlex_tokens_def)
qed

text \<open>Text in single quotes is one token, whatever blanks, separators and backslashes it holds; an
  open quotation has no tokens.\<close>

lemma lex_squoted: "squote \<notin> set w \<Longrightarrow> lex (LQuote squote) tok (w @ squote # s) = lex LWord (tok @ w) s"
  by (induction w arbitrary: tok) (auto simp: squote_def dquote_def)

lemma lex_open_squote: "squote \<notin> set w \<Longrightarrow> lex (LQuote squote) tok w = None"
  by (induction w arbitrary: tok) (auto simp: squote_def dquote_def)

lemma lex_start_squote: "lex_start squote = (LQuote squote, [])"
  by (simp add: lex_start_def is_blank_def is_sep_def squote_def backslash_def)

lemma shlex_squoted: "squote \<notin> set w \<Longrightarrow> shlex_tokens (squote # w @ [squote]) = Some [w]"
  using lex_squoted [of w "[]" "[]"] by (simp add: shlex_tokens_def lex_start_squote)

lemma shlex_open_squote: "squote \<notin> set w \<Longrightarrow> shlex_tokens (squote # w) = None"
  by (simp add: shlex_tokens_def lex_start_squote lex_open_squote)

end
