(* ===== verification/PyFloat.thy ===== *)
theory PyFloat
  imports Complex_Main Prelude
begin

text \<open>
  Python's \<^verbatim>\<open>float\<close>: IEEE 754 binary64, with correctly rounded arithmetic. A finite float is the
  rational number it denotes (the two zeros are one number, as they are for every comparison
  in the program), so an operation is the exact operation followed by \<open>rnd64\<close>, rounding to the
  nearest representable number with ties to even. The same rounding in base 10 gives
  \<^verbatim>\<open>round(x, 2)\<close> and the \<^verbatim>\<open>.3g\<close> and \<^verbatim>\<open>.6g\<close> formats. The main lemmas are that rounding is
  monotone, proved once for any base and precision.
\<close>

subsection \<open>Values\<close>

datatype xfloat = NInf | Fin rat | PInf

datatype pyfloat = Num xfloat | NaN

text \<open>The numbers other than NaN are linearly ordered.\<close>

instantiation xfloat :: linorder
begin

fun less_eq_xfloat :: "xfloat \<Rightarrow> xfloat \<Rightarrow> bool" where
  "less_eq_xfloat NInf _ = True"
| "less_eq_xfloat _ PInf = True"
| "less_eq_xfloat (Fin a) (Fin b) = (a \<le> b)"
| "less_eq_xfloat PInf _ = False"
| "less_eq_xfloat _ NInf = False"

definition less_xfloat :: "xfloat \<Rightarrow> xfloat \<Rightarrow> bool" where
  "less_xfloat a b = (a \<le> b \<and> \<not> b \<le> a)"

instance
proof
  fix x y z :: xfloat
  show "(x < y) = (x \<le> y \<and> \<not> y \<le> x)" by (simp add: less_xfloat_def)
  show "x \<le> x" by (cases x) auto
  show "x \<le> y \<Longrightarrow> y \<le> z \<Longrightarrow> x \<le> z" by (cases x; cases y; cases z) auto
  show "x \<le> y \<Longrightarrow> y \<le> x \<Longrightarrow> x = y" by (cases x; cases y) auto
  show "x \<le> y \<or> y \<le> x" by (cases x; cases y) auto
qed

end

lemma Fin_less [simp]: "Fin a < Fin b \<longleftrightarrow> a < b"
  by (auto simp: less_xfloat_def)

subsection \<open>Rounding to a number of significant digits\<close>

text \<open>The exponent of the leading digit of a positive number in base \<open>b\<close>.\<close>

function flog :: "int \<Rightarrow> int \<Rightarrow> nat" where
  "flog b n = (if b \<le> 1 \<or> n < b then 0 else Suc (flog b (n div b)))"
  by pat_completeness auto
termination
  by (relation "measure (\<lambda>(b, n). nat n)") (auto simp: nat_mono_iff intro!: int_div_less_self)

declare flog.simps [simp del]

definition mag :: "int \<Rightarrow> rat \<Rightarrow> int" where
  "mag b q = (if 1 \<le> q then int (flog b \<lfloor>q\<rfloor>) else - int (flog b (\<lceil>1 / q\<rceil> - 1) + 1))"

text \<open>The nearest integer, ties to even.\<close>

definition rhe :: "rat \<Rightarrow> int" where
  "rhe q = (let f = \<lfloor>q\<rfloor>; r = q - of_int f
     in if r < 1/2 then f else if 1/2 < r then f + 1 else if even f then f else f + 1)"

text \<open>The nearest number with \<open>p\<close> significant digits in base \<open>b\<close>; \<open>emin\<close> is the exponent of the
  last digit of the smallest numbers, if the format has one.\<close>

definition last_exp :: "int \<Rightarrow> nat \<Rightarrow> int option \<Rightarrow> rat \<Rightarrow> int" where
  "last_exp b p emin q =
     (case emin of None \<Rightarrow> mag b q - int p + 1 | Some z \<Rightarrow> max (mag b q - int p + 1) z)"

definition round_at :: "int \<Rightarrow> int \<Rightarrow> rat \<Rightarrow> rat" where
  "round_at b e q = of_int (rhe (q / (of_int b powi e))) * (of_int b powi e)"

definition round_sig :: "int \<Rightarrow> nat \<Rightarrow> int option \<Rightarrow> rat \<Rightarrow> rat" where
  "round_sig b p emin q = (if q = 0 then 0 else round_at b (last_exp b p emin \<bar>q\<bar>) q)"

definition rnd64 :: "rat \<Rightarrow> xfloat" where
  "rnd64 q = (let r = round_sig 2 53 (Some (- 1074)) q
     in if 2 ^ 1024 \<le> r then PInf else if r \<le> - (2 ^ 1024) then NInf else Fin r)"

lemma rhe_of_int [simp]: "rhe (of_int n) = n"
  by (simp add: rhe_def)

lemma rhe_floor: "rhe q = \<lfloor>q\<rfloor> \<or> rhe q = \<lfloor>q\<rfloor> + 1"
  by (simp add: rhe_def Let_def)

lemma rhe_mono: "x \<le> y \<Longrightarrow> rhe x \<le> rhe y"
proof -
  assume le: "x \<le> y"
  then have fl: "\<lfloor>x\<rfloor> \<le> \<lfloor>y\<rfloor>" by (rule floor_mono)
  show ?thesis
  proof (cases "\<lfloor>x\<rfloor> = \<lfloor>y\<rfloor>")
    case True
    then show ?thesis using le by (auto simp: rhe_def Let_def)
  next
    case False
    with fl rhe_floor [of x] rhe_floor [of y] show ?thesis by auto
  qed
qed

lemma rhe_uminus: "rhe (- q) = - rhe q"
proof (cases "q = of_int \<lfloor>q\<rfloor>")
  case True
  then have "rhe (- q) = rhe (of_int (- \<lfloor>q\<rfloor>))" by simp
  also have "\<dots> = - \<lfloor>q\<rfloor>" by (simp only: rhe_of_int)
  also have "\<dots> = - rhe q" using True by (metis rhe_of_int)
  finally show ?thesis .
next
  case False
  then have "of_int \<lfloor>q\<rfloor> < q" using of_int_floor_le [of q] by linarith
  moreover have "q < of_int \<lfloor>q\<rfloor> + 1" by linarith
  ultimately have fl: "\<lfloor>- q\<rfloor> = - \<lfloor>q\<rfloor> - 1" by (intro floor_unique) auto
  show ?thesis
    unfolding rhe_def Let_def fl by (auto simp: field_simps)
qed

lemma flog_spec:
  assumes "2 \<le> b" and "1 \<le> n"
  shows "b ^ flog b n \<le> n \<and> n < b ^ Suc (flog b n)"
  using assms
proof (induction b n rule: flog.induct)
  case (1 b n)
  show ?case
  proof (cases "n < b")
    case True
    with "1.prems" show ?thesis by (simp add: flog.simps [of b n])
  next
    case False
    define k where "k = flog b (n div b)"
    have "b div b \<le> n div b" using False "1.prems" by (intro zdiv_mono1) auto
    then have "1 \<le> n div b" using "1.prems" by simp
    with 1 False have IH: "b ^ k \<le> n div b" "n div b < b ^ Suc k"
      by (auto simp: k_def)
    have f: "flog b n = Suc k"
      using False "1.prems" by (simp add: flog.simps [of b n] k_def)
    have "b ^ Suc k = b ^ k * b" by simp
    also have "\<dots> \<le> (n div b) * b" using IH "1.prems" by simp
    also have "\<dots> = n - n mod b" by (simp add: minus_mod_eq_div_mult)
    also have "\<dots> \<le> n" using "1.prems" by simp
    finally have lo: "b ^ Suc k \<le> n" .
    have "n mod b < b" using "1.prems" by simp
    then have "n div b * b + n mod b < (n div b + 1) * b" by (simp only: distrib_right mult_1 add_strict_left_mono)
    also have "\<dots> \<le> b ^ Suc k * b" using IH(2) "1.prems" by (intro mult_right_mono) auto
    finally have "n < b ^ Suc k * b" by simp
    with lo f show ?thesis by (simp add: mult.commute)
  qed
qed

lemma mag_spec:
  assumes b: "2 \<le> b" and q: "0 < q"
  shows "of_int b powi mag b q \<le> q \<and> q < of_int b powi (mag b q + 1)"
proof (cases "1 \<le> q")
  case True
  define n where "n = \<lfloor>q\<rfloor>"
  have n1: "1 \<le> n" using True by (simp add: n_def)
  have nq: "(of_int n :: rat) \<le> q" "q < of_int n + 1"
    unfolding n_def by linarith+
  note fs = flog_spec [OF b n1]
  have "of_int (b ^ flog b n) \<le> (of_int n :: rat)" using fs by (simp only: of_int_le_iff)
  moreover have "(of_int (n + 1) :: rat) \<le> of_int (b ^ Suc (flog b n))"
    using fs by (simp only: of_int_le_iff) linarith
  ultimately have "of_int b ^ flog b n \<le> q" "q < of_int b ^ Suc (flog b n)"
    using nq by (simp_all only: of_int_power of_int_add of_int_1)
  moreover have "mag b q = int (flog b n)" using True by (simp add: mag_def n_def)
  moreover have "int (flog b n) + 1 = int (Suc (flog b n))" by simp
  ultimately show ?thesis by (metis power_int_of_nat)
next
  case False
  define n where "n = \<lceil>1 / q\<rceil> - 1"
  have q1: "1 < 1 / q" using False q by (simp add: field_simps)
  have c: "of_int n < 1 / q" "1 / q \<le> of_int n + 1"
    using ceiling_correct [of "1 / q"] by (auto simp: n_def)
  have n1: "1 \<le> n"
  proof -
    from q1 c(2) have "(0::rat) < of_int n" by linarith
    then show ?thesis by simp
  qed
  define k where "k = flog b n"
  note fs = flog_spec [OF b n1, folded k_def]
  have "of_int (b ^ k) \<le> (of_int n :: rat)" using fs by (simp only: of_int_le_iff)
  with c have lo: "of_int b ^ k < 1 / q" unfolding of_int_power by linarith
  have "(of_int (n + 1) :: rat) \<le> of_int (b ^ Suc k)"
    using fs by (simp only: of_int_le_iff) linarith
  with c have hi: "1 / q \<le> of_int b ^ Suc k" unfolding of_int_power by simp
  have m: "mag b q = - int (Suc k)" using False by (simp add: mag_def n_def [symmetric] k_def)
  have bpos: "(0::rat) < of_int b ^ Suc k" "(0::rat) < of_int b ^ k" using b by auto
  have "inverse (of_int b ^ Suc k) \<le> q"
    using hi q bpos by (simp add: field_simps)
  moreover have "q < inverse (of_int b ^ k)"
    using lo q bpos by (simp add: field_simps)
  moreover have "of_int b powi (- int (Suc k)) = inverse (of_int b ^ Suc k :: rat)"
    by (simp only: power_int_minus power_int_of_nat)
  moreover have "of_int b powi (- int (Suc k) + 1) = inverse (of_int b ^ k :: rat)"
    by (simp add: power_int_minus)
  ultimately show ?thesis using m by simp
qed

lemma mag_mono:
  assumes b: "2 \<le> b" and x: "0 < x" and xy: "x \<le> y"
  shows "mag b x \<le> mag b y"
proof (rule ccontr)
  assume "\<not> mag b x \<le> mag b y"
  then have "mag b y + 1 \<le> mag b x" by simp
  then have "(of_int b :: rat) powi (mag b y + 1) \<le> of_int b powi mag b x"
    using b by (intro power_int_increasing) auto
  with mag_spec [OF b x] mag_spec [OF b less_le_trans [OF x xy]] xy show False by linarith
qed

lemma round_at_mono: "2 \<le> b \<Longrightarrow> x \<le> y \<Longrightarrow> round_at b e x \<le> round_at b e y"
  unfolding round_at_def
  by (intro mult_right_mono of_int_le_iff [THEN iffD2] rhe_mono divide_right_mono) auto

lemma round_at_power:
  assumes "2 \<le> b" and "e \<le> m"
  shows "round_at b e (of_int b powi m) = of_int b powi m"
proof -
  have "of_int b powi m / of_int b powi e = (of_int b powi (m - e) :: rat)"
    using assms by (simp add: power_int_diff)
  also have "\<dots> = of_int (b ^ nat (m - e))"
    using assms by (simp add: power_int_def)
  finally have "rhe (of_int b powi m / of_int b powi e) = b ^ nat (m - e)"
    by (simp only: rhe_of_int)
  moreover have "of_int (b ^ nat (m - e)) = (of_int b powi (m - e) :: rat)"
    using assms by (simp add: power_int_def)
  ultimately show ?thesis
    using assms by (simp add: round_at_def power_int_diff)
qed

lemma round_at_uminus: "round_at b e (- q) = - round_at b e q"
  by (simp add: round_at_def rhe_uminus)

lemma round_sig_uminus: "round_sig b p emin (- q) = - round_sig b p emin q"
  by (simp add: round_sig_def round_at_uminus)

lemma rhe_nonneg: "0 \<le> q \<Longrightarrow> 0 \<le> rhe q"
  using rhe_mono [of 0 q] rhe_of_int [of 0] by simp

lemma round_sig_nonneg: "0 \<le> b \<Longrightarrow> 0 \<le> q \<Longrightarrow> 0 \<le> round_sig b p emin q"
  by (simp add: round_sig_def round_at_def rhe_nonneg)

lemma round_sig_mono_pos:
  assumes b: "2 \<le> b" and p: "1 \<le> p" and x: "0 < x" and xy: "x \<le> y"
  shows "round_sig b p emin x \<le> round_sig b p emin y"
proof -
  let ?ex = "last_exp b p emin x" and ?ey = "last_exp b p emin y"
  have m: "mag b x \<le> mag b y" using mag_mono [OF b x xy] .
  have y: "0 < y" using x xy by simp
  show ?thesis
  proof (cases "?ex = ?ey")
    case True
    then show ?thesis using x y xy b by (simp add: round_sig_def round_at_mono)
  next
    case False
    with m have lt: "?ex < ?ey" "mag b x < mag b y" "?ey = mag b y - int p + 1"
      by (auto simp: last_exp_def split: option.splits)
    let ?P = "of_int b powi mag b y :: rat"
    have "x < of_int b powi (mag b x + 1)" using mag_spec [OF b x] by simp
    also have "\<dots> \<le> ?P" using lt b by (intro power_int_increasing) auto
    finally have "round_at b ?ex x \<le> round_at b ?ex ?P" using b by (intro round_at_mono) auto
    also have "\<dots> = ?P" using lt p b by (intro round_at_power) auto
    also have "\<dots> = round_at b ?ey ?P" using lt p b by (intro round_at_power [symmetric]) auto
    also have "\<dots> \<le> round_at b ?ey y" using mag_spec [OF b y] b by (intro round_at_mono) auto
    finally show ?thesis using x y by (simp add: round_sig_def)
  qed
qed

lemma round_sig_mono:
  assumes b: "2 \<le> b" and p: "1 \<le> p" and xy: "x \<le> y"
  shows "round_sig b p emin x \<le> round_sig b p emin y"
proof -
  consider "0 < x" | "x \<le> 0" "0 \<le> y" | "y < 0" by linarith
  then show ?thesis
  proof cases
    case 1
    then show ?thesis using b p xy by (intro round_sig_mono_pos)
  next
    case 2
    then have "0 \<le> round_sig b p emin (- x)" using b by (intro round_sig_nonneg) auto
    then have "round_sig b p emin x \<le> 0" by (simp add: round_sig_uminus)
    with 2 b round_sig_nonneg [of b y p emin] show ?thesis by linarith
  next
    case 3
    then have "round_sig b p emin (- y) \<le> round_sig b p emin (- x)"
      using b p xy by (intro round_sig_mono_pos) auto
    then show ?thesis by (simp add: round_sig_uminus)
  qed
qed

text \<open>A number with few enough digits is its own rounding.\<close>

lemma round_sig_exact:
  assumes b: "2 \<le> b" and m: "\<bar>m\<bar> < b ^ p" and e: "\<And>z. emin = Some z \<Longrightarrow> z \<le> e"
    and q: "q = of_int m * of_int b powi e"
  shows "round_sig b p emin q = q"
proof (cases "q = 0")
  case False
  then have q0: "0 < \<bar>q\<bar>" by simp
  have b0: "(0::rat) < of_int b" using b by simp
  let ?l = "last_exp b p emin \<bar>q\<bar>"
  have "\<bar>q\<bar> = of_int \<bar>m\<bar> * of_int b powi e" using q b0 by (simp add: abs_mult)
  also have "\<dots> < of_int (b ^ p) * of_int b powi e"
    using m b0 by (intro mult_strict_right_mono of_int_less_iff [THEN iffD2]) auto
  also have "\<dots> = of_int b powi (int p + e)"
    using b0 by (simp add: power_int_add)
  finally have "of_int b powi mag b \<bar>q\<bar> < (of_int b powi (int p + e) :: rat)"
    using mag_spec [OF b q0] by linarith
  then have "mag b \<bar>q\<bar> < int p + e"
    using b power_int_increasing [of "int p + e" "mag b \<bar>q\<bar>" "of_int b :: rat"] by force
  then have le: "?l \<le> e" using e by (auto simp: last_exp_def split: option.splits)
  have "q / of_int b powi ?l = of_int m * (of_int b powi (e - ?l))"
    using q b0 by (simp add: power_int_diff)
  also have "\<dots> = of_int (m * b ^ nat (e - ?l))"
    using le by (simp add: power_int_def)
  finally have r: "q / of_int b powi ?l = of_int (m * b ^ nat (e - ?l))" .
  then have "rhe (q / of_int b powi ?l) = m * b ^ nat (e - ?l)" by (simp only: rhe_of_int)
  then have "round_at b ?l q = (q / of_int b powi ?l) * of_int b powi ?l"
    using r by (simp add: round_at_def)
  then show ?thesis using False b0 by (simp add: round_sig_def)
qed (simp add: round_sig_def)

lemma rnd64_int:
  assumes "\<bar>n\<bar> < 2 ^ 53"
  shows "rnd64 (of_int n) = Fin (of_int n)"
proof -
  have "round_sig 2 53 (Some (- 1074)) (of_int n) = of_int n"
    using assms by (intro round_sig_exact [where m = n and e = 0]) auto
  moreover have "\<bar>of_int n\<bar> < (2 ^ 1024 :: rat)"
  proof -
    have "\<bar>n\<bar> < 2 ^ 1024" using assms by (rule less_le_trans) (rule power_increasing, auto)
    then have "of_int \<bar>n\<bar> < (of_int (2 ^ 1024) :: rat)" by (simp only: of_int_less_iff)
    then show ?thesis by simp
  qed
  ultimately show ?thesis by (auto simp: rnd64_def Let_def)
qed

lemma rnd64_0 [simp]: "rnd64 0 = Fin 0"
  using rnd64_int [of 0] by simp

lemma rnd64_mono: "x \<le> y \<Longrightarrow> rnd64 x \<le> rnd64 y"
  using round_sig_mono [of 2 53 x y "Some (- 1074)"] by (auto simp: rnd64_def Let_def)

subsection \<open>Arithmetic\<close>

fun f_neg :: "pyfloat \<Rightarrow> pyfloat" where
  "f_neg NaN = NaN"
| "f_neg (Num NInf) = Num PInf"
| "f_neg (Num PInf) = Num NInf"
| "f_neg (Num (Fin a)) = Num (Fin (- a))"

fun f_add :: "pyfloat \<Rightarrow> pyfloat \<Rightarrow> pyfloat" where
  "f_add (Num (Fin a)) (Num (Fin b)) = Num (rnd64 (a + b))"
| "f_add (Num PInf) (Num NInf) = NaN"
| "f_add (Num NInf) (Num PInf) = NaN"
| "f_add NaN _ = NaN"
| "f_add _ NaN = NaN"
| "f_add (Num (Fin _)) y = y"
| "f_add x _ = x"

definition f_sub :: "pyfloat \<Rightarrow> pyfloat \<Rightarrow> pyfloat" where
  "f_sub x y = f_add x (f_neg y)"

fun f_abs :: "pyfloat \<Rightarrow> pyfloat" where
  "f_abs NaN = NaN"
| "f_abs (Num (Fin a)) = Num (Fin \<bar>a\<bar>)"
| "f_abs (Num _) = Num PInf"

text \<open>The product with a finite factor; infinity times zero is NaN.\<close>

fun f_mul :: "pyfloat \<Rightarrow> rat \<Rightarrow> pyfloat" where
  "f_mul NaN _ = NaN"
| "f_mul (Num (Fin a)) k = Num (rnd64 (a * k))"
| "f_mul (Num PInf) k = (if k = 0 then NaN else Num (if 0 < k then PInf else NInf))"
| "f_mul (Num NInf) k = (if k = 0 then NaN else Num (if 0 < k then NInf else PInf))"

text \<open>Division by a positive count (\<^verbatim>\<open>sum(values) / len(values)\<close>).\<close>

fun f_div_n :: "pyfloat \<Rightarrow> nat \<Rightarrow> pyfloat" where
  "f_div_n NaN n = NaN"
| "f_div_n (Num (Fin a)) n = Num (rnd64 (a / of_nat n))"
| "f_div_n (Num x) n = Num x"

fun f_le :: "pyfloat \<Rightarrow> pyfloat \<Rightarrow> bool" where
  "f_le (Num x) (Num y) = (x \<le> y)"
| "f_le _ _ = False"

definition f_isfinite :: "pyfloat \<Rightarrow> bool" where
  "f_isfinite x \<longleftrightarrow> (case x of Num (Fin _) \<Rightarrow> True | _ \<Rightarrow> False)"

text \<open>\<^verbatim>\<open>sum(xs)\<close> on floats in CPython 3.12, which keeps a running compensation (Neumaier): the
  rounding error of every addition is accumulated and added at the end, if it is finite.\<close>

fun f_sum_loop :: "pyfloat \<Rightarrow> pyfloat \<Rightarrow> pyfloat list \<Rightarrow> pyfloat" where
  "f_sum_loop t c [] =
     (if c \<noteq> Num (Fin 0) \<and> f_isfinite c then f_add t c else t)"
| "f_sum_loop t c (x # xs) =
     (let t' = f_add t x;
          c' = (if f_le (f_abs x) (f_abs t) then f_add c (f_add (f_sub t t') x)
                else f_add c (f_add (f_sub x t') t))
      in f_sum_loop t' c' xs)"

definition f_sum :: "pyfloat list \<Rightarrow> pyfloat" where
  "f_sum xs = (case xs of [] \<Rightarrow> Num (Fin 0)
     | x # xs' \<Rightarrow> f_sum_loop (f_add (Num (Fin 0)) x) (Num (Fin 0)) xs')"

subsection \<open>Rounding for display\<close>

text \<open>\<^verbatim>\<open>round(x, 2)\<close> and \<^verbatim>\<open>float(f"{x:.Ng}")\<close> of a finite float: decimal rounding of the exact value,
  then rounding to binary64. Infinities and NaN are unchanged.\<close>

definition round2_q :: "rat \<Rightarrow> xfloat" where
  "round2_q q = rnd64 (of_int (rhe (q * 100)) / 100)"

definition sig_q :: "nat \<Rightarrow> rat \<Rightarrow> xfloat" where
  "sig_q n q = rnd64 (round_sig 10 n None q)"

lemma round2_q_mono: "x \<le> y \<Longrightarrow> round2_q x \<le> round2_q y"
  unfolding round2_q_def
  by (intro rnd64_mono divide_right_mono of_int_le_iff [THEN iffD2] rhe_mono) auto

lemma sig_q_mono: "1 \<le> n \<Longrightarrow> x \<le> y \<Longrightarrow> sig_q n x \<le> sig_q n y"
  unfolding sig_q_def by (intro rnd64_mono round_sig_mono) auto

subsection \<open>Conversions\<close>

text \<open>\<^verbatim>\<open>float(s)\<close>: white space around, a sign, then \<^verbatim>\<open>inf\<close>, \<^verbatim>\<open>infinity\<close>, \<^verbatim>\<open>nan\<close> in any case, or a
  decimal with an optional point and exponent; \<^const>\<open>None\<close> is \<^verbatim>\<open>ValueError\<close>.\<close>

definition opt_digits :: "string \<Rightarrow> string option" where
  "opt_digits s = (if s = [] then Some [] else digits_us False s)"

definition exp_part :: "string \<Rightarrow> int option" where
  "exp_part s =
     (if prefix ''-'' s then map_option (\<lambda>d. - int_of_digits d) (digits_us False (tl s))
      else if prefix ''+'' s then map_option int_of_digits (digits_us False (tl s))
      else map_option int_of_digits (digits_us False s))"

definition dec_value :: "string \<Rightarrow> string \<Rightarrow> int \<Rightarrow> rat" where
  "dec_value ip fp e = of_int (int_of_digits (ip @ fp)) * 10 powi (e - int (length fp))"

definition unsigned_decimal :: "string \<Rightarrow> rat option" where
  "unsigned_decimal s =
     (let m = takeWhile (\<lambda>c. c \<noteq> CHR ''e'' \<and> c \<noteq> CHR ''E'') s;
          rest = dropWhile (\<lambda>c. c \<noteq> CHR ''e'' \<and> c \<noteq> CHR ''E'') s;
          ip = fst (partition_c CHR ''.'' m);
          fp = snd (snd (partition_c CHR ''.'' m))
      in if ip = [] \<and> fp = [] then None
         else (case (opt_digits ip, opt_digits fp, (case rest of [] \<Rightarrow> Some 0 | _ # t \<Rightarrow> exp_part t)) of
                 (Some i, Some f, Some e) \<Rightarrow> Some (dec_value i f e)
               | _ \<Rightarrow> None))"

definition unsigned_float :: "string \<Rightarrow> pyfloat option" where
  "unsigned_float s =
     (if py_lower s \<in> {''inf'', ''infinity''} then Some (Num PInf)
      else if py_lower s = ''nan'' then Some NaN
      else map_option (\<lambda>q. Num (rnd64 q)) (unsigned_decimal s))"

definition py_float :: "string \<Rightarrow> pyfloat option" where
  "py_float s =
     (let t = py_strip s
      in if prefix ''-'' t then map_option f_neg (unsigned_float (tl t))
         else if prefix ''+'' t then unsigned_float (tl t)
         else unsigned_float t)"

text \<open>\<^verbatim>\<open>int(f)\<close> truncates towards zero; \<^const>\<open>None\<close> is \<^verbatim>\<open>ValueError\<close> or \<^verbatim>\<open>OverflowError\<close>.\<close>

definition trunc_q :: "rat \<Rightarrow> int" where
  "trunc_q q = (if 0 \<le> q then \<lfloor>q\<rfloor> else \<lceil>q\<rceil>)"

definition int_of_float :: "pyfloat \<Rightarrow> int option" where
  "int_of_float x = (case x of Num (Fin q) \<Rightarrow> Some (trunc_q q) | _ \<Rightarrow> None)"

definition is_integer_q :: "rat \<Rightarrow> bool" where
  "is_integer_q q \<longleftrightarrow> of_int \<lfloor>q\<rfloor> = q"

end
