(* ===== verification/PyValue.thy ===== *)
theory PyValue
  imports PyFloat
begin

text \<open>
  Dynamically typed Python values: what \<^verbatim>\<open>json.load\<close> returns and what the detectors put in
  their result dictionaries. Equality and truth are Python's: \<^verbatim>\<open>None\<close>, \<^verbatim>\<open>False\<close>, zero and empty
  containers are false.
\<close>

datatype pyval =
    VNone
  | VBool bool
  | VInt int
  | VFloat pyfloat
  | VStr string
  | VList "pyval list"
  | VDict "(string \<times> pyval) list"

fun truthy :: "pyval \<Rightarrow> bool" where
  "truthy VNone = False"
| "truthy (VBool b) = b"
| "truthy (VInt i) = (i \<noteq> 0)"
| "truthy (VFloat x) = (x \<noteq> Num (Fin 0))"
| "truthy (VStr s) = (s \<noteq> [])"
| "truthy (VList xs) = (xs \<noteq> [])"
| "truthy (VDict d) = (d \<noteq> [])"

text \<open>\<^verbatim>\<open>d.get(k)\<close> where a missing key is \<^verbatim>\<open>None\<close>, and \<^verbatim>\<open>a or b\<close>.\<close>

definition vget :: "pyval dict \<Rightarrow> string \<Rightarrow> pyval" where
  "vget d k = (case dget d k of Some v \<Rightarrow> v | None \<Rightarrow> VNone)"

definition vor :: "pyval \<Rightarrow> pyval \<Rightarrow> pyval" where
  "vor a b = (if truthy a then a else b)"

text \<open>\<^verbatim>\<open>d.get("k") or ...\<close> where the value is a string: the string if it is non-empty.\<close>

definition nonempty :: "string option \<Rightarrow> string option" where
  "nonempty s = (case s of Some (c # t) \<Rightarrow> Some (c # t) | _ \<Rightarrow> None)"

text \<open>\<^verbatim>\<open>safe_get(data, k1, k2)\<close> with the default \<^verbatim>\<open>None\<close>.\<close>

fun safe_get :: "pyval \<Rightarrow> string list \<Rightarrow> pyval" where
  "safe_get v [] = (if v = VDict [] then VNone else v)"
| "safe_get (VDict d) (k # ks) = safe_get (case dget d k of Some v \<Rightarrow> v | None \<Rightarrow> VDict []) ks"
| "safe_get v (k # ks) = VNone"

lemma nonempty_simps [simp]: "nonempty None = None" "nonempty (Some []) = None" "nonempty (Some (c # t)) = Some (c # t)"
  by (simp_all add: nonempty_def)

lemma nonempty_SomeD: "nonempty s = Some t \<Longrightarrow> s = Some t \<and> t \<noteq> []"
  by (auto simp: nonempty_def split: option.splits list.splits)

lemma vget_dset [pydict, simp]: "vget (dset k v d) j = (if j = k then v else vget d j)"
  by (simp add: vget_def)

lemma vget_ddel [pydict, simp]: "vget (ddel k d) j = (if j = k then VNone else vget d j)"
  by (simp add: vget_def)

lemma vget_Nil [simp]: "vget [] j = VNone"
  by (simp add: vget_def)

lemma vor_VNone [simp]: "vor VNone b = b"
  by (simp add: vor_def)

lemma truthy_vor: "truthy (vor a b) \<longleftrightarrow> truthy a \<or> truthy b"
  by (simp add: vor_def)

lemma vor_assoc: "vor (vor a b) c = vor a (vor b c)"
  by (simp add: vor_def)

end
