(* ===== verification/Json.thy ===== *)
theory Json
  imports PyValue
begin

text \<open>
  The standard library's \<^verbatim>\<open>json.loads\<close>, which reads the values of flags such as
  \<^verbatim>\<open>--speculative-config\<close>. \<^const>\<open>None\<close> is \<^verbatim>\<open>JSONDecodeError\<close>, a \<^verbatim>\<open>ValueError\<close>. Objects keep the
  last of several values for a key. An escape of a code point from 256 up is outside the model
  and is refused. The recursion is bounded by a counter; \<open>json_fuel_enough\<close> shows that the
  length of the text is enough, so the result does not depend on it.
\<close>

definition json_ws :: "char \<Rightarrow> bool" where
  "json_ws c \<longleftrightarrow> c \<in> {CHR '' '', CHR 0x09, CHR 0x0A, CHR 0x0D}"

abbreviation skip_ws :: "string \<Rightarrow> string" where
  "skip_ws s \<equiv> dropWhile json_ws s"

definition hex_val :: "char \<Rightarrow> nat option" where
  "hex_val c =
     (let n = ch_code c
      in if 48 \<le> n \<and> n \<le> 57 then Some (n - 48)
         else if 97 \<le> n \<and> n \<le> 102 then Some (n - 87)
         else if 65 \<le> n \<and> n \<le> 70 then Some (n - 55)
         else None)"

fun hex_num :: "string \<Rightarrow> nat option" where
  "hex_num [] = Some 0"
| "hex_num (c # s) = (case (hex_val c, hex_num s) of (Some a, Some b) \<Rightarrow> Some (a * 16 ^ length s + b) | _ \<Rightarrow> None)"

definition esc_char :: "char \<Rightarrow> char option" where
  "esc_char c = map_of [(CHR 0x22, CHR 0x22), (CHR 0x5C, CHR 0x5C), (CHR ''/'', CHR ''/''), (CHR ''b'', CHR 0x08),
     (CHR ''f'', CHR 0x0C), (CHR ''n'', CHR 0x0A), (CHR ''r'', CHR 0x0D), (CHR ''t'', CHR 0x09)] c"

text \<open>The rest of a string literal after its opening quotation mark.\<close>

function json_string :: "string \<Rightarrow> string \<Rightarrow> (string \<times> string) option" where
  "json_string acc [] = None"
| "json_string acc (c # s) =
     (if c = CHR 0x22 then Some (acc, s)
      else if ch_code c < 32 then None
      else if c = CHR 0x5C then
        (if s \<noteq> [] \<and> hd s = CHR ''u'' then
           (case hex_num (take 4 (tl s)) of
              Some n \<Rightarrow> (if 5 \<le> length s \<and> n < 256 then json_string (acc @ [char_of n]) (drop 5 s) else None)
            | None \<Rightarrow> None)
         else if s \<noteq> [] then
           (case esc_char (hd s) of Some e \<Rightarrow> json_string (acc @ [e]) (tl s) | None \<Rightarrow> None)
         else None)
      else json_string (acc @ [c]) s)"
  by pat_completeness auto
termination
  by (relation "measure (\<lambda>(acc, s). length s)") auto

text \<open>A number: \<^verbatim>\<open>-?(0|[1-9][0-9]*)(\.[0-9]+)?([eE][-+]?[0-9]+)?\<close>; the optional parts are read only
  if they are complete.\<close>

definition num_int :: "string \<Rightarrow> string" where
  "num_int s = (let ds = takeWhile py_isdigit_ascii s in if prefix ''0'' ds then ''0'' else ds)"

definition num_frac :: "string \<Rightarrow> string" where
  "num_frac s = (if prefix ''.'' s then takeWhile py_isdigit_ascii (tl s) else [])"

text \<open>The sign and the digits of an exponent.\<close>

definition num_exp :: "string \<Rightarrow> string \<times> string" where
  "num_exp s =
     (let sgn = (if prefix ''-'' (tl s) \<or> prefix ''+'' (tl s) then take 1 (tl s) else []);
          ed = takeWhile py_isdigit_ascii (drop (length sgn) (tl s))
      in if (prefix ''e'' s \<or> prefix ''E'' s) \<and> ed \<noteq> [] then (sgn, ed) else ([], []))"

definition json_number :: "string \<Rightarrow> (pyval \<times> string) option" where
  "json_number s =
     (let neg = prefix ''-'' s;
          s0 = (if neg then tl s else s);
          ip = num_int s0; s1 = drop (length ip) s0;
          fp = num_frac s1; s2 = drop (if fp = [] then 0 else 1 + length fp) s1;
          (sgn, ed) = num_exp s2; s3 = drop (if ed = [] then 0 else 1 + length sgn + length ed) s2;
          e = (if sgn = ''-'' then - int_of_digits ed else int_of_digits ed);
          q = dec_value ip fp e
      in if ip = [] then None
         else if fp = [] \<and> ed = [] then
           Some (VInt (if neg then - int_of_digits ip else int_of_digits ip), s3)
         else Some (VFloat (Num (rnd64 (if neg then - q else q))), s3))"

definition json_const :: "string \<Rightarrow> (pyval \<times> string) option" where
  "json_const s =
     (if prefix ''null'' s then Some (VNone, drop 4 s)
      else if prefix ''true'' s then Some (VBool True, drop 4 s)
      else if prefix ''false'' s then Some (VBool False, drop 5 s)
      else if prefix ''NaN'' s then Some (VFloat NaN, drop 3 s)
      else if prefix ''Infinity'' s then Some (VFloat (Num PInf), drop 8 s)
      else if prefix ''-Infinity'' s then Some (VFloat (Num NInf), drop 9 s)
      else json_number s)"

fun json_value :: "nat \<Rightarrow> string \<Rightarrow> (pyval \<times> string) option"
  and json_members :: "nat \<Rightarrow> pyval dict \<Rightarrow> string \<Rightarrow> (pyval \<times> string) option"
  and json_elems :: "nat \<Rightarrow> pyval list \<Rightarrow> string \<Rightarrow> (pyval \<times> string) option" where
  "json_value 0 s = None"
| "json_value (Suc n) s =
     (case s of
        [] \<Rightarrow> None
      | c # t \<Rightarrow>
          (if c = CHR 0x22 then map_option (\<lambda>(x, r). (VStr x, r)) (json_string [] t)
           else if c = CHR ''{'' then
             (if prefix ''}'' (skip_ws t) then Some (VDict [], tl (skip_ws t)) else json_members n [] (skip_ws t))
           else if c = CHR ''['' then
             (if prefix '']'' (skip_ws t) then Some (VList [], tl (skip_ws t)) else json_elems n [] (skip_ws t))
           else json_const s))"
| "json_members 0 d s = None"
| "json_members (Suc n) d s =
     (if \<not> prefix [CHR 0x22] s then None
      else (case json_string [] (tl s) of
              None \<Rightarrow> None
            | Some (k, r) \<Rightarrow>
                (if \<not> prefix '':'' (skip_ws r) then None
                 else (case json_value n (skip_ws (tl (skip_ws r))) of
                         None \<Rightarrow> None
                       | Some (v, r') \<Rightarrow>
                           (if prefix ''}'' (skip_ws r') then Some (VDict (dset k v d), tl (skip_ws r'))
                            else if prefix '','' (skip_ws r')
                            then json_members n (dset k v d) (skip_ws (tl (skip_ws r')))
                            else None)))))"
| "json_elems 0 xs s = None"
| "json_elems (Suc n) xs s =
     (case json_value n s of
        None \<Rightarrow> None
      | Some (v, r) \<Rightarrow>
          (if prefix '']'' (skip_ws r) then Some (VList (xs @ [v]), tl (skip_ws r))
           else if prefix '','' (skip_ws r) then json_elems n (xs @ [v]) (skip_ws (tl (skip_ws r)))
           else None))"

subsection \<open>The bound on the recursion\<close>

lemma skip_ws_len: "length (skip_ws s) \<le> length s"
  by (rule length_dropWhile_le)

lemma tl_skip_less: "prefix [c] (skip_ws s) \<Longrightarrow> length (tl (skip_ws s)) < length s"
  using skip_ws_len [of s] by (cases "skip_ws s") auto

lemma json_string_len: "json_string acc s = Some (x, r) \<Longrightarrow> length r < length s"
proof (induction acc s rule: json_string.induct)
  case (2 acc c s)
  consider "c = CHR 0x22" | "c = CHR 0x5C" "s \<noteq> []" "hd s = CHR ''u''" | "c = CHR 0x5C" "s \<noteq> []" "hd s \<noteq> CHR ''u''"
    | "c \<noteq> CHR 0x22" "c \<noteq> CHR 0x5C"
    using "2.prems" by (cases "c = CHR 0x22"; cases "c = CHR 0x5C"; cases "s = []") (auto split: if_splits)
  then show ?case
  proof cases
    case 2
    then show ?thesis using "2.IH"(1) "2.prems" by (fastforce split: option.splits if_splits)
  next
    case 3
    then show ?thesis using "2.IH"(2) "2.prems" by (fastforce split: option.splits if_splits)
  next
    case 4
    then show ?thesis using "2.IH"(3) "2.prems" by (auto split: if_splits)
  qed (use "2.prems" in auto)
qed simp

lemma json_number_len:
  assumes "json_number s = Some (v, r)"
  shows "length r < length s"
proof -
  let ?s0 = "if prefix ''-'' s then tl s else s"
  have r: "num_int ?s0 \<noteq> []" "length r \<le> length ?s0 - length (num_int ?s0)"
    using assms by (auto simp: json_number_def Let_def split: prod.splits if_splits)
  moreover have "?s0 \<noteq> []" using r(1) by (auto simp: num_int_def)
  moreover have "length ?s0 \<le> length s" by simp
  ultimately show ?thesis by (cases "num_int ?s0"; cases ?s0) auto
qed

lemma prefix_drop_less: "prefix p s \<Longrightarrow> p \<noteq> [] \<Longrightarrow> n = length p \<Longrightarrow> length (drop n s) < length s"
  by (cases s) (auto simp: prefix_def)

lemma json_const_len: "json_const s = Some (v, r) \<Longrightarrow> length r < length s"
  unfolding json_const_def
  by (auto split: if_splits intro: prefix_drop_less json_number_len)

lemma json_value_len:
  "json_value n s = Some (v, r) \<Longrightarrow> length r < length s"
  "json_members n d s = Some (v, r) \<Longrightarrow> length r < length s"
  "json_elems n xs s = Some (v, r) \<Longrightarrow> length r < length s"
proof (induction n s and n d s and n xs s arbitrary: v r and v r and v r rule: json_value_json_members_json_elems.induct)
  case (2 n s)
  show ?case
  proof (cases s)
    case (Cons c t)
    note sk = skip_ws_len [of t] tl_skip_less [of _ t]
    consider "c = CHR 0x22" | "c = CHR ''{''" | "c = CHR ''[''"
      | "c \<noteq> CHR 0x22" "c \<noteq> CHR ''{''" "c \<noteq> CHR ''[''" by blast
    then show ?thesis
    proof cases
      case 1
      then show ?thesis using "2.prems" Cons by (auto dest: json_string_len)
    next
      case 2
      then show ?thesis
        using "2.prems" "2.IH"(1) [OF Cons] sk Cons by (cases "prefix ''}'' (skip_ws t)") fastforce+
    next
      case 3
      then show ?thesis
        using "2.prems" "2.IH"(2) [OF Cons] sk Cons by (cases "prefix '']'' (skip_ws t)") fastforce+
    next
      case 4
      then show ?thesis using "2.prems" Cons json_const_len [of s] by simp
    qed
  qed (use "2.prems" in simp)
next
  case (4 n d s)
  then have q: "prefix [CHR 0x22] s" by (auto split: if_splits)
  with "4.prems" obtain k r1 where k: "json_string [] (tl s) = Some (k, r1)" by (auto split: option.splits)
  have r1: "length r1 < length s" using json_string_len [OF k] by simp
  from "4.prems" q k have c: "prefix '':'' (skip_ws r1)" by (auto split: if_splits)
  let ?u = "skip_ws (tl (skip_ws r1))"
  have u: "length ?u < length s" using tl_skip_less [OF c] skip_ws_len [of "tl (skip_ws r1)"] r1 by linarith
  from "4.prems" q k c obtain w r2 where v: "json_value n ?u = Some (w, r2)" by (auto split: option.splits)
  have r2: "length r2 < length s" using "4.IH"(1) [OF _ k refl _ v] q c u by simp
  show ?case
  proof (cases "prefix ''}'' (skip_ws r2)")
    case True
    with "4.prems" q k c v have "r = tl (skip_ws r2)" by simp
    with tl_skip_less [OF True] r2 show ?thesis by simp
  next
    case False
    with "4.prems" q k c v have p: "prefix '','' (skip_ws r2)"
      and m: "json_members n (dset k w d) (skip_ws (tl (skip_ws r2))) = Some (v, r)" by (auto split: if_splits)
    have "length r < length (skip_ws (tl (skip_ws r2)))" using "4.IH"(2) [OF _ k refl _ v refl False p m] q c by simp
    with skip_ws_len [of "tl (skip_ws r2)"] tl_skip_less [OF p] r2 show ?thesis by linarith
  qed
next
  case (6 n xs s)
  then obtain w r2 where v: "json_value n s = Some (w, r2)" by (auto split: option.splits)
  have r2: "length r2 < length s" using "6.IH"(1) v by blast
  show ?case
  proof (cases "prefix '']'' (skip_ws r2)")
    case True
    with "6.prems" v have "r = tl (skip_ws r2)" by simp
    with tl_skip_less [OF True] r2 show ?thesis by simp
  next
    case False
    with "6.prems" v have p: "prefix '','' (skip_ws r2)"
      and m: "json_elems n (xs @ [w]) (skip_ws (tl (skip_ws r2))) = Some (v, r)" by (auto split: if_splits)
    have "length r < length (skip_ws (tl (skip_ws r2)))" using "6.IH"(2) [OF v refl False p m] .
    with skip_ws_len [of "tl (skip_ws r2)"] tl_skip_less [OF p] r2 show ?thesis by linarith
  qed
qed simp_all

text \<open>More fuel than twice the length of the text does not change the result.\<close>

lemma json_fuel_mono:
  "2 * length s < n \<Longrightarrow> json_value (n + k) s = json_value n s"
  "2 * length s < n \<Longrightarrow> json_members (n + k) d s = json_members n d s"
  "2 * length s + 1 < n \<Longrightarrow> json_elems (n + k) xs s = json_elems n xs s"
proof (induction n s and n d s and n xs s rule: json_value_json_members_json_elems.induct)
  case (2 n s)
  show ?case
  proof (cases s)
    case (Cons c t)
    have "length (skip_ws t) < length s" using skip_ws_len [of t] Cons by simp
    then have "2 * length (skip_ws t) + 1 < n" using "2.prems" by simp
    with "2.IH" Cons show ?thesis by simp
  qed simp
next
  case (4 n d s)
  show ?case
  proof (cases "prefix [CHR 0x22] s")
    case q: True
    show ?thesis
    proof (cases "json_string [] (tl s)")
      case (Some kr)
      obtain key r1 where kr: "kr = (key, r1)" by (cases kr)
      have r1: "length r1 < length s" using json_string_len [OF Some [unfolded kr]] by simp
      show ?thesis
      proof (cases "prefix '':'' (skip_ws r1)")
        case c: True
        let ?u = "skip_ws (tl (skip_ws r1))"
        have "length ?u < length s"
          using tl_skip_less [OF c] skip_ws_len [of "tl (skip_ws r1)"] r1 by linarith
        then have "2 * length ?u < n" using "4.prems" by simp
        then have vk: "json_value (n + k) ?u = json_value n ?u" using "4.IH"(1) q Some kr c by simp
        show ?thesis
        proof (cases "json_value n ?u")
          case None
          then show ?thesis using q Some kr c vk by simp
        next
          case v: (Some vr)
          obtain w r2 where vr: "vr = (w, r2)" by (cases vr)
          have r2: "length r2 < length ?u" using json_value_len(1) [OF v [unfolded vr]] .
          have "2 * length (skip_ws (tl (skip_ws r2))) < n" if p: "prefix '','' (skip_ws r2)"
            using tl_skip_less [OF p] skip_ws_len [of "tl (skip_ws r2)"] r2 \<open>2 * length ?u < n\<close> by linarith
          then show ?thesis using "4.IH"(2) q Some kr c v vr vk by simp
        qed
      qed (use q Some kr in simp)
    qed (use q in simp)
  qed simp
next
  case (6 n xs s)
  have "json_value (n + k) s = json_value n s" using 6 by simp
  show ?case
  proof (cases "json_value n s")
    case v: (Some vr)
    obtain w r2 where vr: "vr = (w, r2)" by (cases vr)
    have r2: "length r2 < length s" using json_value_len(1) [OF v [unfolded vr]] .
    have "2 * length (skip_ws (tl (skip_ws r2))) + 1 < n" if p: "prefix '','' (skip_ws r2)"
      using tl_skip_less [OF p] skip_ws_len [of "tl (skip_ws r2)"] r2 "6.prems" by linarith
    then show ?thesis using "6.IH"(2) v vr \<open>json_value (n + k) s = json_value n s\<close> by simp
  qed (use \<open>json_value (n + k) s = json_value n s\<close> in simp)
qed simp_all

definition json_loads :: "string \<Rightarrow> pyval option" where
  "json_loads s =
     (case json_value (2 * length s + 2) (skip_ws s) of
        Some (v, r) \<Rightarrow> (if skip_ws r = [] then Some v else None)
      | None \<Rightarrow> None)"

lemma json_fuel_enough:
  "json_value (2 * length s + 2 + k) (skip_ws s) = json_value (2 * length s + 2) (skip_ws s)"
  using skip_ws_len [of s] by (intro json_fuel_mono) simp

end
