(* ===== verification/Regex.thy ===== *)
theory Regex
  imports Prelude
begin

text \<open>
  The fragment of Python's \<^verbatim>\<open>re\<close> that the program uses. A pattern is matched by ordered
  backtracking: \<open>rmatch\<close> lists every way to match at a position, in the order in which
  \<^verbatim>\<open>re\<close> tries them, so the first element is the match that \<^verbatim>\<open>re\<close> reports. Repetition is only
  over one-character classes, as in all the patterns of the source, which makes the matcher
  structurally recursive and total. The lemmas say that a match never changes the text it
  is matched against, and that a group is a part of that text.
\<close>

datatype regex =
    REps
  | RCls "char \<Rightarrow> bool"            \<comment> \<open>one character of a class\<close>
  | RSeq regex regex
  | RAlt regex regex
  | ROpt regex                    \<comment> \<open>\<^verbatim>\<open>(?:...)?\<close>\<close>
  | RStar "char \<Rightarrow> bool"           \<comment> \<open>\<^verbatim>\<open>[...]*\<close>, greedy\<close>
  | RLazy "char \<Rightarrow> bool"           \<comment> \<open>\<^verbatim>\<open>[...]*?\<close>\<close>
  | RGroup nat regex
  | RNotAhead "char \<Rightarrow> bool"       \<comment> \<open>\<^verbatim>\<open>(?![...])\<close>\<close>
  | RNotBehind "char \<Rightarrow> bool"      \<comment> \<open>\<^verbatim>\<open>(?<![...])\<close>\<close>
  | RBos                          \<comment> \<open>\<^verbatim>\<open>^\<close> without \<^verbatim>\<open>re.M\<close>\<close>
  | REos                          \<comment> \<open>\<^verbatim>\<open>$\<close> without \<^verbatim>\<open>re.M\<close>: also before a final newline\<close>

text \<open>The characters before the position (reversed), those after it, and the groups set so far.\<close>

type_synonym mstate = "string \<times> string \<times> (nat \<times> string) list"

fun star_states :: "(char \<Rightarrow> bool) \<Rightarrow> string \<Rightarrow> string \<Rightarrow> (nat \<times> string) list \<Rightarrow> mstate list" where
  "star_states p b [] g = [(b, [], g)]"
| "star_states p b (c # r) g =
     (if p c then star_states p (c # b) r g @ [(b, c # r, g)] else [(b, c # r, g)])"

primrec rmatch :: "regex \<Rightarrow> mstate \<Rightarrow> mstate list" where
  "rmatch REps s = [s]"
| "rmatch (RCls p) s = (case s of (b, c # r, g) \<Rightarrow> if p c then [(c # b, r, g)] else [] | _ \<Rightarrow> [])"
| "rmatch (RSeq r1 r2) s = concat (map (rmatch r2) (rmatch r1 s))"
| "rmatch (RAlt r1 r2) s = rmatch r1 s @ rmatch r2 s"
| "rmatch (ROpt r) s = rmatch r s @ [s]"
| "rmatch (RStar p) s = (case s of (b, r, g) \<Rightarrow> star_states p b r g)"
| "rmatch (RLazy p) s = (case s of (b, r, g) \<Rightarrow> rev (star_states p b r g))"
| "rmatch (RGroup n r) s =
     map (\<lambda>(b', r', g'). (b', r', (n, take (length (fst (snd s)) - length r') (fst (snd s))) # g')) (rmatch r s)"
| "rmatch (RNotAhead p) s = (case s of (b, c # r, g) \<Rightarrow> if p c then [] else [s] | _ \<Rightarrow> [s])"
| "rmatch (RNotBehind p) s = (case s of (c # b, r, g) \<Rightarrow> if p c then [] else [s] | _ \<Rightarrow> [s])"
| "rmatch RBos s = (if fst s = [] then [s] else [])"
| "rmatch REos s = (if fst (snd s) = [] \<or> fst (snd s) = [CHR 0x0A] then [s] else [])"

text \<open>\<^verbatim>\<open>pattern.match(s)\<close>, \<^verbatim>\<open>pattern.fullmatch(s)\<close> and \<^verbatim>\<open>pattern.search(s)\<close>.\<close>

definition re_match :: "regex \<Rightarrow> string \<Rightarrow> mstate option" where
  "re_match r s = (case rmatch r ([], s, []) of [] \<Rightarrow> None | m # _ \<Rightarrow> Some m)"

definition re_fullmatch :: "regex \<Rightarrow> string \<Rightarrow> mstate option" where
  "re_fullmatch r s = find (\<lambda>m. fst (snd m) = []) (rmatch r ([], s, []))"

fun search_from :: "regex \<Rightarrow> string \<Rightarrow> string \<Rightarrow> mstate option" where
  "search_from r b [] = (case rmatch r (b, [], []) of [] \<Rightarrow> None | m # _ \<Rightarrow> Some m)"
| "search_from r b (c # s) =
     (case rmatch r (b, c # s, []) of [] \<Rightarrow> search_from r (c # b) s | m # _ \<Rightarrow> Some m)"

definition re_search :: "regex \<Rightarrow> string \<Rightarrow> mstate option" where
  "re_search r s = search_from r [] s"

text \<open>\<^verbatim>\<open>m.group(n)\<close>; \<^const>\<open>None\<close> for a group that took no part.\<close>

definition group :: "nat \<Rightarrow> mstate \<Rightarrow> string option" where
  "group n m = map_of (snd (snd m)) n"

subsection \<open>Building patterns\<close>

abbreviation RPlus :: "(char \<Rightarrow> bool) \<Rightarrow> regex" where
  "RPlus p \<equiv> RSeq (RCls p) (RStar p)"

definition one_of :: "string \<Rightarrow> char \<Rightarrow> bool" where
  "one_of s c \<longleftrightarrow> c \<in> set s"

definition none_of :: "string \<Rightarrow> char \<Rightarrow> bool" where
  "none_of s c \<longleftrightarrow> c \<notin> set s"

fun rlit :: "string \<Rightarrow> regex" where
  "rlit [] = REps"
| "rlit (c # s) = RSeq (RCls (\<lambda>x. x = c)) (rlit s)"

text \<open>A literal under \<^verbatim>\<open>re.IGNORECASE\<close>.\<close>

fun rlit_ci :: "string \<Rightarrow> regex" where
  "rlit_ci [] = REps"
| "rlit_ci (c # s) = RSeq (RCls (\<lambda>x. lower_char x = lower_char c)) (rlit_ci s)"

fun rseq :: "regex list \<Rightarrow> regex" where
  "rseq [] = REps"
| "rseq [r] = r"
| "rseq (r # s # rs) = RSeq r (rseq (s # rs))"

fun ralt :: "regex list \<Rightarrow> regex" where
  "ralt [] = RCls (\<lambda>_. False)"
| "ralt [r] = r"
| "ralt (r # s # rs) = RAlt r (ralt (s # rs))"

subsection \<open>A match keeps the text\<close>

definition text_of :: "mstate \<Rightarrow> string" where
  "text_of m = rev (fst m) @ fst (snd m)"

lemma text_of_simp [simp]: "text_of (b, r, g) = rev b @ r"
  by (simp add: text_of_def)

lemma star_states_text:
  "m \<in> set (star_states p b r g) \<Longrightarrow> text_of m = rev b @ r \<and> length (fst (snd m)) \<le> length r"
proof (induction r arbitrary: b)
  case (Cons c r)
  show ?case
  proof (cases "p c \<and> m \<in> set (star_states p (c # b) r g)")
    case True
    with Cons.IH [of "c # b"] show ?thesis by simp
  next
    case False
    with Cons.prems have "m = (b, c # r, g)" by (simp split: if_splits)
    then show ?thesis by simp
  qed
qed simp

lemma rmatch_text:
  "m \<in> set (rmatch r s) \<Longrightarrow> text_of m = text_of s \<and> length (fst (snd m)) \<le> length (fst (snd s))"
proof (induction r arbitrary: s m)
  case (RSeq r1 r2)
  then obtain k where "k \<in> set (rmatch r1 s)" "m \<in> set (rmatch r2 k)" by auto
  with RSeq.IH(1) [of k s] RSeq.IH(2) [of m k] show ?case by auto
next
  case (RAlt r1 r2)
  then have "m \<in> set (rmatch r1 s) \<or> m \<in> set (rmatch r2 s)" by simp
  with RAlt.IH [of m s] show ?case by blast
next
  case (ROpt r)
  then have "m \<in> set (rmatch r s) \<or> m = s" by auto
  with ROpt.IH [of m s] show ?case by auto
next
  case (RStar p)
  then show ?case by (cases s) (auto dest: star_states_text)
next
  case (RLazy p)
  then show ?case by (cases s) (auto dest: star_states_text)
next
  case (RGroup n r)
  then obtain b' r' g' where "(b', r', g') \<in> set (rmatch r s)" "fst m = b'" "fst (snd m) = r'" by auto
  with RGroup.IH [of "(b', r', g')" s] show ?case by (simp add: text_of_def)
next
  case (RNotAhead p)
  obtain b r g where "s = (b, r, g)" by (cases s)
  with RNotAhead show ?case by (cases r) (auto split: if_splits)
next
  case (RNotBehind p)
  obtain b r g where "s = (b, r, g)" by (cases s)
  with RNotBehind show ?case by (cases b) (auto split: if_splits)
next
  case (RCls p)
  obtain b r g where "s = (b, r, g)" by (cases s)
  with RCls show ?case by (cases r) (auto split: if_splits)
qed (auto split: if_splits)

lemma search_from_text: "search_from r b s = Some m \<Longrightarrow> text_of m = rev b @ s"
proof (induction s arbitrary: b)
  case Nil
  then obtain ms where "rmatch r (b, [], []) = m # ms" by (auto split: list.splits)
  then have "m \<in> set (rmatch r (b, [], []))" by simp
  then show ?case by (drule_tac rmatch_text) simp
next
  case (Cons c s)
  show ?case
  proof (cases "rmatch r (b, c # s, [])")
    case Nil
    with Cons.prems Cons.IH [of "c # b"] show ?thesis by simp
  next
    case (Cons m' ms)
    with Cons.prems have "m \<in> set (rmatch r (b, c # s, []))" by simp
    then show ?thesis by (drule_tac rmatch_text) simp
  qed
qed

lemma re_search_text: "re_search r s = Some m \<Longrightarrow> text_of m = s"
  by (simp add: re_search_def search_from_text)

lemma re_match_text: "re_match r s = Some m \<Longrightarrow> text_of m = s"
  using rmatch_text [of m r "([], s, [])"] by (auto simp: re_match_def split: list.splits)

text \<open>Searching finds a match exactly where one exists.\<close>

lemma search_from_None_iff:
  "search_from r b s = None \<longleftrightarrow> (\<forall>k \<le> length s. rmatch r (rev (take k s) @ b, drop k s, []) = [])"
proof (induction s arbitrary: b)
  case Nil
  then show ?case by (auto split: list.splits)
next
  case (Cons c s)
  have "(\<forall>k \<le> length (c # s). rmatch r (rev (take k (c # s)) @ b, drop k (c # s), []) = []) \<longleftrightarrow>
      rmatch r (b, c # s, []) = [] \<and> (\<forall>k \<le> length s. rmatch r (rev (take k s) @ c # b, drop k s, []) = [])"
    (is "?l = ?r")
  proof
    assume l: ?l
    have "rmatch r (rev (take k s) @ c # b, drop k s, []) = []" if "k \<le> length s" for k
      using l [rule_format, of "Suc k"] that by simp
    with l [rule_format, of 0] show ?r by simp
  next
    assume r: ?r
    show ?l
    proof (intro allI impI)
      fix k assume "k \<le> length (c # s)"
      with r show "rmatch r (rev (take k (c # s)) @ b, drop k (c # s), []) = []" by (cases k) auto
    qed
  qed
  with Cons.IH [of "c # b"] show ?case by (auto split: list.splits)
qed

lemma rmatch_rlit: "rmatch (rlit l) (b, s, g) = (if prefix l s then [(rev l @ b, drop (length l) s, g)] else [])"
proof (induction l arbitrary: b s)
  case (Cons c l)
  then show ?case by (cases s) auto
qed simp

lemma rmatch_rlit_ci:
  "rmatch (rlit_ci l) (b, s, g) =
     (if prefix (py_lower l) (py_lower s) then [(rev (take (length l) s) @ b, drop (length l) s, g)] else [])"
proof (induction l arbitrary: b s)
  case (Cons c l)
  then show ?case by (cases s) (auto simp: py_lower_def)
qed (simp add: py_lower_def)

subsection \<open>The characters of a match\<close>

text \<open>The characters a pattern may consume.\<close>

primrec rclass :: "regex \<Rightarrow> char \<Rightarrow> bool" where
  "rclass REps = (\<lambda>_. False)"
| "rclass (RCls p) = p"
| "rclass (RSeq r s) = (\<lambda>c. rclass r c \<or> rclass s c)"
| "rclass (RAlt r s) = (\<lambda>c. rclass r c \<or> rclass s c)"
| "rclass (ROpt r) = rclass r"
| "rclass (RStar p) = p"
| "rclass (RLazy p) = p"
| "rclass (RGroup n r) = rclass r"
| "rclass (RNotAhead p) = (\<lambda>_. False)"
| "rclass (RNotBehind p) = (\<lambda>_. False)"
| "rclass RBos = (\<lambda>_. False)"
| "rclass REos = (\<lambda>_. False)"

lemma star_states_class: "m \<in> set (star_states p b s g) \<Longrightarrow> set (fst m) \<subseteq> set b \<union> Collect p"
  by (induction p b s g rule: star_states.induct) (auto split: if_splits)

lemma rmatch_class: "m \<in> set (rmatch r s) \<Longrightarrow> set (fst m) \<subseteq> set (fst s) \<union> Collect (rclass r)"
proof (induction r arbitrary: m s)
  case (RSeq r1 r2)
  then obtain m1 where m1: "m1 \<in> set (rmatch r1 s)" "m \<in> set (rmatch r2 m1)" by auto
  show ?case using RSeq.IH(1) [OF m1(1)] RSeq.IH(2) [OF m1(2)] by auto
next
  case (RGroup n r)
  then obtain m1 where m1: "m1 \<in> set (rmatch r s)" "fst m = fst m1" by (auto split: prod.splits)
  show ?case using RGroup.IH [OF m1(1)] m1(2) by simp
qed (fastforce dest: star_states_class split: prod.splits list.splits if_splits)+

lemma rmatch_seqD: "m \<in> set (rmatch (RSeq r1 r2) s) \<Longrightarrow> \<exists>s'. m \<in> set (rmatch r2 s')"
  by auto

end
