(* ===== verification/Command.thy ===== *)
theory Command
  imports ShellLex Json Regex
begin

text \<open>
  Command tokenizing and scoping of \<^verbatim>\<open>postprocess/postprocess.py\<close>: the container specification,
  conversions of flag values, \<^verbatim>\<open>_parse_flags\<close>, the expansion of \<^verbatim>\<open>sh -c\<close> wrappers, the cut into
  one token list per command, and the package-install filter. The detectors of serving engines
  and training tools find their arguments through the locale \<open>arg_finder\<close>, whose lemmas say that
  what they read lies inside one command which is not a package install.
\<close>

subsection \<open>The container specification\<close>

text \<open>An entry of \<^verbatim>\<open>containers.json\<close>. The controller writes the two token lists and the first four
  strings always and the other fields only where they are set, so an absent field is \<^const>\<open>None\<close>.\<close>

record container =
  c_pod_name :: string
  c_name :: string
  c_image :: string
  c_image_id :: string
  c_command :: "string list"
  c_args :: "string list"
  c_terminated_reason :: "string option"
  c_exit_code :: "int option"
  c_finished_at :: "string option"
  c_memory_limit :: "int option"
  c_cpu_limit :: "int option"
  c_gpu_limit :: "int option"
  c_restart_count :: "int option"
  c_last_terminated_reason :: "string option"
  c_last_exit_code :: "int option"
  c_job_result :: "string option"
  c_serving_role :: "string option"

subsection \<open>Values of flags\<close>

text \<open>\<^verbatim>\<open>re.compile(r"\$[{(A-Za-z_]")\<close>, \<^verbatim>\<open>re.compile(r"^-\d+(\.\d+)?$")\<close> and
  \<^verbatim>\<open>re.compile(r"^[A-Za-z_][A-Za-z0-9_]*=")\<close>.\<close>

definition unexpanded_var_re :: regex where
  "unexpanded_var_re = rseq [RCls (one_of ''$''), RCls (\<lambda>c. is_alpha_ascii c \<or> c \<in> {CHR ''{'', CHR ''('', CHR ''_''})]"

definition number_re :: regex where
  "number_re = rseq [RBos, RCls (one_of ''-''), RPlus py_isdigit_ascii,
     ROpt (RSeq (RCls (one_of ''.'')) (RPlus py_isdigit_ascii)), REos]"

definition assignment_re :: regex where
  "assignment_re = rseq [RBos, RCls (\<lambda>c. is_alpha_ascii c \<or> c = CHR ''_''),
     RStar (\<lambda>c. is_alnum_ascii c \<or> c = CHR ''_''), RCls (one_of ''='')]"

definition has_unexpanded_var :: "string \<Rightarrow> bool" where
  "has_unexpanded_var v \<longleftrightarrow> re_search unexpanded_var_re v \<noteq> None"

definition is_flag_token :: "string \<Rightarrow> bool" where
  "is_flag_token tok \<longleftrightarrow> prefix ''-'' tok \<and> tok \<noteq> ''-'' \<and> re_match number_re tok = None"

definition split_flag :: "string \<Rightarrow> char \<Rightarrow> string \<times> string option" where
  "split_flag tok sep =
     (let (key, eq, val) = partition_c CHR ''='' tok;
          key' = (if prefix ''--'' key
                  then ''--'' @ replace_c CHR ''_'' sep (replace_c CHR ''-'' CHR ''_'' (drop 2 key)) else key)
      in (key', if eq then Some val else None))"

text \<open>The conversions, with \<^const>\<open>None\<close> for a raised \<^verbatim>\<open>ValueError\<close> or \<^verbatim>\<open>OverflowError\<close> and for the
  result \<^verbatim>\<open>None\<close>, which \<^verbatim>\<open>_parse_flags\<close> treats alike.\<close>

definition finite_float :: "string \<Rightarrow> rat option" where
  "finite_float v = (case py_float v of Some (Num (Fin q)) \<Rightarrow> Some q | _ \<Rightarrow> None)"

definition int_or_float :: "string \<Rightarrow> pyval option" where
  "int_or_float v = map_option (\<lambda>q. if is_integer_q q then VInt \<lfloor>q\<rfloor> else VFloat (Num (Fin q))) (finite_float v)"

definition human_int_re :: regex where
  "human_int_re = rseq [RBos,
     RGroup 1 (RSeq (RPlus py_isdigit_ascii) (ROpt (RSeq (RCls (one_of ''.'')) (RPlus py_isdigit_ascii)))),
     RGroup 2 (ROpt (RCls (one_of ''kmgtKMGT''))), REos]"

definition suffix_power :: "(string \<times> nat) list" where
  "suffix_power = [(''k'', 1), (''m'', 2), (''g'', 3), (''t'', 4)]"

definition human_readable_int :: "string \<Rightarrow> int option" where
  "human_readable_int v =
     (case re_match human_int_re (py_strip v) of
        None \<Rightarrow> None
      | Some m \<Rightarrow>
          (case (group 1 m, group 2 m) of
             (Some num, Some suf) \<Rightarrow>
               (if suf = [] then py_int num
                else (case map_of suffix_power (py_lower suf) of
                        None \<Rightarrow> None
                      | Some p \<Rightarrow>
                          (if suf \<noteq> py_lower suf then map_option (\<lambda>n. n * 1024 ^ p) (py_int num)
                           else Option.bind (py_float num) (\<lambda>f. int_of_float (f_mul f (1000 ^ p))))))
           | _ \<Rightarrow> None))"

definition to_bool :: "string \<Rightarrow> bool" where
  "to_bool v \<longleftrightarrow> py_lower (py_strip v) \<in> {''1'', ''true'', ''yes''}"

definition coerce_scalar :: "string \<Rightarrow> pyval" where
  "coerce_scalar s =
     (if py_lower s \<in> {''true'', ''false''} then VBool (py_lower s = ''true'')
      else (case py_int s of
              Some i \<Rightarrow> VInt i
            | None \<Rightarrow> (case py_float s of Some f \<Rightarrow> VFloat f | None \<Rightarrow> VStr s)))"

definition kv_pairs :: "string \<Rightarrow> pyval dict" where
  "kv_pairs v =
     foldl (\<lambda>d pair. if CHR ''='' \<notin> set pair then d
                     else (let (k, _, x) = partition_c CHR ''='' pair in dset (py_strip k) (coerce_scalar (py_strip x)) d))
       [] (split_c CHR '','' v)"

definition parse_json_or_kv :: "string \<Rightarrow> pyval option" where
  "parse_json_or_kv v0 =
     (let v = py_strip v0
      in if prefix ''{'' v then json_loads v
         else if kv_pairs v = [] then None else Some (VDict (kv_pairs v)))"

text \<open>The second components of the flag maps.\<close>

datatype conv = CStr | CInt | CBool | CFiniteFloat | CHumanInt | CIntOrFloat | CJsonKv

definition convert :: "conv \<Rightarrow> string \<Rightarrow> pyval option" where
  "convert c v =
     (case c of
        CStr \<Rightarrow> Some (VStr v)
      | CInt \<Rightarrow> map_option VInt (py_int v)
      | CBool \<Rightarrow> Some (VBool (v \<noteq> []))
      | CFiniteFloat \<Rightarrow> map_option (\<lambda>q. VFloat (Num (Fin q))) (finite_float v)
      | CHumanInt \<Rightarrow> map_option VInt (human_readable_int v)
      | CIntOrFloat \<Rightarrow> int_or_float v
      | CJsonKv \<Rightarrow> parse_json_or_kv v)"

subsection \<open>_parse_flags\<close>

type_synonym arg_map = "(string \<times> string \<times> conv) list"

definition bool_words :: "string list" where
  "bool_words = [''true'', ''false'', ''1'', ''0'', ''yes'', ''no'']"

definition is_bool_flag :: "arg_map \<Rightarrow> string \<Rightarrow> bool" where
  "is_bool_flag am k = (case map_of am k of Some (_, c) \<Rightarrow> c = CBool | None \<Rightarrow> False)"

text \<open>The key that a flag token is looked up under, and whether \<^verbatim>\<open>--no-\<close> negates it.\<close>

definition flag_key :: "arg_map \<Rightarrow> char \<Rightarrow> string \<Rightarrow> string \<times> bool" where
  "flag_key am sep key =
     (if prefix (''--no'' @ [sep]) key \<and> is_bool_flag am (''--'' @ drop 5 key)
      then (''--'' @ drop 5 key, True) else (key, False))"

text \<open>The value of a flag: written in the token, or the next token if it is a value.\<close>

definition take_value :: "(string \<Rightarrow> bool) \<Rightarrow> string option \<Rightarrow> string list \<Rightarrow> string option \<times> string list" where
  "take_value ok val rest =
     (if val = None \<and> rest \<noteq> [] \<and> ok (hd rest) then (Some (hd rest), tl rest) else (val, rest))"

lemma take_value_length: "length (snd (take_value ok val rest)) \<le> length rest"
  by (simp add: take_value_def)

text \<open>What one flag token with its value adds to the result.\<close>

definition record_flag :: "string \<Rightarrow> conv \<Rightarrow> bool \<Rightarrow> string option \<Rightarrow> pyval dict \<Rightarrow> pyval dict" where
  "record_flag name c negated val result =
     (if c = CBool then dset name (VBool (\<not> negated \<and> (case val of None \<Rightarrow> True | Some v \<Rightarrow> to_bool v))) result
      else (case val of
              None \<Rightarrow> result
            | Some v \<Rightarrow> (if v = [] \<or> has_unexpanded_var v then result
                        else (case convert c v of Some x \<Rightarrow> dset name x result | None \<Rightarrow> result))))"

text \<open>Whether the next token is the flag's value.\<close>

definition value_token :: "conv \<Rightarrow> bool \<Rightarrow> string \<Rightarrow> bool" where
  "value_token c bv t = (if c = CBool then bv \<and> py_lower t \<in> set bool_words else \<not> is_flag_token t)"

text \<open>The loop over the tokens; \<open>expect\<close> is \<^verbatim>\<open>expect_positional\<close>.\<close>

function parse_flags_loop ::
  "arg_map \<Rightarrow> char \<Rightarrow> bool \<Rightarrow> string list \<Rightarrow> pyval dict \<Rightarrow> string option \<Rightarrow> bool \<Rightarrow> pyval dict \<times> string option" where
  "parse_flags_loop am sep bv [] result pos expect = (result, pos)"
| "parse_flags_loop am sep bv (tok # rest) result pos expect =
     (if \<not> is_flag_token tok then
        parse_flags_loop am sep bv rest result (if expect then Some tok else pos) False
      else
        (case map_of am (fst (flag_key am sep (fst (split_flag tok sep)))) of
           None \<Rightarrow> parse_flags_loop am sep bv rest result pos False
         | Some (name, c) \<Rightarrow>
             (let vr = take_value (value_token c bv) (snd (split_flag tok sep)) rest
              in parse_flags_loop am sep bv (snd vr)
                   (record_flag name c (snd (flag_key am sep (fst (split_flag tok sep)))) (fst vr) result) pos expect)))"
  by pat_completeness auto
termination
  by (relation "measure (\<lambda>(am, sep, bv, args, _). length args)") (auto simp: le_imp_less_Suc take_value_length)

definition parse_flags :: "string list \<Rightarrow> arg_map \<Rightarrow> char \<Rightarrow> bool \<Rightarrow> pyval dict \<times> string option" where
  "parse_flags args am sep bool_values = parse_flags_loop am sep bool_values args [] None True"

subsection \<open>Shell wrappers and command segments\<close>

definition shells :: "string list" where
  "shells = [''sh'', ''bash'', ''zsh'', ''dash'', ''ash'']"

fun shell_scan :: "string list \<Rightarrow> string option" where
  "shell_scan (tok # t # ts) =
     (if tok = ''-o'' \<or> tok = ''+o'' then shell_scan ts
      else if \<not> prefix ''-'' tok \<and> \<not> prefix ''+'' tok then None
      else if \<not> prefix ''--'' tok \<and> CHR ''c'' \<in> set (drop 1 tok) then Some (join_str '' '' (t # ts))
      else shell_scan (t # ts))"
| "shell_scan _ = None"

definition shell_script :: "string list \<Rightarrow> string option" where
  "shell_script command =
     (if length command < 3 \<or> basename (hd command) \<notin> set shells then None else shell_scan (tl command))"

definition is_separator :: "string \<Rightarrow> bool" where
  "is_separator tok \<longleftrightarrow> tok \<noteq> [] \<and> list_all is_sep tok"

fun strip_comments_loop :: "bool \<Rightarrow> string list \<Rightarrow> string list" where
  "strip_comments_loop in_comment [] = []"
| "strip_comments_loop in_comment (tok # toks) =
     (if CHR 0x0A \<in> set tok \<and> list_all is_sep tok then tok # strip_comments_loop False toks
      else if in_comment \<or> prefix ''#'' tok then strip_comments_loop True toks
      else tok # strip_comments_loop in_comment toks)"

definition strip_comments :: "string list \<Rightarrow> string list" where
  "strip_comments toks = strip_comments_loop False toks"

definition flatten_container_command :: "container \<Rightarrow> string list" where
  "flatten_container_command c =
     (let command = c_command c @ c_args c
      in case shell_script command of
           None \<Rightarrow> command
         | Some script \<Rightarrow>
             (case shlex_tokens (replace_all [backslash, CHR 0x0A] '' '' script) of
                Some toks \<Rightarrow> strip_comments toks
              | None \<Rightarrow> command))"

fun split_segments_loop :: "string list \<Rightarrow> string list \<Rightarrow> string list list" where
  "split_segments_loop current [] = (if current = [] then [] else [current])"
| "split_segments_loop current (tok # toks) =
     (if is_separator tok then
        (if current = [] then split_segments_loop [] toks else current # split_segments_loop [] toks)
      else split_segments_loop (current @ [tok]) toks)"

definition split_segments :: "string list \<Rightarrow> string list list" where
  "split_segments toks = split_segments_loop [] toks"

definition command_prefixes :: "string list" where
  "command_prefixes = [''exec'', ''nohup'', ''env'', ''time'', ''sudo'', ''command'']"

definition package_managers :: "string list" where
  "package_managers = [''pip'', ''pip3'', ''conda'', ''mamba'', ''micromamba'', ''apt'', ''apt-get'', ''apk'',
     ''yum'', ''dnf'', ''poetry'']"

text \<open>The segment from its command word on: \<^verbatim>\<open>segment[_command_start(segment):]\<close>.\<close>

definition from_command_word :: "string list \<Rightarrow> string list" where
  "from_command_word seg = dropWhile (\<lambda>t. re_match assignment_re t \<noteq> None \<or> t \<in> set command_prefixes) seg"

definition is_package_install :: "string list \<Rightarrow> bool" where
  "is_package_install seg =
     (case from_command_word seg of
        [] \<Rightarrow> False
      | w # rest \<Rightarrow>
          (let word = basename w
           in if word \<in> set package_managers then True
              else if word = ''uv'' then rest \<noteq> [] \<and> hd rest \<in> {''pip'', ''add'', ''sync''}
              else prefix ''python'' word \<and> take 2 rest = [''-m'', ''pip'']))"

definition invocation_segments :: "string list \<Rightarrow> string list list" where
  "invocation_segments toks = filter (\<lambda>seg. \<not> is_package_install seg) (split_segments toks)"

subsection \<open>Finding an invocation\<close>

text \<open>The loop \<^verbatim>\<open>for i, tok in enumerate(seg)\<close> of the finders: a test sees the token before, the token
  and the tokens after it, and returns the arguments of the invocation if it is one.\<close>

fun scan_segment ::
  "(string option \<Rightarrow> string \<Rightarrow> string list \<Rightarrow> string list option) \<Rightarrow> string option \<Rightarrow> string list \<Rightarrow> string list option" where
  "scan_segment test prev [] = None"
| "scan_segment test prev (tok # rest) =
     (case test prev tok rest of Some a \<Rightarrow> Some a | None \<Rightarrow> scan_segment test (Some tok) rest)"

definition find_args ::
  "(string option \<Rightarrow> string \<Rightarrow> string list \<Rightarrow> string list option) \<Rightarrow> string list \<Rightarrow> string list option" where
  "find_args test toks = first_some (scan_segment test None) (invocation_segments toks)"

text \<open>\<^verbatim>\<open>--num-processes=4\<close> as \<^verbatim>\<open>--num_processes=4\<close>.\<close>

definition underscore_flag :: "string \<Rightarrow> string" where
  "underscore_flag tok =
     (case split_flag tok CHR ''_'' of (key, None) \<Rightarrow> key | (key, Some v) \<Rightarrow> key @ ''='' @ v)"

subsection \<open>Segments\<close>

lemma concat_split_segments_loop:
  "concat (split_segments_loop cur toks) = cur @ filter (\<lambda>t. \<not> is_separator t) toks"
  by (induction cur toks rule: split_segments_loop.induct) auto

lemma split_segments_loop_mem:
  assumes "seg \<in> set (split_segments_loop cur toks)" and "list_all (\<lambda>t. \<not> is_separator t) cur"
  shows "seg \<noteq> [] \<and> list_all (\<lambda>t. \<not> is_separator t) seg"
  using assms by (induction cur toks rule: split_segments_loop.induct) (auto split: if_splits)

lemma split_segments_loop_append:
  "is_separator sep \<Longrightarrow>
     split_segments_loop cur (a @ sep # b) = split_segments_loop cur a @ split_segments_loop [] b"
  by (induction cur a rule: split_segments_loop.induct) auto

lemma split_segments_append:
  "is_separator sep \<Longrightarrow> split_segments (a @ sep # b) = split_segments a @ split_segments b"
  by (simp add: split_segments_def split_segments_loop_append)

lemma split_segments_loop_plain:
  "list_all (\<lambda>t. \<not> is_separator t) a \<Longrightarrow> split_segments_loop cur a = (if cur @ a = [] then [] else [cur @ a])"
  by (induction a arbitrary: cur) auto

lemma split_segments_plain:
  "list_all (\<lambda>t. \<not> is_separator t) a \<Longrightarrow> a \<noteq> [] \<Longrightarrow> split_segments a = [a]"
  by (simp add: split_segments_def split_segments_loop_plain)

lemma invocation_segmentsD:
  "seg \<in> set (invocation_segments toks) \<Longrightarrow>
     seg \<noteq> [] \<and> list_all (\<lambda>t. \<not> is_separator t) seg \<and> \<not> is_package_install seg"
  using split_segments_loop_mem [of seg "[]" toks] by (auto simp: invocation_segments_def split_segments_def)

text \<open>cutting a token list into commands loses nothing and invents nothing: the segments are
  non-empty, hold no separator, and put together are the tokens other than separators, in order.\<close>

theorem split_segments_partition:
  "concat (split_segments toks) = filter (\<lambda>t. \<not> is_separator t) toks
    \<and> [] \<notin> set (split_segments toks)
    \<and> list_all (list_all (\<lambda>t. \<not> is_separator t)) (split_segments toks)"
  using concat_split_segments_loop [of "[]" toks] split_segments_loop_mem [of _ "[]" toks]
  by (auto simp: split_segments_def list_all_iff)

text \<open>A script of several commands joined by \<^verbatim>\<open>&&\<close>, as a token list.\<close>

fun and_join :: "string list list \<Rightarrow> string list" where
  "and_join [] = []"
| "and_join [seg] = seg"
| "and_join (seg # seg' # segs) = seg @ ''&&'' # and_join (seg' # segs)"

text \<open>A word of a command that reading back leaves alone.\<close>

definition script_word :: "string \<Rightarrow> bool" where
  "script_word w \<longleftrightarrow> plain_word w \<and> \<not> prefix ''#'' w"

definition script_segment :: "string list \<Rightarrow> bool" where
  "script_segment seg \<longleftrightarrow> seg \<noteq> [] \<and> list_all script_word seg"

lemma plain_word_not_separator: "plain_word w \<Longrightarrow> \<not> is_separator w"
  by (cases w) (auto simp: plain_word_def is_separator_def is_plain_def)

lemma is_separator_and [simp]: "is_separator ''&&''"
  by (simp add: is_separator_def is_sep_def)

lemma split_segments_and_join:
  "list_all script_segment segs \<Longrightarrow> split_segments (and_join segs) = segs"
proof (induction segs rule: and_join.induct)
  case (2 seg)
  then show ?case
    by (auto simp: script_segment_def script_word_def list_all_iff plain_word_not_separator intro!: split_segments_plain)
next
  case (3 seg seg' segs)
  then have "split_segments seg = [seg]"
    by (auto simp: script_segment_def script_word_def list_all_iff plain_word_not_separator intro!: split_segments_plain)
  with 3 show ?case by (simp add: split_segments_append)
qed (simp add: split_segments_def)

abbreviation kept_word :: "string \<Rightarrow> bool" where
  "kept_word w \<equiv> lex_piece w \<and> \<not> prefix ''#'' w \<and> backslash \<notin> set w"

lemma script_segment_kept: "script_segment seg \<Longrightarrow> list_all kept_word seg"
  by (auto simp: script_segment_def script_word_def lex_piece_def plain_word_def list_all_iff is_plain_def)

lemma and_kept: "kept_word ''&&''"
  by (simp add: lex_piece_def is_sep_def backslash_def)

lemma and_join_pieces: "list_all script_segment segs \<Longrightarrow> list_all kept_word (and_join segs)"
proof (induction segs rule: and_join.induct)
  case (3 seg seg' segs)
  then have "list_all kept_word seg" "list_all kept_word (and_join (seg' # segs))"
    by (simp_all add: script_segment_kept)
  then show ?case using and_kept by simp
qed (simp_all add: script_segment_kept)

lemma strip_comments_id: "list_all (\<lambda>w. \<not> prefix ''#'' w) toks \<Longrightarrow> strip_comments toks = toks"
  unfolding strip_comments_def by (induction toks) auto

lemma replace_all_absent: "old \<noteq> [] \<Longrightarrow> hd old \<notin> set s \<Longrightarrow> replace_all old new s = s"
proof (induction s)
  case (Cons c s)
  then have "\<not> prefix old (c # s)" by (cases old) auto
  with Cons show ?case by simp
qed simp

text \<open>C16: a container that runs \<^verbatim>\<open>sh -c\<close> with a script of commands joined by \<^verbatim>\<open>&&\<close> is seen as exactly
  those commands.\<close>

theorem flatten_shell_script:
  assumes "basename sh \<in> set shells" and "list_all script_segment segs" and "segs \<noteq> []"
    and "c_command c @ c_args c = [sh, ''-c'', join_str '' '' (and_join segs)]"
  shows "split_segments (flatten_container_command c) = segs"
proof -
  let ?t = "and_join segs"
  have p: "list_all lex_piece ?t" "list_all (\<lambda>w. \<not> prefix ''#'' w) ?t"
    using and_join_pieces [OF assms(2)] by (auto simp: list_all_iff)
  have "\<forall>w \<in> set ?t. backslash \<notin> set w" using and_join_pieces [OF assms(2)] by (simp add: list_all_iff)
  moreover have "backslash \<notin> set '' ''" by (simp add: backslash_def)
  ultimately have "backslash \<notin> set (join_str '' '' ?t)" using join_str_set [of "'' ''" ?t] by blast
  then have "replace_all [backslash, CHR 0x0A] '' '' (join_str '' '' ?t) = join_str '' '' ?t"
    by (intro replace_all_absent) auto
  then have "flatten_container_command c = strip_comments ?t"
    using assms(1,4) shlex_join [OF p(1)] by (simp add: flatten_container_command_def shell_script_def)
  then show ?thesis using strip_comments_id [OF p(2)] split_segments_and_join [OF assms(2)] by simp
qed

theorem flatten_shell_script_witness:
  "split_segments (flatten_container_command
      \<lparr>c_pod_name = ''p'', c_name = ''c'', c_image = ''i'', c_image_id = ''i'', c_command = [''/bin/bash''],
       c_args = [''-c'', ''pip install vllm && vllm serve m''], c_terminated_reason = None, c_exit_code = None,
       c_finished_at = None, c_memory_limit = None, c_cpu_limit = None, c_gpu_limit = None,
       c_restart_count = None, c_last_terminated_reason = None, c_last_exit_code = None,
       c_job_result = None, c_serving_role = None\<rparr>)
    = [[''pip'', ''install'', ''vllm''], [''vllm'', ''serve'', ''m'']]"
  by (rule flatten_shell_script [where sh = "''/bin/bash''"]) (code_simp, code_simp, simp, code_simp)

subsection \<open>The finders\<close>

text \<open>A test of a finder returns tokens that follow the token it looks at.\<close>

locale arg_finder =
  fixes test :: "string option \<Rightarrow> string \<Rightarrow> string list \<Rightarrow> string list option"
  assumes test_suffix: "test prev tok rest = Some a \<Longrightarrow> suffix a rest"
begin

lemma scan_suffix: "scan_segment test prev seg = Some a \<Longrightarrow> strict_suffix a seg"
proof (induction seg arbitrary: prev)
  case (Cons tok rest)
  show ?case
  proof (cases "test prev tok rest")
    case None
    with Cons have "suffix a rest" by (auto simp: strict_suffix_def)
    then show ?thesis by (auto simp: strict_suffix_def suffix_Cons dest: suffix_length_le)
  next
    case (Some b)
    with Cons.prems test_suffix have "suffix a rest" by auto
    then show ?thesis by (auto simp: strict_suffix_def suffix_Cons dest: suffix_length_le)
  qed
qed simp

lemma find_args_suffix:
  assumes "find_args test toks = Some a"
  obtains seg where "seg \<in> set (split_segments toks)" and "\<not> is_package_install seg" and "strict_suffix a seg"
proof -
  from assms obtain seg where "seg \<in> set (invocation_segments toks)" "scan_segment test None seg = Some a"
    by (auto simp: find_args_def dest: first_some_SomeD)
  with scan_suffix that show thesis by (auto simp: invocation_segments_def)
qed

text \<open>A package install in front of a command line is not seen.\<close>

lemma find_args_skips_install:
  assumes "is_separator sep" and "list_all (\<lambda>t. \<not> is_separator t) inst" and "is_package_install inst"
  shows "find_args test (inst @ sep # toks) = find_args test toks"
proof -
  have "inst \<noteq> []" using assms(3) by (auto simp: is_package_install_def from_command_word_def)
  then have "split_segments (inst @ sep # toks) = inst # split_segments toks"
    using assms by (simp add: split_segments_append split_segments_plain)
  with assms(3) show ?thesis by (simp add: find_args_def invocation_segments_def)
qed

end

subsection \<open>Properties of _parse_flags\<close>

text \<open>The values that a conversion can give.\<close>

definition value_ok :: "conv \<Rightarrow> pyval \<Rightarrow> bool" where
  "value_ok c x =
     (case c of
        CStr \<Rightarrow> (case x of VStr s \<Rightarrow> s \<noteq> [] \<and> \<not> has_unexpanded_var s | _ \<Rightarrow> False)
      | CInt \<Rightarrow> (case x of VInt _ \<Rightarrow> True | _ \<Rightarrow> False)
      | CHumanInt \<Rightarrow> (case x of VInt _ \<Rightarrow> True | _ \<Rightarrow> False)
      | CBool \<Rightarrow> (case x of VBool _ \<Rightarrow> True | _ \<Rightarrow> False)
      | CFiniteFloat \<Rightarrow> (case x of VFloat f \<Rightarrow> f_isfinite f | _ \<Rightarrow> False)
      | CIntOrFloat \<Rightarrow> (case x of VInt _ \<Rightarrow> True | VFloat f \<Rightarrow> f_isfinite f | _ \<Rightarrow> False)
      | CJsonKv \<Rightarrow> True)"

lemma value_ok_bool [simp]: "value_ok CBool (VBool b)"
  by (simp add: value_ok_def)

lemma convert_ok:
  assumes "convert c v = Some x" and "v \<noteq> []" and "\<not> has_unexpanded_var v" and "c \<noteq> CBool"
  shows "value_ok c x"
  using assms by (cases c) (auto simp: convert_def value_ok_def int_or_float_def f_isfinite_def)

definition flags_inv :: "arg_map \<Rightarrow> pyval dict \<Rightarrow> bool" where
  "flags_inv am d \<longleftrightarrow> dict_ok d \<and>
     (\<forall>name x. dget d name = Some x \<longrightarrow> (\<exists>key c. map_of am key = Some (name, c) \<and> value_ok c x))"

lemma flags_inv_dset:
  "flags_inv am d \<Longrightarrow> map_of am key = Some (name, c) \<Longrightarrow> value_ok c x \<Longrightarrow> flags_inv am (dset name x d)"
  by (auto simp: flags_inv_def)

lemma record_flag_inv:
  assumes "flags_inv am d" and "map_of am key = Some (name, c)"
  shows "flags_inv am (record_flag name c neg val d)"
proof (cases "c = CBool")
  case True
  then show ?thesis using flags_inv_dset [OF assms] by (simp add: record_flag_def)
next
  case False
  then show ?thesis using assms flags_inv_dset [OF assms] convert_ok
    by (simp add: record_flag_def split: option.splits)
qed

lemma parse_flags_loop_inv:
  "flags_inv am result \<Longrightarrow> flags_inv am (fst (parse_flags_loop am sep bv args result pos expect))"
proof (induction "length args" arbitrary: args result pos expect rule: less_induct)
  case less
  show ?case
  proof (cases args)
    case (Cons tok rest)
    note len = take_value_length [of _ "snd (split_flag tok sep)" rest]
    from Cons less show ?thesis
      by (auto simp: Let_def le_imp_less_Suc len record_flag_inv split: option.splits)
  qed (use less.prems in simp)
qed

text \<open>C29: whatever the command line, \<^verbatim>\<open>_parse_flags\<close> records values only under the names of its flag map
  and of the type of the flag: an integer flag gives an integer, a float flag a finite number (never
  \<^verbatim>\<open>nan\<close> or \<^verbatim>\<open>inf\<close>), a string flag a non-empty text without an unexpanded variable.\<close>

theorem parse_flags_typed:
  "dget (fst (parse_flags args am sep bv)) name = Some x \<Longrightarrow>
     \<exists>key c. map_of am key = Some (name, c) \<and> value_ok c x"
  using parse_flags_loop_inv [of am "[]" sep bv args None True]
  by (auto simp: parse_flags_def flags_inv_def)

theorem parse_flags_typed_witness:
  "\<exists>key c. map_of [(''--seed'', ''seed'', CInt)] key = Some (''seed'', c) \<and> value_ok c (VInt 7)"
proof (rule parse_flags_typed)
  show "dget (fst (parse_flags [''--seed'', ''$S'', ''x'', ''--seed=7''] [(''--seed'', ''seed'', CInt)] CHR ''-'' False)) ''seed''
      = Some (VInt 7)"
    by code_simp
qed

text \<open>A flag token at the end is never the value of the flag before it.\<close>

lemma flag_not_bool_word: "is_flag_token t \<Longrightarrow> py_lower t \<notin> set bool_words"
proof -
  assume "is_flag_token t"
  then obtain u where "t = CHR ''-'' # u" by (auto simp: is_flag_token_def prefix_def)
  moreover have "lower_char CHR ''-'' = CHR ''-''" by (simp add: lower_char_def ch_code_def)
  ultimately show ?thesis by (simp add: py_lower_def bool_words_def)
qed

lemma flag_not_value: "is_flag_token t \<Longrightarrow> \<not> value_token c bv t"
  by (simp add: value_token_def flag_not_bool_word)

lemma take_value_append:
  "is_flag_token t \<Longrightarrow>
     take_value (value_token c bv) v (rest @ [t]) =
       (fst (take_value (value_token c bv) v rest), snd (take_value (value_token c bv) v rest) @ [t])"
  by (cases rest) (auto simp: take_value_def flag_not_value)

lemma parse_flags_loop_irrelevant:
  "fst (parse_flags_loop am sep bv [t] result pos expect) = fst (parse_flags_loop am sep bv [t] result pos' expect')"
  by (auto simp: Let_def take_value_def split: option.splits)

lemma parse_flags_loop_snoc:
  assumes "is_flag_token t"
  shows "fst (parse_flags_loop am sep bv (args @ [t]) result pos expect) =
    fst (parse_flags_loop am sep bv [t] (fst (parse_flags_loop am sep bv args result pos expect)) None True)"
proof (induction "length args" arbitrary: args result pos expect rule: less_induct)
  case less
  show ?case
  proof (cases args)
    case Nil
    then show ?thesis using parse_flags_loop_irrelevant by simp
  next
    case (Cons tok rest)
    note len = take_value_length [of _ "snd (split_flag tok sep)" rest]
    show ?thesis
      unfolding Cons append_Cons parse_flags_loop.simps(2) [of am sep bv tok "rest @ [t]"]
        parse_flags_loop.simps(2) [of am sep bv tok rest]
      using less(1) Cons len
      by (auto simp: Let_def le_imp_less_Suc take_value_append [OF assms] simp del: parse_flags_loop.simps(2)
          split: option.splits)
  qed
qed

text \<open>the last occurrence of a flag wins: a well-formed \<^verbatim>\<open>--key=value\<close> at the end of the arguments
  sets its name, whatever precedes it.\<close>

theorem parse_flags_last_wins:
  assumes "is_flag_token tok" and "split_flag tok sep = (key0, Some v)" and "flag_key am sep key0 = (key, negated)"
    and "map_of am key = Some (name, c)" and "c \<noteq> CBool" and "v \<noteq> []" and "\<not> has_unexpanded_var v"
    and "convert c v = Some x"
  shows "dget (fst (parse_flags (args @ [tok]) am sep bv)) name = Some x"
proof -
  have "fst (parse_flags_loop am sep bv [tok] r None True) = dset name x r" for r
    using assms by (simp add: record_flag_def take_value_def)
  then show ?thesis unfolding parse_flags_def parse_flags_loop_snoc [OF assms(1)] by simp
qed

theorem parse_flags_last_wins_witness:
  "dget (fst (parse_flags ([''--tp'', ''2''] @ [''--tp=8'']) [(''--tp'', ''tensor_parallel_size'', CInt)] CHR ''-'' False))
     ''tensor_parallel_size'' = Some (VInt 8)"
  by (rule parse_flags_last_wins [where v = "''8''" and c = CInt]) (code_simp+)

text \<open>Spellings of a flag.\<close>

lemma partition_c_cases:
  obtains "partition_c c s = (s, False, [])" "c \<notin> set s"
  | a b where "partition_c c s = (a, True, b)" "s = a @ c # b" "c \<notin> set a"
proof (cases "c \<in> set s")
  case True
  then obtain a b where "s = a @ c # b" "c \<notin> set a" by (meson split_list_first)
  then show thesis using that(2) partition_c_append by metis
next
  case False
  then show thesis using that(1) partition_c_absent by metis
qed

lemma double_dash_is_flag: "is_flag_token (CHR ''-'' # CHR ''-'' # x)"
  by (simp add: is_flag_token_def re_match_def number_re_def one_of_def py_isdigit_ascii_def ch_code_def)

lemma underscore_flag_long:
  assumes "partition_c CHR ''='' tok = (key, eq, val)" and "prefix ''--'' key"
  shows "underscore_flag tok = ''--'' @ replace_c CHR ''-'' CHR ''_'' (drop 2 key) @ (if eq then CHR ''='' # val else [])"
proof -
  have "replace_c CHR ''_'' CHR ''_'' x = x" for x by (simp add: replace_c_def)
  then show ?thesis using assms by (simp add: underscore_flag_def split_flag_def)
qed

lemma underscore_flag_short:
  assumes "partition_c CHR ''='' tok = (key, eq, val)" and "\<not> prefix ''--'' key"
  shows "underscore_flag tok = tok"
  using assms by (cases tok rule: partition_c_cases [of "CHR ''=''"]) (auto simp: underscore_flag_def split_flag_def)

lemma partition_c_prefix: "partition_c c tok = (key, eq, val) \<Longrightarrow> prefix p key \<Longrightarrow> prefix p tok"
  by (cases tok rule: partition_c_cases [of c]) (auto simp: prefix_def)

lemma underscore_flag_is_flag: "is_flag_token (underscore_flag tok) = is_flag_token tok"
proof (cases "partition_c CHR ''='' tok")
  case (fields key eq val)
  show ?thesis
  proof (cases "prefix ''--'' key")
    case True
    then have "is_flag_token tok"
      using partition_c_prefix [OF fields, of "''--''"] double_dash_is_flag by (auto simp: prefix_def)
    then show ?thesis using underscore_flag_long [OF fields True] double_dash_is_flag by simp
  qed (simp add: underscore_flag_short [OF fields])
qed

lemma underscore_flag_value: "\<not> is_flag_token tok \<Longrightarrow> underscore_flag tok = tok"
  using double_dash_is_flag partition_c_prefix [of "CHR ''=''" tok _ _ _ "''--''"] underscore_flag_short [of tok]
  by (cases "partition_c CHR ''='' tok") (force simp: prefix_def)

lemma split_flag_underscore: "split_flag (underscore_flag tok) sep = split_flag tok sep"
proof (cases "partition_c CHR ''='' tok")
  case (fields key eq val)
  show ?thesis
  proof (cases "prefix ''--'' key")
    case True
    let ?k = "''--'' @ replace_c CHR ''-'' CHR ''_'' (drop 2 key)"
    have "CHR ''='' \<notin> set key"
      using fields not_in_takeWhile_neq [of "CHR ''=''" tok] by (auto simp: partition_c_def)
    then have n: "CHR ''='' \<notin> set ?k" by (auto simp: replace_c_def dest: in_set_dropD)
    have v: "\<not> eq \<Longrightarrow> val = []" using fields by (auto simp: partition_c_def dropWhile_nil)
    have "partition_c CHR ''='' (underscore_flag tok) = (?k, eq, val)"
      using partition_c_append [OF n, of val] partition_c_absent [OF n] v
      by (cases eq) (simp_all add: underscore_flag_long [OF fields True])
    moreover have "replace_c CHR ''-'' CHR ''_'' (replace_c CHR ''-'' CHR ''_'' x) = replace_c CHR ''-'' CHR ''_'' x" for x
      by (simp add: replace_c_def)
    ultimately show ?thesis using fields True by (simp add: split_flag_def)
  qed (simp add: underscore_flag_short [OF fields])
qed

lemma take_value_underscore:
  "take_value (value_token c bv) v (map underscore_flag rest) =
     (fst (take_value (value_token c bv) v rest), map underscore_flag (snd (take_value (value_token c bv) v rest)))"
proof (cases rest)
  case (Cons t ts)
  then show ?thesis
    by (cases "is_flag_token t")
      (auto simp: take_value_def flag_not_value underscore_flag_is_flag underscore_flag_value)
qed (simp add: take_value_def)


end
