(* ===== verification/Telemetry.thy ===== *)
theory Telemetry
  imports Command PyFloat "HOL-Library.List_Lexorder" "HOL-Library.Char_ord"
begin

text \<open>
  Telemetry statistics of \<^verbatim>\<open>postprocess/postprocess.py\<close>: reading a Prometheus range response, the
  statistics of one metric, the retry loop, the window of a pod, and the aggregation over pods. The
  monitoring backend is a function from the attempt and the query to a response, so it may answer
  differently on a retry; clock and time-stamp parsing are parameters. Numbers are the floats of
  \<open>PyFloat\<close>; the order-preservation of every rounding and scaling step is a locale, interpreted on
  each of them, from which the ordering of the reported statistics follows.
\<close>

subsection \<open>Responses\<close>

text \<open>A range response: the status and, for each series, its labels and samples (time, value text).\<close>

record prom_response =
  pr_status :: string
  pr_series :: "(string dict \<times> (rat \<times> string) list) list"

text \<open>A sample as \<^verbatim>\<open>parse_range_response\<close> keeps it: the ISO form of its local time and its value, which
  is never NaN.\<close>

record data_point =
  dp_time :: string
  dp_value :: xfloat

fun parse_values :: "(rat \<Rightarrow> string) \<Rightarrow> (rat \<times> string) list \<Rightarrow> data_point list option" where
  "parse_values to_iso [] = Some []"
| "parse_values to_iso ((ts, v) # rest) =
     (case py_float v of
        None \<Rightarrow> None
      | Some NaN \<Rightarrow> parse_values to_iso rest
      | Some (Num x) \<Rightarrow> map_option (Cons \<lparr>dp_time = to_iso ts, dp_value = x\<rparr>) (parse_values to_iso rest))"

text \<open>\<^const>\<open>None\<close> is the \<^verbatim>\<open>ValueError\<close> of a value that is not a number.\<close>

definition parse_range_response :: "(rat \<Rightarrow> string) \<Rightarrow> prom_response option \<Rightarrow> data_point list option" where
  "parse_range_response to_iso resp =
     (case resp of
        None \<Rightarrow> Some []
      | Some r \<Rightarrow> (if pr_status r \<noteq> ''success'' then Some [] else parse_values to_iso (concat (map snd (pr_series r)))))"

subsection \<open>Statistics of one metric\<close>

definition chunk_avg :: "pyfloat list \<Rightarrow> pyfloat option" where
  "chunk_avg vs = (if vs = [] then None else Some (f_div_n (f_sum vs) (length vs)))"

text \<open>\<^verbatim>\<open>_round_stat\<close> on a number and on any float.\<close>

fun round_stat_x :: "xfloat \<Rightarrow> xfloat" where
  "round_stat_x (Fin q) = (if q = 0 \<or> 1 \<le> \<bar>q\<bar> then round2_q q else sig_q 3 q)"
| "round_stat_x x = x"

fun round_stat :: "pyfloat \<Rightarrow> pyfloat" where
  "round_stat NaN = NaN"
| "round_stat (Num x) = Num (round_stat_x x)"

text \<open>\<^verbatim>\<open>min\<close>, \<^verbatim>\<open>max\<close> of a non-empty list.\<close>

definition list_min :: "'a::linorder list \<Rightarrow> 'a" where
  "list_min xs = foldl min (hd xs) (tl xs)"

definition list_max :: "'a::linorder list \<Rightarrow> 'a" where
  "list_max xs = foldl max (hd xs) (tl xs)"

text \<open>The float literal \<^verbatim>\<open>0.95\<close>, and the index \<^verbatim>\<open>min(n - 1, math.ceil(0.95 * n) - 1)\<close>. The product of a
  list length with it is finite.\<close>

definition c95 :: rat where
  "c95 = 4278419646001971 / 4503599627370496"

definition p95_index :: "nat \<Rightarrow> int" where
  "p95_index n = (case rnd64 (c95 * of_nat n) of Fin q \<Rightarrow> min (int n - 1) (\<lceil>q\<rceil> - 1) | _ \<Rightarrow> int n - 1)"

record metric_stats =
  ms_min :: xfloat
  ms_max :: xfloat
  ms_avg :: pyfloat
  ms_p95 :: xfloat
  ms_first :: "pyfloat option"
  ms_middle :: "pyfloat option"
  ms_last :: "pyfloat option"

definition sample_values :: "data_point list \<Rightarrow> xfloat list" where
  "sample_values pts = map dp_value (sort_key dp_time pts)"

definition first_third :: "'a list \<Rightarrow> 'a list" where
  "first_third vs = take (length vs div 3) vs"

definition middle_third :: "'a list \<Rightarrow> 'a list" where
  "middle_third vs = take (length vs div 3) (drop (length vs div 3) vs)"

definition last_third :: "'a list \<Rightarrow> 'a list" where
  "last_third vs = drop (2 * (length vs div 3)) vs"

definition compute_metric_stats :: "data_point list \<Rightarrow> metric_stats option" where
  "compute_metric_stats pts =
     (if pts = [] then None
      else (let vals = sample_values pts; n = length vals
            in Some \<lparr>ms_min = list_min vals,
                     ms_max = list_max vals,
                     ms_avg = f_div_n (f_sum (map Num vals)) n,
                     ms_p95 = sort vals ! nat (p95_index n),
                     ms_first = chunk_avg (map Num (first_third vals)),
                     ms_middle = chunk_avg (map Num (middle_third vals)),
                     ms_last = chunk_avg (map Num (last_third vals))\<rparr>))"

subsection \<open>Retries\<close>

text \<open>A metric to query: its name, its query and its unit. What is collected for it: the number of data
  points, the unit and the statistics.\<close>

type_synonym metric_def = "string \<times> string \<times> string"

record metric_result =
  mr_count :: nat
  mr_unit :: string
  mr_stats :: metric_stats

definition metric_of :: "string \<Rightarrow> data_point list \<Rightarrow> metric_result option" where
  "metric_of unit pts =
     map_option (\<lambda>st. \<lparr>mr_count = length pts, mr_unit = unit, mr_stats = st\<rparr>) (compute_metric_stats pts)"

text \<open>One attempt; a query that raises ends the collection (\<^const>\<open>None\<close>).\<close>

fun query_pending ::
  "(string \<Rightarrow> data_point list option) \<Rightarrow> metric_def list \<Rightarrow> metric_result dict \<Rightarrow> metric_result dict option" where
  "query_pending fetch [] coll = Some coll"
| "query_pending fetch ((name, promql, unit) # rest) coll =
     (case fetch promql of
        None \<Rightarrow> None
      | Some pts \<Rightarrow>
          query_pending fetch rest (case metric_of unit pts of Some r \<Rightarrow> dset name r coll | None \<Rightarrow> coll))"

fun retry_loop ::
  "(nat \<Rightarrow> string \<Rightarrow> data_point list option) \<Rightarrow> nat list \<Rightarrow> metric_def list \<Rightarrow> metric_result dict
     \<Rightarrow> metric_result dict option" where
  "retry_loop fetch [] metrics coll = Some coll"
| "retry_loop fetch (attempt # later) metrics coll =
     (let pending = filter (\<lambda>(name, _, _). dget coll name = None) metrics
      in if pending = [] then Some coll
         else (case query_pending (fetch attempt) pending coll of
                 None \<Rightarrow> None
               | Some coll' \<Rightarrow> retry_loop fetch later metrics coll'))"

definition collect_metrics_with_retry ::
  "(nat \<Rightarrow> string \<Rightarrow> data_point list option) \<Rightarrow> nat \<Rightarrow> metric_def list \<Rightarrow> metric_result dict option" where
  "collect_metrics_with_retry fetch attempts metrics = retry_loop fetch [1..<Suc attempts] metrics []"

subsection \<open>The window of a pod\<close>

text \<open>\<open>parse_ms\<close> is \<^verbatim>\<open>int(_parse_start_utc(s).timestamp() * 1000)\<close>, with \<^const>\<open>None\<close> for a text that is not
  a time. Since it is monotone in the time, the milliseconds of the latest time are the greatest
  milliseconds.\<close>

definition pod_finished_ms :: "(string \<Rightarrow> int option) \<Rightarrow> string option \<Rightarrow> container list \<Rightarrow> int option" where
  "pod_finished_ms parse_ms pod cs =
     (let times = map (\<lambda>c. Option.bind (c_finished_at c) parse_ms) (filter (\<lambda>c. Some (c_pod_name c) = pod) cs)
      in if times = [] \<or> None \<in> set times then None else Some (list_max (map the times)))"

record pod_window =
  w_start :: int
  w_end :: int
  w_stats_start :: int
  w_cold_start :: bool

definition pod_stats_window ::
  "(string \<Rightarrow> int option) \<Rightarrow> int \<Rightarrow> int \<Rightarrow> string option \<Rightarrow> string option \<Rightarrow> container list \<Rightarrow> pod_window option" where
  "pod_stats_window parse_ms now_ms scrape_ms pod start_time cs =
     (case Option.bind start_time parse_ms of
        None \<Rightarrow> None
      | Some start_ms \<Rightarrow>
          (let end0 = (case pod_finished_ms parse_ms pod cs of None \<Rightarrow> now_ms | Some f \<Rightarrow> min f now_ms);
               end_ms = max end0 start_ms;
               exclude_ms = min scrape_ms ((end_ms - start_ms) div 2)
           in Some \<lparr>w_start = start_ms, w_end = end_ms, w_stats_start = start_ms + exclude_ms,
                    w_cold_start = (exclude_ms < scrape_ms)\<rparr>))"

subsection \<open>Collection over pods\<close>

definition pod_gpu_count :: "string option \<Rightarrow> container list \<Rightarrow> int option" where
  "pod_gpu_count pod cs =
     (let counts = List.map_filter c_gpu_limit (filter (\<lambda>c. Some (c_pod_name c) = pod) cs)
      in if counts = [] then None else Some (sum_list counts))"

text \<open>The parts of a discovery snapshot that the collection reads.\<close>

record pod_meta =
  pm_uid :: "string option"
  pm_name :: "string option"
  pm_start_time :: "string option"
  pm_gpu_count :: pyval

record pod_telemetry =
  pt_uid :: string
  pt_name :: "string option"
  pt_start_time :: "string option"
  pt_end_ms :: int
  pt_cold_start :: bool
  pt_metrics :: "metric_result dict"

text \<open>The environment of a collection: time-stamp parsing, the clock as each pod reads it, the scrape
  interval, the number of attempts, the switch for pods without GPUs, the substituted queries of a
  pod, and the backend.\<close>

record tele_env =
  te_parse_ms :: "string \<Rightarrow> int option"
  te_now :: "nat \<Rightarrow> int"
  te_scrape_ms :: int
  te_attempts :: nat
  te_all_pods :: bool
  te_fetch :: "int \<Rightarrow> int \<Rightarrow> nat \<Rightarrow> string \<Rightarrow> data_point list option"

definition has_gpu :: "string option \<Rightarrow> pyval \<Rightarrow> container list \<Rightarrow> bool" where
  "has_gpu pod discovered cs =
     (let n = (case pod_gpu_count pod cs of Some k \<Rightarrow> VInt k | None \<Rightarrow> discovered)
      in truthy n \<and> n \<noteq> VStr ''0'')"

text \<open>One pod: the outer \<^const>\<open>None\<close> is an exception, the inner one a pod that is skipped.\<close>

definition collect_pod ::
  "tele_env \<Rightarrow> bool \<Rightarrow> (string option \<Rightarrow> metric_def list) \<Rightarrow> container list \<Rightarrow> nat \<Rightarrow> pod_meta
     \<Rightarrow> pod_telemetry option option" where
  "collect_pod env need_gpu queries cs i pm =
     (case nonempty (pm_uid pm) of
        None \<Rightarrow> Some None
      | Some uid \<Rightarrow>
          (if uid = ''unknown'' then Some None
           else if need_gpu \<and> \<not> has_gpu (pm_name pm) (pm_gpu_count pm) cs \<and> \<not> te_all_pods env then Some None
           else (case pod_stats_window (te_parse_ms env) (te_now env i) (te_scrape_ms env) (pm_name pm) (pm_start_time pm) cs of
                   None \<Rightarrow> Some None
                 | Some w \<Rightarrow>
                     map_option (\<lambda>ms. Some \<lparr>pt_uid = uid, pt_name = pm_name pm, pt_start_time = pm_start_time pm,
                                           pt_end_ms = w_end w, pt_cold_start = w_cold_start w, pt_metrics = ms\<rparr>)
                       (collect_metrics_with_retry (te_fetch env (w_stats_start w) (w_end w)) (te_attempts env)
                          (queries (pm_name pm))))))"

fun collect_pods ::
  "tele_env \<Rightarrow> bool \<Rightarrow> (string option \<Rightarrow> metric_def list) \<Rightarrow> container list \<Rightarrow> nat \<Rightarrow> pod_meta list
     \<Rightarrow> pod_telemetry list option" where
  "collect_pods env need_gpu queries cs i [] = Some []"
| "collect_pods env need_gpu queries cs i (pm # pms) =
     (case collect_pod env need_gpu queries cs i pm of
        None \<Rightarrow> None
      | Some r \<Rightarrow> map_option (\<lambda>ts. case r of Some t \<Rightarrow> t # ts | None \<Rightarrow> ts)
                    (collect_pods env need_gpu queries cs (Suc i) pms))"

definition collect_telemetry ::
  "tele_env \<Rightarrow> (string option \<Rightarrow> metric_def list) \<Rightarrow> container list \<Rightarrow> pod_meta list \<Rightarrow> pod_telemetry list option" where
  "collect_telemetry env queries cs pms = collect_pods env True queries cs 0 pms"

definition collect_vllm_telemetry ::
  "tele_env \<Rightarrow> (string option \<Rightarrow> metric_def list) \<Rightarrow> container list \<Rightarrow> pod_meta list \<Rightarrow> pod_telemetry list option" where
  "collect_vllm_telemetry env queries cs pms = collect_pods env False queries cs 0 pms"

subsection \<open>Aggregation over pods\<close>

text \<open>A reported metric. The scale factors of the unit maps are positive floats or absent (\<^verbatim>\<open>scale or 1\<close>).\<close>

record metric_report =
  rp_unit :: string
  rp_min :: pyfloat
  rp_max :: pyfloat
  rp_avg :: "pyfloat option"
  rp_p95 :: "pyfloat option"
  rp_segments :: "pyfloat option list"

definition scaled :: "rat \<Rightarrow> pyfloat \<Rightarrow> pyfloat" where
  "scaled scale x = round_stat (f_mul x scale)"

definition avg_report :: "rat \<Rightarrow> pyfloat list \<Rightarrow> pyfloat option" where
  "avg_report scale xs = map_option (scaled scale) (chunk_avg xs)"

definition aggregate_metric :: "rat option \<Rightarrow> string \<Rightarrow> metric_stats list \<Rightarrow> metric_report" where
  "aggregate_metric scale0 unit sts =
     (let scale = (case scale0 of Some s \<Rightarrow> s | None \<Rightarrow> 1)
      in \<lparr>rp_unit = unit,
          rp_min = scaled scale (Num (list_min (map ms_min sts))),
          rp_max = scaled scale (Num (list_max (map ms_max sts))),
          rp_avg = avg_report scale (map ms_avg sts),
          rp_p95 = avg_report scale (map (Num \<circ> ms_p95) sts),
          rp_segments = map (\<lambda>seg. avg_report scale (List.map_filter seg sts)) [ms_first, ms_middle, ms_last]\<rparr>)"

definition aggregate_pod_metrics ::
  "metric_result dict list \<Rightarrow> (string \<times> rat option \<times> string) list \<Rightarrow> metric_report dict" where
  "aggregate_pod_metrics pods unit_map =
     List.map_filter (\<lambda>(name, scale, unit).
        let sts = map mr_stats (List.map_filter (\<lambda>ms. dget ms name) pods)
        in if sts = [] then None else Some (name, aggregate_metric scale unit sts)) unit_map"

text \<open>The configured limit of a metric over the pods that reported it: the tightest of the pods' sums.\<close>

definition pod_resource_limit :: "(container \<Rightarrow> int option) \<Rightarrow> container list \<Rightarrow> string option \<Rightarrow> int option" where
  "pod_resource_limit resource cs pod =
     (let limits = List.map_filter resource (filter (\<lambda>c. Some (c_pod_name c) = pod) cs)
      in if limits = [] then None else Some (sum_list limits))"

definition tightest_limit :: "(container \<Rightarrow> int option) \<Rightarrow> container list \<Rightarrow> string option list \<Rightarrow> int option" where
  "tightest_limit resource cs pods =
     (let ls = List.map_filter (pod_resource_limit resource cs) pods in if ls = [] then None else Some (list_min ls))"

definition compute_metric_limit :: "string \<Rightarrow> string option list \<Rightarrow> container list \<Rightarrow> rat \<Rightarrow> pyfloat option" where
  "compute_metric_limit name pods cs scale =
     (if name = ''memory_usage'' then
        map_option (\<lambda>l. round_stat (f_mul (Num (rnd64 (of_int l))) scale)) (tightest_limit c_memory_limit cs pods)
      else if name = ''cpu_usage'' then
        map_option (\<lambda>l. round_stat (f_mul (Num (rnd64 (of_int l / 1000))) scale)) (tightest_limit c_cpu_limit cs pods)
      else None)"

subsection \<open>Order-preserving steps\<close>

locale order_preserving =
  fixes f :: "'a::linorder \<Rightarrow> 'b::linorder"
  assumes mono_f: "x \<le> y \<Longrightarrow> f x \<le> f y"
begin

lemma between: "lo \<le> x \<Longrightarrow> x \<le> hi \<Longrightarrow> f lo \<le> f x \<and> f x \<le> f hi"
  using mono_f by blast

end

locale order_preserving_pair = outer: order_preserving g + inner: order_preserving f
  for g :: "'b::linorder \<Rightarrow> 'c::linorder" and f :: "'a::linorder \<Rightarrow> 'b"

sublocale order_preserving_pair \<subseteq> comp: order_preserving "g \<circ> f"
  by unfold_locales (simp add: outer.mono_f inner.mono_f)

text \<open>Rounding and scaling of finite and infinite numbers.\<close>

fun mul_x :: "rat \<Rightarrow> xfloat \<Rightarrow> xfloat" where
  "mul_x k (Fin a) = rnd64 (a * k)"
| "mul_x k x = x"

lemma f_mul_pos: "0 < k \<Longrightarrow> f_mul (Num x) k = Num (mul_x k x)"
  by (cases x) auto

lemma PInf_greatest [simp]: "x \<le> PInf"
  by (cases x) auto

lemma NInf_least [simp]: "NInf \<le> x"
  by simp

lemma round2_1: "round2_q 1 = Fin 1" and sig3_1: "sig_q 3 1 = Fin 1"
  using rnd64_int [of 1] rhe_of_int [of 100] round_sig_exact [of 10 1 3 None 0 1]
  by (simp_all add: round2_q_def sig_q_def)

lemma round2_m1: "round2_q (- 1) = Fin (- 1)" and sig3_m1: "sig_q 3 (- 1) = Fin (- 1)"
  using rnd64_int [of "- 1"] rhe_of_int [of "- 100"] round_sig_exact [of 10 "- 1" 3 None 0 "- 1"]
  by (simp_all add: round2_q_def sig_q_def)

lemma round2_0: "round2_q 0 = Fin 0" and sig3_0: "sig_q 3 0 = Fin 0"
  using rhe_of_int [of 0] by (simp_all add: round2_q_def sig_q_def round_sig_def)

text \<open>The two branches of \<^verbatim>\<open>_round_stat\<close> meet at -1, 0 and 1, so the whole is monotone.\<close>

lemma round_stat_small: "\<bar>q\<bar> \<le> 1 \<Longrightarrow> round_stat_x (Fin q) = sig_q 3 q"
proof -
  assume "\<bar>q\<bar> \<le> 1"
  then consider "q = 0" | "q = 1" | "q = - 1" | "q \<noteq> 0" "\<bar>q\<bar> < 1" by linarith
  then show ?thesis by cases (auto simp: round2_1 sig3_1 round2_m1 sig3_m1 round2_0 sig3_0)
qed

lemma round_stat_large: "1 \<le> \<bar>q\<bar> \<Longrightarrow> round_stat_x (Fin q) = round2_q q"
  by simp

lemma round_stat_fin_mono: "x \<le> y \<Longrightarrow> round_stat_x (Fin x) \<le> round_stat_x (Fin y)"
proof -
  assume xy: "x \<le> y"
  have L: "round_stat_x (Fin a) \<le> round_stat_x (Fin b)" if "a \<le> b" "b \<le> - 1 \<or> 1 \<le> a" for a b
    using that round2_q_mono [of a b] by (auto simp: round_stat_large)
  have S: "round_stat_x (Fin a) \<le> round_stat_x (Fin b)" if "a \<le> b" "- 1 \<le> a" "b \<le> 1" for a b
  proof -
    have "\<bar>a\<bar> \<le> 1" "\<bar>b\<bar> \<le> 1" using that by (auto simp: abs_le_iff)
    then show ?thesis using that sig_q_mono [of 3 a b] by (simp only: round_stat_small)
  qed
  consider "y \<le> - 1" | "x \<le> - 1" "- 1 \<le> y" "y \<le> 1" | "x \<le> - 1" "1 \<le> y" | "- 1 \<le> x" "y \<le> 1"
    | "- 1 \<le> x" "x \<le> 1" "1 \<le> y" | "1 \<le> x" by linarith
  then show ?thesis
  proof cases
    case 1 then show ?thesis using L xy by blast
  next
    case 2 then show ?thesis using L [of x "- 1"] S [of "- 1" y] by (meson order.trans order_refl)
  next
    case 3
    have "round_stat_x (Fin x) \<le> round_stat_x (Fin (- 1))" by (rule L) (use 3 in auto)
    also have "\<dots> \<le> round_stat_x (Fin 1)" by (rule S) auto
    also have "\<dots> \<le> round_stat_x (Fin y)" by (rule L) (use 3 in auto)
    finally show ?thesis .
  next
    case 4 then show ?thesis using S xy by blast
  next
    case 5 then show ?thesis using S [of x 1] L [of 1 y] by (meson order.trans order_refl)
  next
    case 6 then show ?thesis using L xy by blast
  qed
qed

interpretation round_stat: order_preserving round_stat_x
proof
  fix x y :: xfloat
  assume "x \<le> y"
  then show "round_stat_x x \<le> round_stat_x y"
    using round_stat_fin_mono by (cases x; cases y) (auto simp del: round_stat_x.simps(1) simp: round_stat_x.simps(2-3))
qed

interpretation scale: order_preserving "mul_x \<bar>k\<bar>" for k
proof
  fix x y :: xfloat
  assume "x \<le> y"
  then show "mul_x \<bar>k\<bar> x \<le> mul_x \<bar>k\<bar> y"
    by (cases x; cases y) (auto intro!: rnd64_mono mult_right_mono)
qed

interpretation report: order_preserving_pair round_stat_x "mul_x \<bar>k\<bar>" for k
  by unfold_locales

lemma scaled_pos: "0 < k \<Longrightarrow> scaled k (Num x) = Num ((round_stat_x \<circ> mul_x \<bar>k\<bar>) x)"
  by (simp add: scaled_def f_mul_pos)

lemma scaled_mono: "0 < k \<Longrightarrow> x \<le> y \<Longrightarrow> f_le (scaled k (Num x)) (scaled k (Num y))"
  using report.comp.mono_f [of x y k] by (simp add: scaled_pos)

subsection \<open>Minimum, maximum, percentile\<close>

lemma foldl_min_init: "foldl min z xs \<le> (z::'a::linorder)"
  by (induction xs arbitrary: z) (auto, meson min.cobounded1 order.trans)

lemma foldl_max_init: "(z::'a::linorder) \<le> foldl max z xs"
  by (induction xs arbitrary: z) (auto, meson max.cobounded1 order.trans)

lemma foldl_min_le: "x \<in> set xs \<Longrightarrow> foldl min z xs \<le> (x::'a::linorder)"
proof (induction xs arbitrary: z)
  case (Cons y ys)
  have "foldl min (min z y) ys \<le> y" using foldl_min_init [of "min z y" ys] by simp
  with Cons show ?case by auto
qed simp

lemma foldl_max_ge: "x \<in> set xs \<Longrightarrow> (x::'a::linorder) \<le> foldl max z xs"
proof (induction xs arbitrary: z)
  case (Cons y ys)
  have "y \<le> foldl max (max z y) ys" using foldl_max_init [of "max z y" ys] by simp
  with Cons show ?case by auto
qed simp

lemma list_min_le: "x \<in> set xs \<Longrightarrow> list_min xs \<le> x"
  using foldl_min_le foldl_min_init by (cases xs) (auto simp: list_min_def)

lemma list_max_ge: "x \<in> set xs \<Longrightarrow> x \<le> list_max xs"
  using foldl_max_ge foldl_max_init by (cases xs) (auto simp: list_max_def)

lemma foldl_min_in: "foldl min z xs \<in> set (z # xs)"
  by (induction xs arbitrary: z) (auto simp: min_def)

lemma foldl_max_in: "foldl max z xs \<in> set (z # xs)"
  by (induction xs arbitrary: z) (auto simp: max_def)

lemma list_min_in: "xs \<noteq> [] \<Longrightarrow> list_min xs \<in> set xs"
  using foldl_min_in [of "hd xs" "tl xs"] by (simp add: list_min_def)

lemma list_max_in: "xs \<noteq> [] \<Longrightarrow> list_max xs \<in> set xs"
  using foldl_max_in [of "hd xs" "tl xs"] by (simp add: list_max_def)

lemma rnd64_c95: "rnd64 c95 = Fin c95"
proof -
  have "c95 = of_int 4278419646001971 * of_int 2 powi (- 52)" by (simp add: c95_def power_int_def power_one_over)
  then have "round_sig 2 53 (Some (- 1074)) c95 = c95"
    by (intro round_sig_exact [where m = 4278419646001971 and e = "- 52"]) auto
  then show ?thesis by (simp add: rnd64_def Let_def c95_def)
qed

lemma p95_index_range: "0 < n \<Longrightarrow> 0 \<le> p95_index n \<and> p95_index n < int n"
proof -
  assume n: "0 < n"
  have "c95 \<le> c95 * of_nat n" using n by (simp add: c95_def)
  then have "Fin c95 \<le> rnd64 (c95 * of_nat n)" using rnd64_mono rnd64_c95 by metis
  then have "1 \<le> \<lceil>q\<rceil>" if "rnd64 (c95 * of_nat n) = Fin q" for q
    using that by (simp add: c95_def less_le_trans)
  then show ?thesis using n by (auto simp: p95_index_def split: xfloat.splits)
qed

subsection \<open>Properties of the statistics\<close>

lemma length_sample_values: "length (sample_values pts) = length pts"
  by (simp add: sample_values_def)

lemma set_sample_values: "set (sample_values pts) = dp_value ` set pts"
  by (simp add: sample_values_def)

lemma thirds_append: "first_third vs @ middle_third vs @ last_third vs = vs"
proof -
  let ?t = "length vs div 3"
  have "drop (2 * ?t) vs = drop ?t (drop ?t vs)" by (simp add: mult_2 add.commute)
  moreover have "take ?t vs @ take ?t (drop ?t vs) @ drop ?t (drop ?t vs) = vs"
    by (simp only: append_take_drop_id)
  ultimately show ?thesis by (simp only: first_third_def middle_third_def last_third_def)
qed

lemma sort_nth_count:
  assumes "k < length xs"
  shows "k < length (filter (\<lambda>v. v \<le> sort xs ! k) (xs::'a::linorder list))"
proof -
  let ?s = "sort xs"
  have "filter (\<lambda>v. v \<le> ?s ! k) (take (Suc k) ?s) = take (Suc k) ?s"
    using assms sorted_nth_mono [OF sorted_sort, of _ k xs]
    by (intro filter_True) (auto simp: in_set_conv_nth less_Suc_eq_le)
  moreover have "filter (\<lambda>v. v \<le> ?s ! k) ?s =
      filter (\<lambda>v. v \<le> ?s ! k) (take (Suc k) ?s) @ filter (\<lambda>v. v \<le> ?s ! k) (drop (Suc k) ?s)"
    by (metis append_take_drop_id filter_append)
  ultimately have "Suc k \<le> length (filter (\<lambda>v. v \<le> ?s ! k) ?s)"
    using assms by (simp only: length_append) simp
  moreover have "length (filter (\<lambda>v. v \<le> ?s ! k) ?s) = length (filter (\<lambda>v. v \<le> ?s ! k) xs)"
    by (simp add: filter_sort)
  ultimately show ?thesis by simp
qed

text \<open>the statistics of a metric are ordered and made of its samples: minimum and maximum are samples
  that bound all of them, the 95th percentile is a sample between them that at least
  \<open>p95_index n + 1\<close> of the samples do not exceed, and the three segments are consecutive parts of the
  samples in time order that together are all of them.\<close>

theorem metric_stats_ordered:
  assumes "compute_metric_stats pts = Some st" and "vals = sample_values pts"
  shows "pts \<noteq> [] \<and> {ms_min st, ms_p95 st, ms_max st} \<subseteq> dp_value ` set pts
    \<and> (\<forall>p \<in> set pts. ms_min st \<le> dp_value p \<and> dp_value p \<le> ms_max st)
    \<and> p95_index (length pts) < int (length (filter (\<lambda>v. v \<le> ms_p95 st) vals))
    \<and> first_third vals @ middle_third vals @ last_third vals = vals
    \<and> ms_first st = chunk_avg (map Num (first_third vals))
    \<and> ms_middle st = chunk_avg (map Num (middle_third vals))
    \<and> ms_last st = chunk_avg (map Num (last_third vals))"
proof -
  have p: "pts \<noteq> []" using assms(1) by (auto simp: compute_metric_stats_def)
  then have v: "vals \<noteq> []" "set vals = dp_value ` set pts" "length vals = length pts"
    using length_sample_values [of pts] set_sample_values [of pts] assms(2) by auto
  have st: "ms_min st = list_min vals" "ms_max st = list_max vals"
      "ms_p95 st = sort vals ! nat (p95_index (length pts))"
      "ms_first st = chunk_avg (map Num (first_third vals))"
      "ms_middle st = chunk_avg (map Num (middle_third vals))"
      "ms_last st = chunk_avg (map Num (last_third vals))"
    using assms p v(3) by (auto simp: compute_metric_stats_def Let_def)
  have k: "0 \<le> p95_index (length pts)" "p95_index (length pts) < int (length pts)"
    using p95_index_range [of "length pts"] p by auto
  then have kl: "nat (p95_index (length pts)) < length vals" using v(3) by simp
  then have "ms_p95 st \<in> set vals" using st(3) by (metis length_sort nth_mem set_sort)
  moreover have "p95_index (length pts) < int (length (filter (\<lambda>v. v \<le> ms_p95 st) vals))"
    using sort_nth_count [OF kl] k(1) unfolding st(3) by linarith
  moreover have "ms_min st \<le> dp_value x" "dp_value x \<le> ms_max st" if "x \<in> set pts" for x
    using list_min_le [of "dp_value x" vals] list_max_ge [of "dp_value x" vals] that v(2) st(1,2) by auto
  ultimately show ?thesis
    using p v st list_min_in [OF v(1)] list_max_in [OF v(1)] thirds_append by auto
qed

theorem metric_stats_ordered_witness:
  "\<exists>st. compute_metric_stats [\<lparr>dp_time = ''b'', dp_value = Fin 3\<rparr>, \<lparr>dp_time = ''a'', dp_value = Fin 1\<rparr>] = Some st
     \<and> ms_min st \<le> Fin 1 \<and> Fin 3 \<le> ms_max st"
proof -
  let ?pts = "[\<lparr>dp_time = ''b'', dp_value = Fin 3\<rparr>, \<lparr>dp_time = ''a'', dp_value = Fin 1\<rparr>]"
  obtain st where st: "compute_metric_stats ?pts = Some st" by (simp add: compute_metric_stats_def Let_def)
  from metric_stats_ordered [OF this refl] have "\<forall>p \<in> set ?pts. ms_min st \<le> dp_value p \<and> dp_value p \<le> ms_max st"
    by blast
  then show ?thesis using st by simp
qed

text \<open>C21: the reported minimum and maximum of a metric bound every pod's statistics after scaling and
  rounding: for a positive scale the reported minimum is at most, and the reported maximum at least,
  the display value of every pod's minimum, percentile and maximum, so rounding never inverts them.\<close>

theorem report_bounds:
  assumes "\<And>s. scale = Some s \<Longrightarrow> 0 < s" and "st \<in> set sts" and "ms_min st \<le> x" and "x \<le> ms_max st"
  shows "f_le (rp_min (aggregate_metric scale unit sts)) (scaled (case scale of Some s \<Rightarrow> s | None \<Rightarrow> 1) (Num x))
    \<and> f_le (scaled (case scale of Some s \<Rightarrow> s | None \<Rightarrow> 1) (Num x)) (rp_max (aggregate_metric scale unit sts))"
proof -
  let ?k = "case scale of Some s \<Rightarrow> s | None \<Rightarrow> 1"
  have k: "0 < ?k" using assms(1) by (auto split: option.splits)
  have "list_min (map ms_min sts) \<le> x"
    using list_min_le [of "ms_min st" "map ms_min sts"] assms(2,3) by (auto intro: order.trans)
  moreover have "x \<le> list_max (map ms_max sts)"
    using list_max_ge [of "ms_max st" "map ms_max sts"] assms(2,4) by (auto intro: order.trans)
  ultimately show ?thesis using scaled_mono [OF k] by (simp add: aggregate_metric_def Let_def)
qed

theorem report_bounds_witness:
  "f_le (rp_min (aggregate_metric None ''percent'' [\<lparr>ms_min = Fin 1, ms_max = Fin 9, ms_avg = Num (Fin 4), ms_p95 = Fin 8,
      ms_first = None, ms_middle = None, ms_last = None\<rparr>])) (scaled 1 (Num (Fin 8)))"
  using report_bounds [where scale = None and unit = "''percent''" and x = "Fin 8" and
      st = "\<lparr>ms_min = Fin 1, ms_max = Fin 9, ms_avg = Num (Fin 4), ms_p95 = Fin 8,
      ms_first = None, ms_middle = None, ms_last = None\<rparr>" and
      sts = "[\<lparr>ms_min = Fin 1, ms_max = Fin 9, ms_avg = Num (Fin 4), ms_p95 = Fin 8,
      ms_first = None, ms_middle = None, ms_last = None\<rparr>]"]
  by simp

subsection \<open>The retry loop\<close>

definition no_raise :: "(nat \<Rightarrow> string \<Rightarrow> data_point list option) \<Rightarrow> bool" where
  "no_raise fetch \<longleftrightarrow> (\<forall>a q. fetch a q \<noteq> None)"

lemma query_pending_get:
  assumes "\<And>q. fetch q \<noteq> None" and "distinct (map fst ms)" and "\<forall>(n, q, u) \<in> set ms. dget coll n = None"
  shows "\<exists>coll'. query_pending fetch ms coll = Some coll'
    \<and> (\<forall>(n, q, u) \<in> set ms. dget coll' n = metric_of u (the (fetch q)))
    \<and> (\<forall>n. n \<notin> fst ` set ms \<longrightarrow> dget coll' n = dget coll n)"
  using assms(2,3)
proof (induction ms arbitrary: coll)
  case (Cons m ms)
  obtain n q u where m: "m = (n, q, u)" by (cases m)
  obtain pts where pts: "fetch q = Some pts" using assms(1) by blast
  let ?c = "case metric_of u pts of Some r \<Rightarrow> dset n r coll | None \<Rightarrow> coll"
  have c: "dget ?c n = metric_of u pts" "k \<noteq> n \<Longrightarrow> dget ?c k = dget coll k" for k
    using Cons.prems(2) m by (auto split: option.splits)
  have "\<forall>(n, q, u) \<in> set ms. dget ?c n = None"
    using Cons.prems m c(2) by (fastforce simp: image_iff)
  with Cons.IH [of ?c] Cons.prems(1) obtain coll' where r: "query_pending fetch ms ?c = Some coll'"
    "\<forall>(n, q, u) \<in> set ms. dget coll' n = metric_of u (the (fetch q))"
    "\<forall>k. k \<notin> fst ` set ms \<longrightarrow> dget coll' k = dget ?c k" by auto
  have "n \<notin> fst ` set ms" using Cons.prems(1) m by simp
  then have "dget coll' n = metric_of u pts" using r(3) c(1) by simp
  moreover have "query_pending fetch (m # ms) coll = Some coll'" using m pts r(1) by simp
  moreover have "dget coll' k = dget coll k" if "k \<notin> fst ` set (m # ms)" for k
    using that m r(3) c(2) by simp
  ultimately show ?case using m pts r(2) by auto
qed simp

lemma retry_loop_get:
  assumes "no_raise fetch" and "distinct (map fst ms)"
  shows "\<exists>coll'. retry_loop fetch as ms coll = Some coll'
    \<and> (\<forall>(n, q, u) \<in> set ms. dget coll' n = orelse (dget coll n) (first_some (\<lambda>a. metric_of u (the (fetch a q))) as))"
proof (induction as arbitrary: coll)
  case (Cons a as)
  let ?pend = "filter (\<lambda>(n, _, _). dget coll n = None) ms"
  show ?case
  proof (cases "?pend = []")
    case True
    then have "\<forall>(n, q, u) \<in> set ms. dget coll n \<noteq> None" by (auto simp: filter_empty_conv)
    then show ?thesis using True by (fastforce simp: orelse.simps)
  next
    case False
    have d: "distinct (map fst ?pend)" using assms(2) by (simp add: distinct_map_filter)
    from query_pending_get [of "fetch a" ?pend coll, OF _ d] assms(1)
    obtain c1 where c1: "query_pending (fetch a) ?pend coll = Some c1"
      "\<forall>(n, q, u) \<in> set ?pend. dget c1 n = metric_of u (the (fetch a q))"
      "\<forall>n. n \<notin> fst ` set ?pend \<longrightarrow> dget c1 n = dget coll n"
      by (auto simp: no_raise_def)
    from Cons.IH [of c1] obtain c2 where c2: "retry_loop fetch as ms c1 = Some c2"
      "\<forall>(n, q, u) \<in> set ms. dget c2 n = orelse (dget c1 n) (first_some (\<lambda>a. metric_of u (the (fetch a q))) as)" by blast
    have "dget c2 n = orelse (dget coll n) (first_some (\<lambda>a. metric_of u (the (fetch a q))) (a # as))"
      if m: "(n, q, u) \<in> set ms" for n q u
    proof (cases "dget coll n")
      case None
      then have "dget c1 n = metric_of u (the (fetch a q))" using c1(2) m by auto
      then show ?thesis using c2(2) m None by (auto split: option.splits)
    next
      case (Some r)
      then have "n \<notin> fst ` set ?pend" by auto
      then have "dget c1 n = Some r" using c1(3) Some by simp
      then show ?thesis using c2(2) m Some by auto
    qed
    then show ?thesis using False c1(1) c2(1) by (auto simp: Let_def)
  qed
qed simp

text \<open>the retry loop returns, for each metric, the result of the first of the allowed attempts in which
  the backend had data for it, and nothing if it never had any: a retry neither overwrites what an
  earlier attempt found nor stops while a metric is missing and attempts are left.\<close>

theorem retry_first_answer:
  assumes "no_raise fetch" and "distinct (map fst metrics)"
  shows "\<exists>coll. collect_metrics_with_retry fetch attempts metrics = Some coll
    \<and> (\<forall>(name, promql, unit) \<in> set metrics.
         dget coll name = first_some (\<lambda>a. metric_of unit (the (fetch a promql))) [1..<Suc attempts])"
  using retry_loop_get [OF assms, of "[1..<Suc attempts]" "[]"]
  by (auto simp del: upt_Suc simp: collect_metrics_with_retry_def)

theorem retry_first_answer_witness:
  "\<exists>coll. collect_metrics_with_retry
        (\<lambda>a q. Some (if a = 2 then [\<lparr>dp_time = ''t'', dp_value = Fin 5\<rparr>] else [])) 3 [(''m'', ''up'', ''x'')] = Some coll
     \<and> dget coll ''m'' \<noteq> None"
proof -
  let ?f = "\<lambda>a q. Some (if a = 2 then [\<lparr>dp_time = ''t'', dp_value = Fin 5\<rparr>] else []) :: data_point list option"
  have "no_raise ?f" by (simp add: no_raise_def)
  from retry_first_answer [OF this, of "[(''m'', ''up'', ''x'')]" 3] obtain coll
    where c: "collect_metrics_with_retry ?f 3 [(''m'', ''up'', ''x'')] = Some coll"
      "dget coll ''m'' = first_some (\<lambda>a. metric_of ''x'' (the (?f a ''up''))) [1..<Suc 3]" by auto
  have "first_some (\<lambda>a. metric_of ''x'' (the (?f a ''up''))) [1..<Suc 3] \<noteq> None"
    by (simp add: upt_rec metric_of_def compute_metric_stats_def Let_def)
  with c show ?thesis by metis
qed

subsection \<open>The window\<close>

text \<open>C22: a pod's statistics window is well-formed: it starts at the pod's start, ends no later than now
  (unless the clock is behind the start), never after the pod finished (unless it finished before it
  started), and excludes the scrape interval from the start or half of the run if that is less, which
  is flagged.\<close>

theorem pod_window_ok:
  assumes "pod_stats_window parse_ms now scrape pod start cs = Some w" and "0 \<le> scrape"
  shows "Option.bind start parse_ms = Some (w_start w)
    \<and> w_start w \<le> w_stats_start w \<and> w_stats_start w \<le> w_end w
    \<and> w_end w \<le> max now (w_start w)
    \<and> (\<forall>f. pod_finished_ms parse_ms pod cs = Some f \<longrightarrow> w_end w \<le> max f (w_start w))
    \<and> 2 * (w_stats_start w - w_start w) \<le> w_end w - w_start w
    \<and> w_stats_start w - w_start w \<le> scrape
    \<and> (w_cold_start w \<longleftrightarrow> w_stats_start w - w_start w < scrape)"
proof -
  obtain s where s: "Option.bind start parse_ms = Some s"
    using assms(1) by (auto simp: pod_stats_window_def split: option.splits)
  define e where "e = max (case pod_finished_ms parse_ms pod cs of None \<Rightarrow> now | Some f \<Rightarrow> min f now) s"
  define x where "x = min scrape ((e - s) div 2)"
  have w: "w = \<lparr>w_start = s, w_end = e, w_stats_start = s + x, w_cold_start = (x < scrape)\<rparr>"
    using assms(1) s by (simp add: pod_stats_window_def Let_def e_def x_def)
  have se: "s \<le> e" by (simp add: e_def)
  then have x: "0 \<le> x" "2 * x \<le> e - s" "x \<le> scrape"
    using assms(2) by (auto simp: x_def min_def)
  have "e \<le> max now s" "\<forall>f. pod_finished_ms parse_ms pod cs = Some f \<longrightarrow> e \<le> max f s"
    by (auto simp: e_def split: option.splits)
  then show ?thesis using w s x se by auto
qed

theorem pod_window_ok_witness:
  "\<exists>w. pod_stats_window (\<lambda>s. if s = ''t0'' then Some 1000 else None) 61000 30000 (Some ''p'') (Some ''t0'') [] = Some w
     \<and> w_stats_start w \<le> w_end w \<and> \<not> w_cold_start w"
proof -
  let ?w = "pod_stats_window (\<lambda>s. if s = ''t0'' then Some 1000 else None) 61000 30000 (Some ''p'') (Some ''t0'') []"
  have w: "?w = Some \<lparr>w_start = 1000, w_end = 61000, w_stats_start = 31000, w_cold_start = False\<rparr>" by code_simp
  from pod_window_ok [OF this] show ?thesis using w by simp
qed

text \<open>a range response is read without NaN samples, but an infinite sample is kept: it becomes the
  maximum of the metric and is reported as an infinity, which JSON cannot hold.\<close>

theorem infinite_sample_reported:
  assumes "parse_range_response to_iso (Some \<lparr>pr_status = ''success'', pr_series = [(labels, [(t, ''+Inf'')])]\<rparr>) = Some pts"
    and "compute_metric_stats pts = Some st" and "0 < k"
  shows "rp_max (aggregate_metric (Some k) unit [st]) = Num PInf"
proof -
  have "py_float ''+Inf'' = Some (Num PInf)" by code_simp
  then have "pts = [\<lparr>dp_time = to_iso t, dp_value = PInf\<rparr>]" using assms(1) by (simp add: parse_range_response_def)
  then have "ms_max st = PInf"
    using assms(2) by (auto simp: compute_metric_stats_def Let_def sample_values_def list_max_def)
  then show ?thesis using assms(3) by (simp add: aggregate_metric_def list_max_def scaled_def)
qed

theorem infinite_sample_reported_witness:
  "\<exists>pts st. parse_range_response (\<lambda>_. ''t'') (Some \<lparr>pr_status = ''success'', pr_series = [([], [(0, ''+Inf'')])]\<rparr>) = Some pts
     \<and> compute_metric_stats pts = Some st \<and> rp_max (aggregate_metric (Some 1) ''x'' [st]) = Num PInf"
proof -
  have "py_float ''+Inf'' = Some (Num PInf)" by code_simp
  then have p: "parse_range_response (\<lambda>_. ''t'') (Some \<lparr>pr_status = ''success'', pr_series = [([], [(0, ''+Inf'')])]\<rparr>)
      = Some [\<lparr>dp_time = ''t'', dp_value = PInf\<rparr>]" by (simp add: parse_range_response_def)
  obtain st where st: "compute_metric_stats [\<lparr>dp_time = ''t'', dp_value = PInf\<rparr>] = Some st"
    by (simp add: compute_metric_stats_def Let_def)
  from infinite_sample_reported [OF p st, of 1 "''x''"] p st show ?thesis by auto
qed

end
