(* ===== verification/Status.thy ===== *)
theory Status
  imports Telemetry
begin

text \<open>
  The outcome of a workload in \<^verbatim>\<open>postprocess/postprocess.py\<close>: the status of a pod from the states of its
  containers, its restarts, the pod entries of the AIBOM, and their roll-up to one status and one
  duration (the execution metadata of \<^verbatim>\<open>compile_aibom\<close>). The theorems say when a workload is reported
  as completed and that an out-of-memory kill is never hidden.
\<close>

subsection \<open>Pods\<close>

definition of_pod :: "string option \<Rightarrow> container \<Rightarrow> bool" where
  "of_pod pod c \<longleftrightarrow> Some (c_pod_name c) = pod"

definition bad_exit :: "int option \<Rightarrow> bool" where
  "bad_exit e \<longleftrightarrow> e \<noteq> Some 0 \<and> e \<noteq> None"

definition pod_status_from_containers :: "string option \<Rightarrow> container list \<Rightarrow> string option \<times> int option" where
  "pod_status_from_containers pod cs =
     (let stopped = filter (\<lambda>c. of_pod pod c \<and> nonempty (c_terminated_reason c) \<noteq> None) cs
      in if stopped = [] then (None, None)
         else (case find (\<lambda>c. c_terminated_reason c = Some ''OOMKilled'') stopped of
                 Some c \<Rightarrow> (Some ''OOMKilled'', c_exit_code c)
               | None \<Rightarrow>
                   (case find (\<lambda>c. bad_exit (c_exit_code c)) stopped of
                      Some c \<Rightarrow> (c_terminated_reason c, c_exit_code c)
                    | None \<Rightarrow> (c_terminated_reason (hd stopped), c_exit_code (hd stopped)))))"

definition pod_field :: "(container \<Rightarrow> string option) \<Rightarrow> string option \<Rightarrow> container list \<Rightarrow> string option" where
  "pod_field field pod cs =
     Option.bind (find (\<lambda>c. of_pod pod c \<and> nonempty (field c) \<noteq> None) cs) field"

definition pod_job_result :: "string option \<Rightarrow> container list \<Rightarrow> string option" where
  "pod_job_result = pod_field c_job_result"

definition pod_serving_role :: "string option \<Rightarrow> container list \<Rightarrow> string option" where
  "pod_serving_role = pod_field c_serving_role"

record restart_info =
  rs_count :: int
  rs_reason :: string
  rs_exit_code :: "int option"

definition has_restarted :: "string option \<Rightarrow> container \<Rightarrow> bool" where
  "has_restarted pod c \<longleftrightarrow>
     of_pod pod c \<and> c_restart_count c \<noteq> None \<and> c_restart_count c \<noteq> Some 0 \<and> nonempty (c_last_terminated_reason c) \<noteq> None"

definition pod_restart_info :: "string option \<Rightarrow> container list \<Rightarrow> restart_info option" where
  "pod_restart_info pod cs =
     (let restarted = filter (has_restarted pod) cs
      in if restarted = [] then None
         else (let chosen = (case find (\<lambda>c. c_last_terminated_reason c = Some ''OOMKilled'') restarted of
                               Some c \<Rightarrow> c
                             | None \<Rightarrow>
                                 (case find (\<lambda>c. bad_exit (c_last_exit_code c)) restarted of
                                    Some c \<Rightarrow> c
                                  | None \<Rightarrow> hd restarted))
               in Some \<lparr>rs_count = sum_list (map (the \<circ> c_restart_count) restarted),
                        rs_reason = the (c_last_terminated_reason chosen),
                        rs_exit_code = c_last_exit_code chosen\<rparr>))"

subsection \<open>Pod entries\<close>

record pod_place = pod_meta +
  pl_namespace :: "string option"
  pl_ip :: "string option"
  pl_node :: "string option"

record pod_entry =
  pe_name :: "string option"
  pe_uid :: "string option"
  pe_namespace :: "string option"
  pe_ip :: "string option"
  pe_node :: "string option"
  pe_start_time :: "string option"
  pe_status :: "string option"
  pe_exit_code :: "int option"
  pe_restarts :: "restart_info option"
  pe_role :: "string option"
  pe_retried :: bool

definition compile_pod :: "container list \<Rightarrow> 'a pod_place_scheme \<Rightarrow> pod_entry" where
  "compile_pod cs m =
     (let (status, exit_code) = pod_status_from_containers (pm_name m) cs
      in \<lparr>pe_name = pm_name m, pe_uid = pm_uid m, pe_namespace = pl_namespace m, pe_ip = pl_ip m,
          pe_node = pl_node m, pe_start_time = pm_start_time m, pe_status = status, pe_exit_code = exit_code,
          pe_restarts = pod_restart_info (pm_name m) cs,
          pe_role = pod_serving_role (pm_name m) cs,
          pe_retried = (pod_job_result (pm_name m) cs = Some ''Complete'' \<and> status \<notin> {None, Some ''Completed''})\<rparr>)"

text \<open>The status of the workload. The first of the counted statuses that is not \<^verbatim>\<open>Completed\<close> wins, an
  out-of-memory kill over all others; the Jobs' own results complete or correct the picture.\<close>

definition job_results :: "container list \<Rightarrow> pod_entry list \<Rightarrow> string option list" where
  "job_results cs pods = map (\<lambda>p. pod_job_result (pe_name p) cs) pods"

definition reported_status :: "string list \<Rightarrow> string option" where
  "reported_status ss =
     (if ''OOMKilled'' \<in> set ss then Some ''OOMKilled''
      else (case find (\<lambda>s. s \<noteq> ''Completed'') ss of
              Some s \<Rightarrow> Some s
            | None \<Rightarrow> (if ss \<noteq> [] then Some ''Completed'' else None)))"

definition workload_status :: "container list \<Rightarrow> pod_entry list \<Rightarrow> string option" where
  "workload_status cs pods =
     (let statuses = List.map_filter (\<lambda>p. if pe_retried p then None else nonempty (pe_status p)) pods;
          s0 = reported_status statuses;
          s1 = (if s0 = None \<and> Some ''Complete'' \<in> set (job_results cs pods) then Some ''Completed'' else s0)
      in if s1 \<in> {None, Some ''Completed''} \<and> Some ''Failed'' \<in> set (job_results cs pods) then Some ''Failed'' else s1)"

text \<open>The duration: \<open>parse_s\<close> is \<^verbatim>\<open>_parse_start_utc(t).timestamp()\<close>, with \<^const>\<open>None\<close> for a text that is not a
  time; the earliest start to the last finish, or to now while a pod has none. The differences of
  time stamps are finite, so \<^verbatim>\<open>round\<close> does not fail.\<close>

definition py_round :: "xfloat \<Rightarrow> int option" where
  "py_round x = (case x of Fin q \<Rightarrow> Some (rhe q) | _ \<Rightarrow> None)"

definition duration_end :: "(string \<Rightarrow> int option) \<Rightarrow> rat \<Rightarrow> container list \<Rightarrow> pod_entry list \<Rightarrow> xfloat" where
  "duration_end parse_ms now_s cs pods =
     (let finishes = map (\<lambda>p. pod_finished_ms parse_ms (pe_name p) cs) pods
      in if finishes \<noteq> [] \<and> None \<notin> set finishes
         then min (rnd64 (of_int (list_max (map the finishes)) / 1000)) (Fin now_s) else Fin now_s)"

definition duration_seconds ::
  "(string \<Rightarrow> rat option) \<Rightarrow> (string \<Rightarrow> int option) \<Rightarrow> rat \<Rightarrow> container list \<Rightarrow> pod_entry list \<Rightarrow> int option" where
  "duration_seconds parse_s parse_ms now_s cs pods =
     (let starts = map parse_s (List.map_filter (nonempty \<circ> pe_start_time) pods)
      in if starts = [] \<or> None \<in> set starts then None
         else (case f_sub (Num (duration_end parse_ms now_s cs pods)) (Num (Fin (list_min (map the starts)))) of
                 Num x \<Rightarrow> py_round x
               | NaN \<Rightarrow> None))"

subsection \<open>The status of a pod\<close>

lemma pod_status_nonempty: "fst (pod_status_from_containers pod cs) = Some s \<Longrightarrow> s \<noteq> []"
proof -
  let ?stopped = "filter (\<lambda>c. of_pod pod c \<and> nonempty (c_terminated_reason c) \<noteq> None) cs"
  have ne: "nonempty (c_terminated_reason c) \<noteq> None \<Longrightarrow> c_terminated_reason c = Some t \<Longrightarrow> t \<noteq> []" for c t
    by (auto dest: nonempty_SomeD)
  have hd: "?stopped \<noteq> [] \<Longrightarrow> hd ?stopped \<in> set ?stopped" by (rule hd_in_set)
  assume "fst (pod_status_from_containers pod cs) = Some s"
  then show "s \<noteq> []"
    using ne hd by (auto simp: pod_status_from_containers_def Let_def split: if_splits option.splits dest!: find_filterD)
qed

lemma pod_status_oom:
  assumes "c \<in> set cs" "of_pod pod c" "c_terminated_reason c = Some ''OOMKilled''"
  shows "fst (pod_status_from_containers pod cs) = Some ''OOMKilled''"
proof -
  let ?stopped = "filter (\<lambda>c. of_pod pod c \<and> nonempty (c_terminated_reason c) \<noteq> None) cs"
  have c: "c \<in> set ?stopped" using assms by simp
  then have "find (\<lambda>c. c_terminated_reason c = Some ''OOMKilled'') ?stopped \<noteq> None"
    using assms(3) by (auto simp: find_None_iff)
  moreover have "?stopped \<noteq> []" using c by (metis list.set(1) empty_iff)
  ultimately show ?thesis by (auto simp: pod_status_from_containers_def Let_def)
qed

lemma pod_restart_oom:
  assumes "c \<in> set cs" "has_restarted pod c" "c_last_terminated_reason c = Some ''OOMKilled''"
  shows "\<exists>ri. pod_restart_info pod cs = Some ri \<and> rs_reason ri = ''OOMKilled''"
proof -
  have c: "c \<in> set (filter (has_restarted pod) cs)" using assms by simp
  then have ne: "filter (has_restarted pod) cs \<noteq> []" by (metis list.set(1) empty_iff)
  from c assms(3) obtain d where d: "find (\<lambda>c. c_last_terminated_reason c = Some ''OOMKilled'') (filter (has_restarted pod) cs) = Some d"
    by (cases "find (\<lambda>c. c_last_terminated_reason c = Some ''OOMKilled'') (filter (has_restarted pod) cs)")
       (auto simp: find_None_iff)
  from find_filterD [OF d] d ne show ?thesis by (simp add: pod_restart_info_def Let_def)
qed

subsection \<open>The status of a workload\<close>

lemma reported_Completed: "reported_status ss = Some ''Completed'' \<longleftrightarrow> ss \<noteq> [] \<and> set ss \<subseteq> {''Completed''}"
proof (cases "find (\<lambda>s. s \<noteq> ''Completed'') ss")
  case None
  then have "\<forall>s \<in> set ss. s = ''Completed''" by (simp add: find_None_iff)
  then show ?thesis using None by (auto simp: reported_status_def)
next
  case (Some t)
  then have "t \<in> set ss" "t \<noteq> ''Completed''" by (auto simp: find_Some_iff)
  then show ?thesis using Some by (auto simp: reported_status_def)
qed

lemma reported_None: "reported_status ss = None \<longleftrightarrow> ss = []"
  by (auto simp: reported_status_def split: option.splits)

definition counted :: "pod_entry list \<Rightarrow> string list" where
  "counted pods = List.map_filter (\<lambda>p. if pe_retried p then None else nonempty (pe_status p)) pods"

lemma counted_entry:
  "(if pe_retried (compile_pod cs m) then None else nonempty (pe_status (compile_pod cs m))) = Some s \<longleftrightarrow>
     fst (pod_status_from_containers (pm_name m) cs) = Some s
     \<and> (s = ''Completed'' \<or> pod_job_result (pm_name m) cs \<noteq> Some ''Complete'')"
proof -
  obtain st ex where st: "pod_status_from_containers (pm_name m) cs = (st, ex)" by fastforce
  have "nonempty st = st"
    using pod_status_nonempty [of "pm_name m" cs] st by (cases st) (auto simp: neq_Nil_conv)
  moreover have "pe_status (compile_pod cs m) = st"
    and "pe_retried (compile_pod cs m) \<longleftrightarrow> pod_job_result (pm_name m) cs = Some ''Complete'' \<and> st \<notin> {None, Some ''Completed''}"
    by (simp_all add: compile_pod_def st)
  ultimately show ?thesis using st by auto
qed

lemma counted_compile_pod:
  "s \<in> set (counted (map (compile_pod cs) ms)) \<longleftrightarrow>
     (\<exists>m \<in> set ms. fst (pod_status_from_containers (pm_name m) cs) = Some s
           \<and> (s = ''Completed'' \<or> pod_job_result (pm_name m) cs \<noteq> Some ''Complete''))"
  by (simp only: counted_def set_map_filter_iff counted_entry set_map bex_simps)

lemma job_results_compile_pod [simp]:
  "job_results cs (map (compile_pod cs) ms) = map (\<lambda>m. pod_job_result (pm_name m) cs) ms"
  by (simp add: job_results_def compile_pod_def split: prod.splits)

lemma workload_Completed:
  "workload_status cs pods = Some ''Completed'' \<longleftrightarrow>
     Some ''Failed'' \<notin> set (job_results cs pods) \<and> set (counted pods) \<subseteq> {''Completed''}
     \<and> (counted pods \<noteq> [] \<or> Some ''Complete'' \<in> set (job_results cs pods))"
  using reported_Completed [of "counted pods"] reported_None [of "counted pods"]
  by (auto simp: workload_status_def counted_def [symmetric] Let_def split: if_splits)

lemma all_or_retried:
  "(\<forall>s. (\<exists>m \<in> A. S m = Some s \<and> (s = a \<or> J m \<noteq> k)) \<longrightarrow> s \<in> {a}) \<longleftrightarrow>
     (\<forall>m \<in> A. S m \<in> {None, Some a} \<or> J m = k)"
proof
  assume l: "\<forall>s. (\<exists>m \<in> A. S m = Some s \<and> (s = a \<or> J m \<noteq> k)) \<longrightarrow> s \<in> {a}"
  show "\<forall>m \<in> A. S m \<in> {None, Some a} \<or> J m = k"
  proof
    fix m assume "m \<in> A"
    then show "S m \<in> {None, Some a} \<or> J m = k" using l by (cases "S m") auto
  qed
qed fastforce

lemma some_completed:
  "(f \<notin> J ` A \<and> (\<forall>m \<in> A. S m \<in> {None, Some a} \<or> J m = k)
      \<and> ((\<exists>m \<in> A. \<exists>s. S m = Some s \<and> (s = a \<or> J m \<noteq> k)) \<or> k \<in> J ` A)) \<longleftrightarrow>
    ((\<forall>m \<in> A. J m \<noteq> f) \<and> (\<forall>m \<in> A. S m \<in> {None, Some a} \<or> J m = k) \<and> (\<exists>m \<in> A. S m = Some a \<or> J m = k))"
proof (cases "\<forall>m \<in> A. S m \<in> {None, Some a} \<or> J m = k")
  case True
  then have "(\<exists>m \<in> A. \<exists>s. S m = Some s \<and> (s = a \<or> J m \<noteq> k)) \<longleftrightarrow> (\<exists>m \<in> A. S m = Some a)" by fastforce
  then show ?thesis by blast
qed blast

text \<open>C12: A workload is reported as completed exactly if no Job failed, every pod either reported no
  failure or is an attempt of a Job that completed, and some pod completed or some Job did.\<close>

theorem workload_completed_iff:
  "workload_status cs (map (compile_pod cs) ms) = Some ''Completed'' \<longleftrightarrow>
     (\<forall>m \<in> set ms. pod_job_result (pm_name m) cs \<noteq> Some ''Failed'')
     \<and> (\<forall>m \<in> set ms. fst (pod_status_from_containers (pm_name m) cs) \<in> {None, Some ''Completed''}
          \<or> pod_job_result (pm_name m) cs = Some ''Complete'')
     \<and> (\<exists>m \<in> set ms. fst (pod_status_from_containers (pm_name m) cs) = Some ''Completed''
          \<or> pod_job_result (pm_name m) cs = Some ''Complete'')"
proof -
  let ?S = "\<lambda>m. fst (pod_status_from_containers (pm_name m) cs)" and ?J = "\<lambda>m. pod_job_result (pm_name m) cs"
  let ?C = "counted (map (compile_pod cs) ms)"
  have sub: "set ?C \<subseteq> {''Completed''} \<longleftrightarrow> (\<forall>m \<in> set ms. ?S m \<in> {None, Some ''Completed''} \<or> ?J m = Some ''Complete'')"
    unfolding subset_iff counted_compile_pod by (rule all_or_retried)
  have ne: "?C \<noteq> [] \<longleftrightarrow> (\<exists>m \<in> set ms. \<exists>s. ?S m = Some s \<and> (s = ''Completed'' \<or> ?J m \<noteq> Some ''Complete''))"
    using counted_compile_pod [of _ cs ms] by (metis list.set_intros(1) neq_Nil_conv empty_iff list.set(1))
  show ?thesis
    unfolding workload_Completed sub ne job_results_compile_pod set_map by (rule some_completed)
qed

text \<open>A pod of one container that was killed and restarted, whose Job completed in the end.\<close>

definition sample_pod :: pod_place where
  "sample_pod = \<lparr>pm_uid = Some ''u'', pm_name = Some ''p'', pm_start_time = None, pm_gpu_count = VNone,
     pl_namespace = None, pl_ip = None, pl_node = None\<rparr>"

definition sample_container :: container where
  "sample_container = \<lparr>c_pod_name = ''p'', c_name = ''main'', c_image = ''i'', c_image_id = [], c_command = [], c_args = [],
     c_terminated_reason = Some ''OOMKilled'', c_exit_code = Some 137, c_finished_at = None, c_memory_limit = None,
     c_cpu_limit = None, c_gpu_limit = None, c_restart_count = Some 1, c_last_terminated_reason = Some ''OOMKilled'',
     c_last_exit_code = Some 137, c_job_result = None, c_serving_role = None\<rparr>"

theorem workload_completed_iff_witness:
  "workload_status [sample_container\<lparr>c_job_result := Some ''Complete''\<rparr>]
     (map (compile_pod [sample_container\<lparr>c_job_result := Some ''Complete''\<rparr>]) [sample_pod]) = Some ''Completed''"
  unfolding workload_completed_iff
  by (simp add: sample_pod_def sample_container_def pod_job_result_def pod_field_def of_pod_def)

text \<open>C13: An out-of-memory kill is never hidden. A container that was killed makes its pod entry say so, and
  the workload too unless the pod is an attempt of a Job that completed; a kill before a restart is
  named in the pod's restart information.\<close>

theorem oom_never_hidden:
  assumes "m \<in> set ms" and "c \<in> set cs" and "Some (c_pod_name c) = pm_name m"
  shows "(c_terminated_reason c = Some ''OOMKilled'' \<longrightarrow>
            pe_status (compile_pod cs m) = Some ''OOMKilled''
            \<and> (pod_job_result (pm_name m) cs \<noteq> Some ''Complete'' \<longrightarrow>
                 workload_status cs (map (compile_pod cs) ms) = Some ''OOMKilled''))
       \<and> (c_restart_count c = Some k \<and> k \<noteq> 0 \<and> c_last_terminated_reason c = Some ''OOMKilled'' \<longrightarrow>
            (\<exists>ri. pe_restarts (compile_pod cs m) = Some ri \<and> rs_reason ri = ''OOMKilled''))"
proof (intro conjI impI)
  have pod: "of_pod (pm_name m) c" using assms(3) by (simp add: of_pod_def)
  {
    assume "c_terminated_reason c = Some ''OOMKilled''"
    then show oom: "pe_status (compile_pod cs m) = Some ''OOMKilled''"
      using pod_status_oom [OF assms(2) pod] by (auto simp: compile_pod_def split: prod.splits)
    assume "pod_job_result (pm_name m) cs \<noteq> Some ''Complete''"
    then have "''OOMKilled'' \<in> set (counted (map (compile_pod cs) ms))"
      using pod_status_oom [OF assms(2) pod] \<open>c_terminated_reason c = _\<close> assms(1) unfolding counted_compile_pod by blast
    then show "workload_status cs (map (compile_pod cs) ms) = Some ''OOMKilled''"
      by (simp add: workload_status_def counted_def [symmetric] reported_status_def)
  next
    assume "c_restart_count c = Some k \<and> k \<noteq> 0 \<and> c_last_terminated_reason c = Some ''OOMKilled''"
    then have "has_restarted (pm_name m) c" "c_last_terminated_reason c = Some ''OOMKilled''"
      using pod by (simp_all add: has_restarted_def)
    then show "\<exists>ri. pe_restarts (compile_pod cs m) = Some ri \<and> rs_reason ri = ''OOMKilled''"
      using pod_restart_oom [OF assms(2)] by (simp add: compile_pod_def split: prod.splits)
  }
qed

theorem oom_never_hidden_witness:
  "workload_status [sample_container] (map (compile_pod [sample_container]) [sample_pod]) = Some ''OOMKilled''
     \<and> (\<exists>ri. pe_restarts (compile_pod [sample_container] sample_pod) = Some ri \<and> rs_reason ri = ''OOMKilled'')"
  using oom_never_hidden [of sample_pod "[sample_pod]" sample_container "[sample_container]" 1]
  by (simp add: sample_pod_def sample_container_def pod_job_result_def pod_field_def of_pod_def)

end
