(* ===== verification/Quantization.thy ===== *)
theory Quantization
  imports PyValue Regex
begin

text \<open>
  \<^verbatim>\<open>detect_quantization_from_name\<close> of \<^verbatim>\<open>postprocess/postprocess.py\<close>: the table of patterns, tried in
  order, case-insensitively, and the bit width of the first that occurs in the name. The table is
  the source's, in its order; \<open>name_end\<close> is its \<^verbatim>\<open>_END\<close>.
\<close>

abbreviation name_end :: regex where
  "name_end \<equiv> RNotAhead is_alnum_ascii"

abbreviation dash :: regex where
  "dash \<equiv> RCls (one_of ''_-'')"

abbreviation bits_group :: regex where
  "bits_group \<equiv> RGroup 1 (RPlus py_isdigit_ascii)"

definition quant_patterns :: "(regex \<times> string \<times> int option) list" where
  "quant_patterns =
    [(rseq [rlit_ci ''GPTQ'', dash, rlit_ci ''Int8''], ''gptq'', Some 8),
     (rseq [rlit_ci ''GPTQ'', dash, rlit_ci ''Int4''], ''gptq'', Some 4),
     (rseq [rlit_ci ''gptq'', dash, rlit_ci ''4bit''], ''gptq'', Some 4),
     (rlit_ci ''GPTQ'', ''gptq'', Some 4),
     (rseq [dash, rlit_ci ''AWQ'', name_end], ''awq'', Some 4),
     (rseq [rlit_ci ''AQLM'', dash, bits_group, rlit_ci ''Bit''], ''aqlm'', None),
     (rlit_ci ''AQLM'', ''aqlm'', Some 2),
     (rlit_ci ''EXL2'', ''exl2'', None),
     (rseq [rlit_ci ''SqueezeLLM'', dash, bits_group, rlit_ci ''bit''], ''squeezellm'', None),
     (rlit_ci ''SqueezeLLM'', ''squeezellm'', Some 4),
     (rseq [rlit_ci ''HQQ'', dash, bits_group, rlit_ci ''bit''], ''hqq'', None),
     (rlit_ci ''HQQ'', ''hqq'', Some 4),
     (rseq [RNotBehind is_alpha_ascii, rlit_ci ''QuIP''], ''quip'', Some 2),
     (rlit_ci ''EETQ'', ''eetq'', Some 8),
     (rlit_ci ''AutoRound'', ''autoround'', Some 4),
     (rseq [dash, rlit_ci ''NVFP4'', name_end], ''fp4'', Some 4),
     (rseq [dash, rlit_ci ''MXFP4'', name_end], ''fp4'', Some 4),
     (rseq [dash, rlit_ci ''FP4'', name_end], ''fp4'', Some 4),
     (rseq [dash, rlit_ci ''FP8'', name_end], ''fp8'', Some 8),
     (rseq [rlit_ci ''bnb'', dash, rlit_ci ''4bit''], ''bitsandbytes'', Some 4),
     (rseq [rlit_ci ''bnb'', dash, rlit_ci ''8bit''], ''bitsandbytes'', Some 8),
     (rseq [dash, rlit_ci ''NF4'', name_end], ''bitsandbytes'', Some 4),
     (rseq [dash, rlit_ci ''INT4'', name_end], ''int4'', Some 4),
     (rseq [dash, rlit_ci ''INT8'', name_end], ''int8'', Some 8),
     (rseq [dash, rlit_ci ''Marlin'', name_end], ''marlin'', Some 4),
     (rseq [RCls (one_of ''._-''), rlit_ci ''W'', bits_group, rlit_ci ''A'', RPlus py_isdigit_ascii, name_end],
        ''compressed-tensors'', None),
     (rseq [RNotBehind is_alnum_ascii, ROpt (rlit_ci ''I''), rlit_ci ''Q'', RGroup 1 (RCls py_isdigit_ascii),
        rlit_ci ''_'',
        ralt [RSeq (rlit_ci ''K'') (ROpt (RSeq (rlit_ci ''_'') (RCls (\<lambda>c. one_of ''sml'' (lower_char c))))),
              RCls (one_of ''01''), rlit_ci ''XXS'', rlit_ci ''XS'', rlit_ci ''NL''],
        name_end], ''gguf'', None),
     (rlit_ci ''GGUF'', ''gguf'', None),
     (rlit_ci ''GGML'', ''ggml'', None)]"

definition quant_result :: "string \<Rightarrow> int option \<Rightarrow> mstate \<Rightarrow> pyval dict" where
  "quant_result meth bits m =
     (''quantization_method'', VStr meth) #
     (case bits of
        Some b \<Rightarrow> [(''quantization_bits'', VInt b)]
      | None \<Rightarrow> (case group 1 m of
                   Some d \<Rightarrow> [(''quantization_bits'', VInt (int_of_digits d))]
                 | None \<Rightarrow> []))"

definition detect_quantization_from_name :: "string \<Rightarrow> pyval dict option" where
  "detect_quantization_from_name name =
     (if name = [] then None
      else first_some (\<lambda>(r, meth, bits). map_option (quant_result meth bits) (re_search r name)) quant_patterns)"

subsection \<open>What is detected\<close>

lemma quant_result_keys: "dkeys (quant_result m b s) \<subseteq> {''quantization_method'', ''quantization_bits''}"
  by (auto simp: quant_result_def dkeys_def split: option.splits)

lemma quant_result_ok: "dict_ok (quant_result m b s)"
  by (simp add: quant_result_def dict_ok_def split: option.splits)

lemma detect_quantizationD:
  assumes "detect_quantization_from_name name = Some d"
  obtains r meth bits m where "(r, meth, bits) \<in> set quant_patterns" and "re_search r name = Some m"
    and "d = quant_result meth bits m"
proof -
  have "first_some (\<lambda>(r, meth, bits). map_option (quant_result meth bits) (re_search r name)) quant_patterns = Some d"
    using assms by (simp add: detect_quantization_from_name_def split: if_splits)
  then obtain p where "p \<in> set quant_patterns"
    "(\<lambda>(r, meth, bits). map_option (quant_result meth bits) (re_search r name)) p = Some d"
    by (blast dest: first_some_SomeD)
  with that show thesis by (cases p) auto
qed

lemma detect_quantization_keys:
  "detect_quantization_from_name name = Some d \<Longrightarrow>
     dict_ok d \<and> dkeys d \<subseteq> {''quantization_method'', ''quantization_bits''}"
  using quant_result_keys quant_result_ok by (elim detect_quantizationD) simp

text \<open>A case-insensitive literal occurs in a name exactly when its lower-case form occurs in the
  lower-case name.\<close>

lemma prefix_conv_take: "prefix p s \<longleftrightarrow> take (length p) s = p"
  by (metis append_eq_conv_conj prefix_def)

lemma search_rlit_ci: "re_search (rlit_ci l) s \<noteq> None \<longleftrightarrow> py_in (py_lower l) (py_lower s)"
proof -
  have "re_search (rlit_ci l) s \<noteq> None \<longleftrightarrow> (\<exists>k \<le> length s. prefix (py_lower l) (drop k (py_lower s)))"
    by (auto simp: re_search_def search_from_None_iff rmatch_rlit_ci py_lower_def drop_map)
  also have "\<dots> \<longleftrightarrow> (\<exists>a b. py_lower s = a @ py_lower l @ b)"
  proof
    assume "\<exists>k \<le> length s. prefix (py_lower l) (drop k (py_lower s))"
    then obtain k b where "drop k (py_lower s) = py_lower l @ b" by (auto simp: prefix_def)
    then show "\<exists>a b. py_lower s = a @ py_lower l @ b" by (metis append_take_drop_id)
  next
    assume "\<exists>a b. py_lower s = a @ py_lower l @ b"
    then obtain a b where ab: "py_lower s = a @ py_lower l @ b" by blast
    then have "length a \<le> length s" by (metis length_append length_py_lower le_add1)
    moreover have "prefix (py_lower l) (drop (length a) (py_lower s))" using ab by simp
    ultimately show "\<exists>k \<le> length s. prefix (py_lower l) (drop k (py_lower s))" by blast
  qed
  finally show ?thesis by (simp add: py_in_conv)
qed

lemma first_some_in:
  "x \<in> set xs \<Longrightarrow> f x \<noteq> None \<Longrightarrow> first_some f xs \<noteq> None"
  by (auto simp: first_some_None_iff)

lemma quant_families:
  "(rlit_ci ''GPTQ'', ''gptq'', Some 4) \<in> set quant_patterns \<and> py_lower ''GPTQ'' = ''gptq''"
  "(rlit_ci ''AQLM'', ''aqlm'', Some 2) \<in> set quant_patterns \<and> py_lower ''AQLM'' = ''aqlm''"
  "(rlit_ci ''EXL2'', ''exl2'', None) \<in> set quant_patterns \<and> py_lower ''EXL2'' = ''exl2''"
  "(rlit_ci ''SqueezeLLM'', ''squeezellm'', Some 4) \<in> set quant_patterns \<and> py_lower ''SqueezeLLM'' = ''squeezellm''"
  "(rlit_ci ''HQQ'', ''hqq'', Some 4) \<in> set quant_patterns \<and> py_lower ''HQQ'' = ''hqq''"
  "(rlit_ci ''EETQ'', ''eetq'', Some 8) \<in> set quant_patterns \<and> py_lower ''EETQ'' = ''eetq''"
  "(rlit_ci ''AutoRound'', ''autoround'', Some 4) \<in> set quant_patterns \<and> py_lower ''AutoRound'' = ''autoround''"
  "(rlit_ci ''GGUF'', ''gguf'', None) \<in> set quant_patterns \<and> py_lower ''GGUF'' = ''gguf''"
  "(rlit_ci ''GGML'', ''ggml'', None) \<in> set quant_patterns \<and> py_lower ''GGML'' = ''ggml''"
  by (rule conjI, simp only: quant_patterns_def list.set insert_iff simp_thms, code_simp)+

text \<open>the case of a model name does not matter, and a family whose pattern is the bare family
  name is found wherever the name contains it: a name that contains one of these families in any
  case has a detected quantization.\<close>

theorem detect_quantization_family:
  assumes "fam \<in> {''gptq'', ''aqlm'', ''exl2'', ''squeezellm'', ''hqq'', ''eetq'', ''autoround'', ''gguf'', ''ggml''}"
    and "py_in fam (py_lower name)"
  shows "detect_quantization_from_name name \<noteq> None"
proof -
  have n: "name \<noteq> []" using assms by (auto simp: py_lower_def)
  have "\<exists>l meth bits. (rlit_ci l, meth, bits) \<in> set quant_patterns \<and> py_lower l = fam"
    using assms(1) quant_families by blast
  then obtain l meth bits where p: "(rlit_ci l, meth, bits) \<in> set quant_patterns" "py_lower l = fam" by blast
  then have "re_search (rlit_ci l) name \<noteq> None" using assms(2) search_rlit_ci by simp
  with p(1) have "first_some (\<lambda>(r, meth, bits). map_option (quant_result meth bits) (re_search r name)) quant_patterns \<noteq> None"
    by (intro first_some_in [OF p(1)]) auto
  with n show ?thesis by (simp add: detect_quantization_from_name_def)
qed

theorem detect_quantization_family_witness:
  "detect_quantization_from_name ''TheBloke/Llama-2-7B-gPTq'' \<noteq> None"
  by (rule detect_quantization_family [where fam = "''gptq''"]) (simp, code_simp)

end
