(* ===== verification/Serving.thy ===== *)
theory Serving
  imports Command Quantization
begin

text \<open>
  Detection of serving engines and training tools from a container's command line
  (\<^verbatim>\<open>postprocess/postprocess.py\<close>): vLLM, TGI, SGLang, LMDeploy and trl, the distributed-training
  strategy, and \<^verbatim>\<open>detect_model_from_containers\<close>, which combines them. Results are dictionaries, as in
  the source; \<^const>\<open>None\<close> is \<^verbatim>\<open>None\<close>.
\<close>

subsection \<open>vLLM\<close>

definition vllm_arg_map :: arg_map where
  "vllm_arg_map =
    [(''--model'', ''model_name'', CStr),
     (''--served-model-name'', ''served_model_name'', CStr),
     (''--quantization'', ''quantization'', CStr),
     (''-q'', ''quantization'', CStr),
     (''--dtype'', ''dtype'', CStr),
     (''--max-model-len'', ''max_model_len'', CHumanInt),
     (''--tensor-parallel-size'', ''tensor_parallel_size'', CInt),
     (''-tp'', ''tensor_parallel_size'', CInt),
     (''--pipeline-parallel-size'', ''pipeline_parallel_size'', CInt),
     (''-pp'', ''pipeline_parallel_size'', CInt),
     (''--enable-expert-parallel'', ''enable_expert_parallel'', CBool),
     (''--data-parallel-size'', ''data_parallel_size'', CInt),
     (''-dp'', ''data_parallel_size'', CInt),
     (''--gpu-memory-utilization'', ''gpu_memory_utilization'', CFiniteFloat),
     (''--max-num-seqs'', ''max_num_seqs'', CInt),
     (''--seed'', ''seed'', CInt),
     (''--trust-remote-code'', ''trust_remote_code'', CBool),
     (''--enforce-eager'', ''enforce_eager'', CBool),
     (''--enable-prefix-caching'', ''enable_prefix_caching'', CBool),
     (''--port'', ''port'', CInt),
     (''--speculative-model'', ''speculative_model'', CStr),
     (''--num-speculative-tokens'', ''num_speculative_tokens'', CInt),
     (''--speculative-config'', ''speculative_config'', CJsonKv),
     (''--override-generation-config'', ''generation_config_overrides'', CJsonKv)]"

definition vllm_test :: "string option \<Rightarrow> string \<Rightarrow> string list \<Rightarrow> string list option" where
  "vllm_test prev tok rest =
     (if basename tok = ''vllm'' \<and> take 1 rest = [''serve''] then Some (drop 1 rest)
      else if prefix ''vllm.entrypoints.'' tok \<and> py_in ''api_server'' tok then Some rest
      else None)"

definition vllm_server_args :: "string list \<Rightarrow> string list option" where
  "vllm_server_args toks = find_args vllm_test toks"

text \<open>\<^verbatim>\<open>if "k" not in result and positional and not _has_unexpanded_var(positional)\<close>\<close>

definition use_positional :: "string option \<Rightarrow> pyval dict \<Rightarrow> pyval dict" where
  "use_positional positional d =
     (case positional of
        Some p \<Rightarrow> (if dget d ''model_name'' = None \<and> p \<noteq> [] \<and> \<not> has_unexpanded_var p
                  then dset ''model_name'' (VStr p) d else d)
      | None \<Rightarrow> d)"

text \<open>\<^verbatim>\<open>if "quantization" not in result and "model_name" in result\<close>: the quantization that the name
  tells. The model name is a string under every flag map.\<close>

definition add_name_quantization :: "pyval dict \<Rightarrow> pyval dict" where
  "add_name_quantization d =
     (if dget d ''quantization'' = None
      then (case dget d ''model_name'' of
              Some (VStr name) \<Rightarrow>
                (case detect_quantization_from_name name of Some q \<Rightarrow> dupdate d q | None \<Rightarrow> d)
            | _ \<Rightarrow> d)
      else d)"

text \<open>The legacy flags \<^verbatim>\<open>--speculative-model\<close> and \<^verbatim>\<open>--num-speculative-tokens\<close> in the shape of
  \<^verbatim>\<open>--speculative-config\<close>.\<close>

definition spec_config_of :: "pyval dict \<Rightarrow> pyval dict" where
  "spec_config_of d =
     (case dget d ''speculative_model'' of Some m \<Rightarrow> [(''model'', m)] | None \<Rightarrow> [])
     @ (case dget d ''num_speculative_tokens'' of Some n \<Rightarrow> [(''num_speculative_tokens'', n)] | None \<Rightarrow> [])"

definition normalize_speculative :: "pyval dict \<Rightarrow> pyval dict" where
  "normalize_speculative d =
     (if dget d ''speculative_config'' = None
         \<and> (dget d ''speculative_model'' \<noteq> None \<or> dget d ''num_speculative_tokens'' \<noteq> None)
      then dset ''speculative_config'' (VDict (spec_config_of d))
             (ddel ''num_speculative_tokens'' (ddel ''speculative_model'' d))
      else d)"

definition parse_vllm_args :: "string list \<Rightarrow> pyval dict" where
  "parse_vllm_args args =
     (let (parsed, positional) = parse_flags args vllm_arg_map CHR ''-'' False;
          result = dupdate [(''serving_engine'', VStr ''vllm'')] parsed
      in normalize_speculative (add_name_quantization (use_positional positional result)))"

definition detect_vllm_from_command :: "string list \<Rightarrow> pyval dict option" where
  "detect_vllm_from_command toks = map_option parse_vllm_args (vllm_server_args toks)"

text \<open>Image references: \<^verbatim>\<open>_strip_tag_digest\<close> and the patterns of images whose entry point is the
  server.\<close>

definition strip_tag_digest :: "string \<Rightarrow> string" where
  "strip_tag_digest ref =
     (let (head, sep, last) = rpartition_c CHR ''/'' (takeWhile (\<lambda>c. c \<noteq> CHR ''@'') ref)
      in head @ (if sep then ''/'' else []) @ takeWhile (\<lambda>c. c \<noteq> CHR '':'') last)"

definition bos_or_slash :: regex where
  "bos_or_slash = RAlt RBos (rlit ''/'')"

definition vllm_image_re :: regex where
  "vllm_image_re = ralt
     [rseq [bos_or_slash, rlit ''vllm-openai'', REos],
      rseq [bos_or_slash, rlit ''vllm/'', RPlus (none_of ''/''), REos],
      rseq [bos_or_slash, rlit ''llm-d-'', ralt [rlit ''xpu'', rlit ''cpu'', rlit ''rocm''], ROpt (rlit ''-dev''), REos]]"

definition tgi_image_re :: regex where
  "tgi_image_re = ralt
     [rseq [bos_or_slash, rlit ''text-generation-inference'', REos],
      rseq [bos_or_slash, rlit ''tgi'', REos]]"

definition is_vllm_image :: "string \<Rightarrow> bool" where
  "is_vllm_image img \<longleftrightarrow> img \<noteq> [] \<and> re_search vllm_image_re (strip_tag_digest img) \<noteq> None"

definition detect_vllm_from_entrypoint_args :: "container \<Rightarrow> pyval dict option" where
  "detect_vllm_from_entrypoint_args c =
     (if c_command c \<noteq> [] \<or> \<not> is_vllm_image (c_image c) then None
      else (let args = (if take 1 (c_args c) = [''serve''] then drop 1 (c_args c) else c_args c)
            in if args = [] then None else Some (parse_vllm_args args)))"

subsection \<open>TGI, SGLang, LMDeploy\<close>

definition parse_server_args :: "string list \<Rightarrow> string \<Rightarrow> arg_map \<Rightarrow> bool \<Rightarrow> pyval dict" where
  "parse_server_args args engine am positional_model =
     (let (parsed, positional) = parse_flags args am CHR ''-'' False;
          result = dupdate [(''serving_engine'', VStr engine)] parsed
      in add_name_quantization (if positional_model then use_positional positional result else result))"

definition tgi_arg_map :: arg_map where
  "tgi_arg_map =
    [(''--model-id'', ''model_name'', CStr),
     (''--quantize'', ''quantization'', CStr),
     (''--dtype'', ''dtype'', CStr),
     (''--num-shard'', ''tensor_parallel_size'', CInt),
     (''--max-total-tokens'', ''max_model_len'', CInt)]"

definition tgi_test :: "string option \<Rightarrow> string \<Rightarrow> string list \<Rightarrow> string list option" where
  "tgi_test prev tok rest = (if basename tok = ''text-generation-launcher'' then Some rest else None)"

definition tgi_server_args :: "string list \<Rightarrow> string list option" where
  "tgi_server_args toks = find_args tgi_test toks"

definition detect_tgi_from_command :: "string list \<Rightarrow> pyval dict option" where
  "detect_tgi_from_command toks =
     map_option (\<lambda>args. parse_server_args args ''tgi'' tgi_arg_map False) (tgi_server_args toks)"

definition sglang_arg_map :: arg_map where
  "sglang_arg_map =
    [(''--model-path'', ''model_name'', CStr),
     (''--served-model-name'', ''served_model_name'', CStr),
     (''--dtype'', ''dtype'', CStr),
     (''--quantization'', ''quantization'', CStr),
     (''--tp-size'', ''tensor_parallel_size'', CInt),
     (''--tp'', ''tensor_parallel_size'', CInt),
     (''--dp-size'', ''data_parallel_size'', CInt),
     (''--dp'', ''data_parallel_size'', CInt),
     (''--context-length'', ''max_model_len'', CInt),
     (''--mem-fraction-static'', ''gpu_memory_utilization'', CFiniteFloat)]"

definition sglang_test :: "string option \<Rightarrow> string \<Rightarrow> string list \<Rightarrow> string list option" where
  "sglang_test prev tok rest =
     (if prev = Some ''-m'' \<and> (tok = ''sglang.launch_server'' \<or> prefix ''sglang.launch_server'' tok) then Some rest else None)"

definition sglang_server_args :: "string list \<Rightarrow> string list option" where
  "sglang_server_args toks = find_args sglang_test toks"

definition detect_sglang_from_command :: "string list \<Rightarrow> pyval dict option" where
  "detect_sglang_from_command toks =
     map_option (\<lambda>args. parse_server_args args ''sglang'' sglang_arg_map False) (sglang_server_args toks)"

definition lmdeploy_arg_map :: arg_map where
  "lmdeploy_arg_map =
    [(''--model-name'', ''served_model_name'', CStr),
     (''--model-format'', ''quantization'', CStr),
     (''--dtype'', ''dtype'', CStr),
     (''--tp'', ''tensor_parallel_size'', CInt),
     (''--session-len'', ''max_model_len'', CInt),
     (''--cache-max-entry-count'', ''gpu_memory_utilization'', CFiniteFloat)]"

definition lmdeploy_test :: "string option \<Rightarrow> string \<Rightarrow> string list \<Rightarrow> string list option" where
  "lmdeploy_test prev tok rest =
     (let is_bin = (basename tok = ''lmdeploy''); is_mod = (prev = Some ''-m'' \<and> tok = ''lmdeploy'')
      in if (is_bin \<or> is_mod) \<and> take 2 rest = [''serve'', ''api_server''] then Some (drop 2 rest) else None)"

definition lmdeploy_server_args :: "string list \<Rightarrow> string list option" where
  "lmdeploy_server_args toks = find_args lmdeploy_test toks"

definition detect_lmdeploy_from_command :: "string list \<Rightarrow> pyval dict option" where
  "detect_lmdeploy_from_command toks =
     map_option (\<lambda>args. parse_server_args args ''lmdeploy'' lmdeploy_arg_map True) (lmdeploy_server_args toks)"

definition detect_tgi_from_entrypoint_args :: "container \<Rightarrow> pyval dict option" where
  "detect_tgi_from_entrypoint_args c =
     (if c_command c \<noteq> [] \<or> c_image c = [] then None
      else if re_search tgi_image_re (strip_tag_digest (c_image c)) = None then None
      else if c_args c = [] then None
      else Some (parse_server_args (c_args c) ''tgi'' tgi_arg_map False))"

subsection \<open>trl\<close>

definition trl_arg_map :: arg_map where
  "trl_arg_map =
    [(''--model_name_or_path'', ''model_name'', CStr),
     (''--use_peft'', ''use_peft'', CBool),
     (''--lora_r'', ''lora_rank'', CInt),
     (''--lora_alpha'', ''lora_alpha'', CInt),
     (''--use_dora'', ''use_dora'', CBool),
     (''--use_rslora'', ''use_rslora'', CBool),
     (''--load_in_4bit'', ''load_in_4bit'', CBool),
     (''--load_in_8bit'', ''load_in_8bit'', CBool),
     (''--learning_rate'', ''learning_rate'', CFiniteFloat),
     (''--per_device_train_batch_size'', ''batch_size'', CInt),
     (''--num_train_epochs'', ''epochs'', CIntOrFloat),
     (''--seed'', ''random_seed'', CInt)]"

text \<open>\<^verbatim>\<open>re.compile(r"^[a-z][a-z_]*$")\<close>\<close>

definition trl_subcommand_re :: regex where
  "trl_subcommand_re =
     (let lower = (\<lambda>c. is_alpha_ascii c \<and> lower_char c = c)
      in rseq [RBos, RCls lower, RStar (\<lambda>c. lower c \<or> c = CHR ''_''), REos])"

definition trl_test :: "string option \<Rightarrow> string \<Rightarrow> string list \<Rightarrow> string list option" where
  "trl_test prev tok rest =
     (if basename tok = ''trl'' \<and> rest \<noteq> [] \<and> re_match trl_subcommand_re (hd rest) \<noteq> None then Some (tl rest)
      else if prev = Some ''-m'' \<and> (tok = ''trl'' \<or> prefix ''trl.'' tok) then Some rest
      else None)"

definition trl_args :: "string list \<Rightarrow> string list option" where
  "trl_args toks = find_args trl_test toks"

text \<open>\<^verbatim>\<open>result.pop(key, False)\<close> as a truth value.\<close>

definition flag_set :: "pyval dict \<Rightarrow> string \<Rightarrow> bool" where
  "flag_set d k \<longleftrightarrow> truthy (vget d k)"

definition adaptation_method :: "pyval dict \<Rightarrow> string option" where
  "adaptation_method d =
     (if flag_set d ''use_peft'' then
        (if dget d ''lora_rank'' = None then Some ''peft''
         else if flag_set d ''use_dora'' then Some ''dora''
         else if flag_set d ''use_rslora'' then Some ''rslora''
         else if flag_set d ''load_in_4bit'' \<or> flag_set d ''load_in_8bit'' then Some ''qlora''
         else Some ''lora'')
      else None)"

definition parse_trl_args :: "string list \<Rightarrow> pyval dict" where
  "parse_trl_args args =
     (let parsed = fst (parse_flags args trl_arg_map CHR ''_'' True);
          result = dupdate [(''training_framework'', VStr ''trl'')] parsed;
          popped = fold ddel [''use_dora'', ''use_rslora'', ''load_in_4bit'', ''load_in_8bit'', ''use_peft''] result
      in (case adaptation_method result of
            Some m \<Rightarrow> dset ''adaptation_method'' (VStr m) popped
          | None \<Rightarrow> popped))"

definition detect_trl_from_command :: "string list \<Rightarrow> pyval dict option" where
  "detect_trl_from_command toks = map_option parse_trl_args (trl_args toks)"

subsection \<open>The finders as argument finders\<close>

interpretation vllm: arg_finder vllm_test
  by unfold_locales (auto simp: vllm_test_def suffix_drop split: if_splits)

interpretation tgi: arg_finder tgi_test
  by unfold_locales (auto simp: tgi_test_def split: if_splits)

interpretation sglang: arg_finder sglang_test
  by unfold_locales (auto simp: sglang_test_def split: if_splits)

interpretation lmdeploy: arg_finder lmdeploy_test
  by unfold_locales (auto simp: lmdeploy_test_def Let_def suffix_drop split: if_splits)

interpretation trl: arg_finder trl_test
  by unfold_locales (auto simp: trl_test_def suffix_tl split: if_splits)

lemmas server_args_defs = vllm_server_args_def tgi_server_args_def sglang_server_args_def
  lmdeploy_server_args_def trl_args_def

text \<open>a package install in front of a command line changes no detector: with
  \<^verbatim>\<open>pip install ... &&\<close> (or any other package manager) before it, every engine and trl find the same
  arguments as without it.\<close>

theorem finders_skip_package_install:
  assumes "is_separator sep" and "list_all (\<lambda>t. \<not> is_separator t) inst" and "is_package_install inst"
    and "finder \<in> {vllm_server_args, tgi_server_args, sglang_server_args, lmdeploy_server_args, trl_args}"
  shows "finder (inst @ sep # toks) = finder toks"
  using assms(4) vllm.find_args_skips_install [OF assms(1-3)] tgi.find_args_skips_install [OF assms(1-3)]
    sglang.find_args_skips_install [OF assms(1-3)] lmdeploy.find_args_skips_install [OF assms(1-3)]
    trl.find_args_skips_install [OF assms(1-3)]
  by (auto simp: server_args_defs)

theorem finders_skip_package_install_witness:
  "vllm_server_args ([''uv'', ''pip'', ''install'', ''vllm'', ''serve''] @ ''&&'' # [''vllm'', ''serve'', ''m''])
     = vllm_server_args [''vllm'', ''serve'', ''m'']"
  by (rule finders_skip_package_install) (code_simp, code_simp, code_simp, simp)

text \<open>C31: what a detector parses is the tail of one command: the arguments are a proper suffix of a
  single segment of the command line, and that segment is not a package install.\<close>

theorem finders_inside_one_command:
  assumes "finder \<in> {vllm_server_args, tgi_server_args, sglang_server_args, lmdeploy_server_args, trl_args}"
    and "finder toks = Some args"
  shows "\<exists>seg \<in> set (split_segments toks). \<not> is_package_install seg \<and> strict_suffix args seg"
  using assms
  by (auto simp: server_args_defs elim!: vllm.find_args_suffix tgi.find_args_suffix sglang.find_args_suffix
      lmdeploy.find_args_suffix trl.find_args_suffix)

theorem finders_inside_one_command_witness:
  "\<exists>seg \<in> set (split_segments [''cd'', ''/w'', '';'', ''python'', ''-m'', ''sglang.launch_server'', ''--tp'', ''2'']).
     \<not> is_package_install seg \<and> strict_suffix [''--tp'', ''2''] seg"
  by (rule finders_inside_one_command [where finder = sglang_server_args]) (simp, code_simp)

subsection \<open>The parsed arguments\<close>

definition map_names :: "arg_map \<Rightarrow> string list" where
  "map_names am = map (fst \<circ> snd) am"

lemma parse_flags_names:
  "dget (fst (parse_flags args am sep bv)) name = Some x \<Longrightarrow> name \<in> set (map_names am)"
  using parse_flags_loop_inv [of am "[]" sep bv args None True]
  by (force simp: parse_flags_def flags_inv_def map_names_def dest: map_of_SomeD)

lemma parse_flags_other: "name \<notin> set (map_names am) \<Longrightarrow> dget (fst (parse_flags args am sep bv)) name = None"
  using parse_flags_names by fastforce

lemma parse_flags_ok: "dict_ok (fst (parse_flags args am sep bv))"
  using parse_flags_loop_inv [of am "[]" sep bv args None True] by (simp add: parse_flags_def flags_inv_def)

text \<open>The steps after parsing leave the other keys alone.\<close>

lemma dget_use_positional: "k \<noteq> ''model_name'' \<Longrightarrow> dget (use_positional p d) k = dget d k"
  by (simp add: use_positional_def split: option.splits)

lemma dget_add_name_quantization:
  assumes "k \<notin> {''quantization_method'', ''quantization_bits''}"
  shows "dget (add_name_quantization d) k = dget d k"
proof -
  have "dget q k = None" if "detect_quantization_from_name n = Some q" for n q
    using detect_quantization_keys [OF that] assms by (auto simp: dget_None_iff)
  then show ?thesis
    using detect_quantization_keys by (auto simp: add_name_quantization_def dget_dupdate_ok split: option.splits pyval.splits)
qed

lemma dget_normalize_speculative:
  "k \<notin> {''speculative_config'', ''speculative_model'', ''num_speculative_tokens''} \<Longrightarrow>
     dget (normalize_speculative d) k = dget d k"
  by (simp add: normalize_speculative_def)

lemma normalize_speculative_absent:
  "dget (normalize_speculative d) ''speculative_config'' = None \<Longrightarrow>
     dget (normalize_speculative d) ''speculative_model'' = None
     \<and> dget (normalize_speculative d) ''num_speculative_tokens'' = None"
  by (simp add: normalize_speculative_def split: if_splits)

lemma normalize_speculative_legacy:
  "dget d ''speculative_config'' = None \<Longrightarrow> dget d ''speculative_model'' = Some m \<Longrightarrow>
     dget (normalize_speculative d) ''speculative_config'' = Some (VDict (spec_config_of d))"
  by (simp add: normalize_speculative_def)

lemma dget_spec_config_of:
  "dget d ''speculative_model'' = Some m \<Longrightarrow> dget (spec_config_of d) ''model'' = Some m"
  "dget (spec_config_of d) ''num_speculative_tokens'' = dget d ''num_speculative_tokens''"
  by (simp_all add: spec_config_of_def dget_Cons split: option.split)

text \<open>The dictionary before the quantization and speculation steps.\<close>

abbreviation engine_result :: "string \<Rightarrow> string list \<Rightarrow> arg_map \<Rightarrow> pyval dict" where
  "engine_result engine args am \<equiv>
     dupdate [(''serving_engine'', VStr engine)] (fst (parse_flags args am CHR ''-'' False))"

lemma dget_engine_result:
  "dget (engine_result engine args am) k =
     (case dget (fst (parse_flags args am CHR ''-'' False)) k of
        Some v \<Rightarrow> Some v
      | None \<Rightarrow> if k = ''serving_engine'' then Some (VStr engine) else None)"
  by (simp add: dget_dupdate_ok parse_flags_ok dget_Cons split: option.split)

lemma parse_vllm_args_eq:
  "parse_vllm_args args =
     normalize_speculative (add_name_quantization
       (use_positional (snd (parse_flags args vllm_arg_map CHR ''-'' False)) (engine_result ''vllm'' args vllm_arg_map)))"
  by (simp add: parse_vllm_args_def split: prod.splits)

lemma vllm_map_names: "''serving_engine'' \<notin> set (map_names vllm_arg_map)"
  by code_simp

text \<open>a detected vLLM server is always reported as the engine \<^verbatim>\<open>vllm\<close>, and its speculative decoding
  has one shape: the legacy flags never appear beside a missing \<^verbatim>\<open>speculative_config\<close>, and a legacy
  draft model without an explicit configuration becomes that configuration's \<^verbatim>\<open>model\<close>.\<close>

theorem vllm_result_shape:
  assumes "d = parse_vllm_args args" and "parsed = fst (parse_flags args vllm_arg_map CHR ''-'' False)"
  shows "dget d ''serving_engine'' = Some (VStr ''vllm'')
    \<and> (dget d ''speculative_config'' = None \<longrightarrow>
         dget d ''speculative_model'' = None \<and> dget d ''num_speculative_tokens'' = None)
    \<and> (dget parsed ''speculative_config'' = None \<longrightarrow> dget parsed ''speculative_model'' = Some m \<longrightarrow>
         (\<exists>cfg. dget d ''speculative_config'' = Some (VDict cfg) \<and> dget cfg ''model'' = Some m
            \<and> dget cfg ''num_speculative_tokens'' = dget parsed ''num_speculative_tokens''))"
proof -
  let ?r = "add_name_quantization (use_positional (snd (parse_flags args vllm_arg_map CHR ''-'' False))
    (engine_result ''vllm'' args vllm_arg_map))"
  have d: "d = normalize_speculative ?r" using assms(1) by (simp only: parse_vllm_args_eq)
  have r: "dget ?r k = dget (engine_result ''vllm'' args vllm_arg_map) k"
    if "k \<notin> {''quantization_method'', ''quantization_bits'', ''model_name''}" for k
    using that by (simp add: dget_add_name_quantization dget_use_positional)
  have e: "dget ?r ''serving_engine'' = Some (VStr ''vllm'')"
    unfolding r [of "''serving_engine''", simplified] dget_engine_result
    using parse_flags_other [OF vllm_map_names] by simp
  have k: "dget ?r k = dget parsed k"
    if "k \<in> {''speculative_config'', ''speculative_model'', ''num_speculative_tokens''}" for k
    using that assms(2) by (auto simp: r dget_engine_result split: option.splits)
  have 1: "dget d ''serving_engine'' = Some (VStr ''vllm'')"
    unfolding d using e by (simp add: dget_normalize_speculative)
  have 2: "dget d ''speculative_config'' = None \<longrightarrow>
      dget d ''speculative_model'' = None \<and> dget d ''num_speculative_tokens'' = None"
    unfolding d using normalize_speculative_absent by blast
  have "dget d ''speculative_config'' = Some (VDict (spec_config_of ?r)) \<and> dget (spec_config_of ?r) ''model'' = Some m
      \<and> dget (spec_config_of ?r) ''num_speculative_tokens'' = dget parsed ''num_speculative_tokens''"
    if c: "dget parsed ''speculative_config'' = None" and m: "dget parsed ''speculative_model'' = Some m"
    unfolding d using normalize_speculative_legacy [of ?r m] dget_spec_config_of [of ?r] k c m by simp
  with 1 2 show ?thesis by blast
qed

theorem vllm_result_shape_witness:
  "\<exists>cfg. dget (parse_vllm_args [''m'', ''--speculative-model'', ''draft'']) ''speculative_config'' = Some (VDict cfg)
     \<and> dget cfg ''model'' = Some (VStr ''draft'')"
proof -
  have "dget (fst (parse_flags [''m'', ''--speculative-model'', ''draft''] vllm_arg_map CHR ''-'' False)) ''speculative_config'' = None"
    "dget (fst (parse_flags [''m'', ''--speculative-model'', ''draft''] vllm_arg_map CHR ''-'' False)) ''speculative_model''
       = Some (VStr ''draft'')"
    by code_simp+
  then show ?thesis
    using vllm_result_shape [OF refl refl, where m = "VStr ''draft''" and args = "[''m'', ''--speculative-model'', ''draft'']"]
    by blast
qed

text \<open>a key-value speculative configuration is not filtered like a float flag: a \<^verbatim>\<open>nan\<close> in it is
  recorded as the float NaN, which no JSON document and no canonical form can hold.\<close>

theorem speculative_config_keeps_nan:
  "dget (parse_vllm_args [''--speculative-config'', ''top_p=nan'']) ''speculative_config''
     = Some (VDict [(''top_p'', VFloat NaN)])"
  by code_simp

text \<open>trl's adaptation method is derived from the flags and the flags themselves are not reported:
  the five switches never remain in the result, and the method is present exactly for a PEFT run,
  with DoRA before rsLoRA before quantized LoRA before plain LoRA.\<close>

theorem trl_adaptation:
  assumes "parsed = fst (parse_flags args trl_arg_map CHR ''_'' True)" and "d = parse_trl_args args"
  shows "dget d ''adaptation_method'' =
      (if \<not> flag_set parsed ''use_peft'' then None
       else Some (VStr (if dget parsed ''lora_rank'' = None then ''peft''
                        else if flag_set parsed ''use_dora'' then ''dora''
                        else if flag_set parsed ''use_rslora'' then ''rslora''
                        else if flag_set parsed ''load_in_4bit'' \<or> flag_set parsed ''load_in_8bit'' then ''qlora''
                        else ''lora'')))
    \<and> (\<forall>k \<in> {''use_dora'', ''use_rslora'', ''load_in_4bit'', ''load_in_8bit'', ''use_peft''}. dget d k = None)
    \<and> (\<forall>k \<in> {''model_name'', ''lora_rank'', ''lora_alpha'', ''learning_rate'', ''batch_size'', ''epochs'', ''random_seed''}.
         dget d k = dget parsed k)"
proof -
  let ?r = "dupdate [(''training_framework'', VStr ''trl'')] parsed"
  have ok: "dict_ok parsed" using assms(1) by (simp add: parse_flags_ok)
  have n: "''training_framework'' \<notin> set (map_names trl_arg_map)" "''adaptation_method'' \<notin> set (map_names trl_arg_map)"
    by code_simp+
  have r: "dget ?r k = dget parsed k" if "k \<noteq> ''training_framework''" for k
    using that ok by (simp add: dget_dupdate_ok dget_Cons split: option.split)
  have a: "dget parsed ''adaptation_method'' = None" using assms(1) parse_flags_other [OF n(2)] by simp
  have f: "flag_set ?r k = flag_set parsed k" if "k \<noteq> ''training_framework''" for k
    using r [OF that] by (simp add: flag_set_def vget_def)
  let ?pop = "fold ddel [''use_dora'', ''use_rslora'', ''load_in_4bit'', ''load_in_8bit'', ''use_peft''] ?r"
  have m: "adaptation_method ?r = adaptation_method parsed" by (simp add: adaptation_method_def f r)
  have d: "d = (case adaptation_method parsed of Some m \<Rightarrow> dset ''adaptation_method'' (VStr m) ?pop | None \<Rightarrow> ?pop)"
    unfolding assms(2) parse_trl_args_def Let_def assms(1) [symmetric] m ..
  have p: "dget ?pop k = (if k \<in> {''use_dora'', ''use_rslora'', ''load_in_4bit'', ''load_in_8bit'', ''use_peft''}
      then None else dget ?r k)" for k by simp
  have 1: "dget d ''adaptation_method'' = map_option VStr (adaptation_method parsed)"
    unfolding d using p [of "''adaptation_method''"] r a by (simp split: option.split)
  have 2: "dget d k = dget ?pop k" if "k \<noteq> ''adaptation_method''" for k
    unfolding d using that by (simp split: option.split)
  show ?thesis
    using 1 by (simp add: 2 p r adaptation_method_def)
qed

theorem trl_adaptation_witness:
  "dget (parse_trl_args [''--use_peft'', ''--lora_r'', ''8'', ''--load-in-4bit'', ''true'']) ''adaptation_method''
     = Some (VStr ''qlora'')"
proof -
  let ?a = "[''--use_peft'', ''--lora_r'', ''8'', ''--load-in-4bit'', ''true'']"
  let ?p = "fst (parse_flags ?a trl_arg_map CHR ''_'' True)"
  have f: "flag_set ?p ''use_peft''" "dget ?p ''lora_rank'' = Some (VInt 8)" "\<not> flag_set ?p ''use_dora''"
    "\<not> flag_set ?p ''use_rslora''" "flag_set ?p ''load_in_4bit''"
    by code_simp+
  then show ?thesis using trl_adaptation [OF refl refl, of ?a] by simp
qed

end
