(* ===== verification/ModelDetect.thy ===== *)
theory ModelDetect
  imports Serving
begin

text \<open>
  The distributed-training strategy, the model declared by an InferenceService's storage, the
  dataset flags, and \<^verbatim>\<open>detect_model_from_containers\<close> of \<^verbatim>\<open>postprocess/postprocess.py\<close>, which loops
  over the containers and keeps the first model and the first strategy that it finds.
\<close>

subsection \<open>Parallelization\<close>

definition launchers :: "(string \<times> string) list" where
  "launchers = [(''accelerate'', ''accelerate''), (''deepspeed'', ''deepspeed''), (''torchrun'', ''torchrun''),
     (''mpirun'', ''mpirun''), (''mpiexec'', ''mpirun'')]"

definition launcher_modules :: "(string \<times> string) list" where
  "launcher_modules = [(''torch.distributed.run'', ''torchrun''), (''torch.distributed.launch'', ''torchrun''),
     (''accelerate.commands.launch'', ''accelerate'')]"

fun find_flag_value :: "string list \<Rightarrow> string list \<Rightarrow> string option" where
  "find_flag_value [] names = None"
| "find_flag_value (tok # rest) names =
     (if prefix ''--'' tok \<and> CHR ''='' \<in> set tok then
        (let (key, _, val) = partition_c CHR ''='' tok
         in if key \<in> set names then Some val else find_flag_value rest names)
      else if tok \<in> set names \<and> rest \<noteq> [] then Some (hd rest)
      else find_flag_value rest names)"

definition accelerate_config_strategies :: "(string \<times> string option) list" where
  "accelerate_config_strategies =
     [(''fsdp1'', Some ''fsdp''), (''fsdp2'', Some ''fsdp''), (''zero1'', Some ''deepspeed''),
      (''zero2'', Some ''deepspeed''), (''zero3'', Some ''deepspeed''), (''multi_gpu'', Some ''data_parallel''),
      (''single_gpu'', None)]"

text \<open>The module after the first \<^verbatim>\<open>-m\<close> that has a token after it: the outer \<^const>\<open>None\<close> is no such \<^verbatim>\<open>-m\<close>.\<close>

fun module_of :: "string list \<Rightarrow> string option" where
  "module_of (tok # m # rest) = (if tok = ''-m'' then Some m else module_of (m # rest))"
| "module_of _ = None"

definition launcher_of :: "string list \<Rightarrow> string option" where
  "launcher_of seg =
     (case from_command_word seg of
        [] \<Rightarrow> None
      | w # rest \<Rightarrow>
          (let word = basename w
           in case (if prefix ''python'' word then module_of rest else None) of
                Some m \<Rightarrow> map_of launcher_modules m
              | None \<Rightarrow> map_of launchers word))"

definition is_single_process_launch :: "string \<Rightarrow> string list \<Rightarrow> bool" where
  "is_single_process_launch launcher toks =
     (if launcher = ''torchrun'' then
        (let nproc = find_flag_value toks [''--nproc_per_node''];
             nnodes = (case nonempty (find_flag_value toks [''--nnodes'']) of Some n \<Rightarrow> n | None \<Rightarrow> ''1'')
         in nproc = Some ''1'' \<and> nnodes \<in> {''1'', ''1:1''})
      else if launcher = ''mpirun'' then find_flag_value toks [''-np'', ''-n'', ''--np''] = Some ''1''
      else False)"

text \<open>\<^verbatim>\<open>os.path.splitext(name)[0]\<close>: cut at the last dot, unless only dots precede it.\<close>

definition splitext_root :: "string \<Rightarrow> string" where
  "splitext_root name =
     (let (root, dot, _) = rpartition_c CHR ''.'' name
      in if dot \<and> (\<exists>c \<in> set root. c \<noteq> CHR ''.'') then root else name)"

definition try_int :: "string option \<Rightarrow> int option" where
  "try_int v = Option.bind v py_int"

definition segment_parallelization :: "string list \<Rightarrow> string option" where
  "segment_parallelization seg =
     (let toks = map underscore_flag seg;
          launcher = launcher_of seg;
          has_fsdp = list_ex (\<lambda>t. t \<in> {''--fsdp'', ''--use_fsdp''} \<or> prefix ''--fsdp='' t) toks;
          has_deepspeed_flag = list_ex (\<lambda>t. t \<in> {''--deepspeed'', ''--use_deepspeed''}
             \<or> prefix ''--deepspeed='' t \<or> prefix ''--deepspeed_config_file'' t) toks;
          has_multi_gpu = ''--multi_gpu'' \<in> set toks;
          num_processes = try_int (find_flag_value toks [''--num_processes'']);
          config_flags = (if launcher = Some ''accelerate'' then [''--accelerate_config'', ''--config_file'']
                          else [''--accelerate_config'']);
          config_name = map_option (\<lambda>p. splitext_root (basename p)) (nonempty (find_flag_value toks config_flags))
      in if has_fsdp then Some ''fsdp''
         else if has_deepspeed_flag \<or> launcher = Some ''deepspeed'' then Some ''deepspeed''
         else (case Option.bind config_name (map_of accelerate_config_strategies) of
                 Some strategy \<Rightarrow> strategy
               | None \<Rightarrow>
                   (if has_multi_gpu then Some ''data_parallel''
                    else if (case launcher of
                               Some l \<Rightarrow> l \<in> {''torchrun'', ''mpirun''} \<and> \<not> is_single_process_launch l toks
                             | None \<Rightarrow> False) then Some ''data_parallel''
                    else if (case num_processes of Some n \<Rightarrow> 1 < n | None \<Rightarrow> False) then Some ''data_parallel''
                    else None)))"

definition detect_parallelization_from_command :: "string list \<Rightarrow> pyval dict option" where
  "detect_parallelization_from_command toks =
     map_option (\<lambda>s. [(''parallelization_strategy'', VStr s)])
       (first_some segment_parallelization (invocation_segments toks))"

subsection \<open>The model that the storage declares\<close>

text \<open>\<^verbatim>\<open>re.compile(r"^([^/@:]+(?:/[^/@:]+)?)(?:[@:]([^/]+))?(?:/.*)?$")\<close>\<close>

definition hf_uri_re :: regex where
  "hf_uri_re = rseq [RBos,
     RGroup 1 (RSeq (RPlus (none_of ''/@:'')) (ROpt (RSeq (rlit ''/'') (RPlus (none_of ''/@:''))))),
     ROpt (RSeq (RCls (one_of ''@:'')) (RGroup 2 (RPlus (none_of ''/'')))),
     ROpt (RSeq (rlit ''/'') (RStar (\<lambda>c. c \<noteq> CHR 0x0A))), REos]"

definition parse_storage_uri :: "string option \<Rightarrow> (string \<times> string option \<times> string) option" where
  "parse_storage_uri u =
     (case nonempty u of
        None \<Rightarrow> None
      | Some uri \<Rightarrow>
          (if prefix ''hf://'' uri then
             (case re_match hf_uri_re (strip_p (\<lambda>c. c = CHR ''/'') (drop 5 uri)) of
                Some m \<Rightarrow> (case group 1 m of Some name \<Rightarrow> Some (name, group 2 m, ''hf_uri'') | None \<Rightarrow> None)
              | None \<Rightarrow> None)
           else if prefix ''oci://'' uri then
             (let ref = strip_tag_digest (drop 6 uri) in if ref \<noteq> [] then Some (ref, None, ''oci_uri'') else None)
           else None))"

definition image_digest :: "string option \<Rightarrow> string option" where
  "image_digest image_id =
     (case nonempty image_id of
        Some s \<Rightarrow> (if py_in ''@sha256:'' s then Some (snd (snd (rpartition_c CHR ''@'' s))) else None)
      | None \<Rightarrow> None)"

text \<open>\<^verbatim>\<open>storage.json\<close>, written by the discovery container. \<^verbatim>\<open>architectures\<close> is whatever the model's
  \<^verbatim>\<open>config.json\<close> has under that key; \<^const>\<open>VNone\<close> where it is absent.\<close>

record model_files =
  mf_repo_id :: "string option"
  mf_dtype :: "string option"
  mf_architectures :: pyval
  mf_revision :: "string option"
  mf_base_model :: "string option"
  mf_total_size :: "int option"

definition no_files :: model_files where
  "no_files = \<lparr>mf_repo_id = None, mf_dtype = None, mf_architectures = VNone, mf_revision = None,
     mf_base_model = None, mf_total_size = None\<rparr>"

record storage_info =
  st_path :: "string option"
  st_uri :: "string option"
  st_files :: "model_files option"

datatype py_exc = KeyError | TypeError

text \<open>\<^verbatim>\<open>files["architectures"][0]\<close> of a value that is true.\<close>

fun first_item :: "pyval \<Rightarrow> py_exc + pyval" where
  "first_item (VList (x # _)) = Inr x"
| "first_item (VStr (c # _)) = Inr (VStr [c])"
| "first_item (VDict _) = Inl KeyError"
| "first_item _ = Inl TypeError"

text \<open>The name, where it was declared, and the revision that the URI pins. The revision of an
  \<^verbatim>\<open>oci://\<close> model is the digest that the container running that image was resolved to.\<close>

definition storage_model_name ::
  "storage_info \<Rightarrow> container list \<Rightarrow> (string \<times> string \<times> string option) option" where
  "storage_model_name st cs =
     (let files = (case st_files st of Some f \<Rightarrow> f | None \<Rightarrow> no_files);
          location = (case nonempty (st_path st) of Some p \<Rightarrow> Some p | None \<Rightarrow> nonempty (st_uri st));
          parsed = (if nonempty (st_path st) \<noteq> None then None else parse_storage_uri (st_uri st))
      in case nonempty (mf_repo_id files) of
           Some r \<Rightarrow> Some (r, ''model_files_readme'', None)
         | None \<Rightarrow>
             (case parsed of
                Some (name, revn, via) \<Rightarrow>
                  (let image_ref = drop 6 (case st_uri st of Some u \<Rightarrow> u | None \<Rightarrow> []);
                       pulled = first_some (\<lambda>c. if c_image c = image_ref then image_digest (Some (c_image_id c)) else None) cs
                   in if name = [] then None
                      else Some (name, via, if via = ''oci_uri'' \<and> pulled \<noteq> None then pulled else revn))
              | None \<Rightarrow>
                  (case location of
                     Some l \<Rightarrow>
                       (let name = last (split_c CHR ''/'' (rstrip_p (\<lambda>c. c = CHR ''/'') l))
                        in if name = [] then None else Some (name, ''storage_path'', None))
                   | None \<Rightarrow> None)))"

definition add_str :: "string \<Rightarrow> string option \<Rightarrow> pyval dict \<Rightarrow> pyval dict" where
  "add_str k v d = (case nonempty v of Some s \<Rightarrow> dset k (VStr s) d | None \<Rightarrow> d)"

definition detect_model_from_storage ::
  "storage_info option \<Rightarrow> container list \<Rightarrow> py_exc + pyval dict option" where
  "detect_model_from_storage storage cs =
     (case storage of
        None \<Rightarrow> Inr None
      | Some st \<Rightarrow>
          (case storage_model_name st cs of
             None \<Rightarrow> Inr None
           | Some (model_name, name_source, uri_revision) \<Rightarrow>
               (let files = (case st_files st of Some f \<Rightarrow> f | None \<Rightarrow> no_files);
                    r0 = [(''model_name'', VStr model_name), (''model_name_declared_via'', VStr name_source)];
                    r1 = (case detect_quantization_from_name model_name of Some q \<Rightarrow> dupdate r0 q | None \<Rightarrow> r0);
                    r2 = add_str ''dtype'' (mf_dtype files) r1
                in case (if truthy (mf_architectures files)
                         then map_sum id (\<lambda>a. dset ''architecture'' a r2) (first_item (mf_architectures files))
                         else Inr r2) of
                     Inl e \<Rightarrow> Inl e
                   | Inr r3 \<Rightarrow>
                       (let r4 = add_str ''model_revision'' (orelse (nonempty (mf_revision files)) uri_revision) r3;
                            r5 = add_str ''base_model'' (mf_base_model files) r4
                        in Inr (Some (case mf_total_size files of
                                        Some n \<Rightarrow> (if n \<noteq> 0 then dset ''model_size_bytes'' (VInt n) r5 else r5)
                                      | None \<Rightarrow> r5))))))"

subsection \<open>All containers\<close>

definition detect_model_of :: "container \<Rightarrow> pyval dict option" where
  "detect_model_of c =
     (let toks = flatten_container_command c
      in orelse (detect_vllm_from_command toks)
           (orelse (detect_tgi_from_command toks)
             (orelse (detect_sglang_from_command toks)
               (orelse (detect_lmdeploy_from_command toks)
                 (orelse (detect_trl_from_command toks)
                   (orelse (detect_vllm_from_entrypoint_args c) (detect_tgi_from_entrypoint_args c)))))))"

fun detect_loop ::
  "pyval dict option \<Rightarrow> pyval dict option \<Rightarrow> container list \<Rightarrow> pyval dict option \<times> pyval dict option" where
  "detect_loop m p [] = (m, p)"
| "detect_loop m p (c # cs) =
     (let toks = flatten_container_command c;
          m' = (if m = None then detect_model_of c else m);
          p' = (if p = None then detect_parallelization_from_command toks else p)
      in if m' \<noteq> None \<and> p' \<noteq> None then (m', p') else detect_loop m' p' cs)"

definition detect_model_from_containers :: "container list \<Rightarrow> pyval dict" where
  "detect_model_from_containers cs =
     (let (m, p) = detect_loop None None cs;
          result = (case m of Some d \<Rightarrow> d | None \<Rightarrow> [])
      in case p of Some d \<Rightarrow> dupdate result d | None \<Rightarrow> result)"

subsection \<open>Dataset flags\<close>

definition dataset_arg_map :: "(string \<times> string) list" where
  "dataset_arg_map =
     [(''--dataset_name'', ''dataset_name''), (''--dataset-name'', ''dataset_name''),
      (''--dataset_config_name'', ''dataset_config''), (''--dataset-config-name'', ''dataset_config''),
      (''--dataset_train_split'', ''dataset_split''), (''--dataset-train-split'', ''dataset_split'')]"

fun dataset_flags :: "string list \<Rightarrow> string dict \<Rightarrow> string dict" where
  "dataset_flags [] d = d"
| "dataset_flags (tok # rest) d =
     (let (key, eq, val) = partition_c CHR ''='' tok;
          (k, v) = (if prefix ''--'' tok \<and> eq then (key, Some val) else (tok, None));
          v' = (if v = None \<and> rest \<noteq> [] \<and> \<not> prefix ''--'' (hd rest) then Some (hd rest) else v)
      in dataset_flags rest
           (case map_of dataset_arg_map k of
              None \<Rightarrow> d
            | Some name \<Rightarrow> (case v' of Some x \<Rightarrow> dset name x d | None \<Rightarrow> d)))"

definition detect_dataset_from_command :: "string list \<Rightarrow> string dict option" where
  "detect_dataset_from_command toks =
     (let d = dataset_flags toks [] in if nonempty (dget d ''dataset_name'') \<noteq> None then Some d else None)"

definition detect_dataset_from_containers :: "container list \<Rightarrow> string dict option" where
  "detect_dataset_from_containers cs =
     first_some (\<lambda>c. detect_dataset_from_command (flatten_container_command c)) cs"

definition dataset_key :: "string \<Rightarrow> string" where
  "dataset_key s = py_lower (rstrip_p (\<lambda>c. c = CHR ''/'') (py_strip s))"

definition dataset_names_match :: "string option \<Rightarrow> string option \<Rightarrow> bool" where
  "dataset_names_match detected declared =
     (case (nonempty detected, nonempty declared) of
        (Some x, Some y) \<Rightarrow>
          (let a = dataset_key x; b = dataset_key y
           in if a = b then True
              else if CHR ''/'' \<in> set a \<and> CHR ''/'' \<in> set b then False
              else basename a = basename b)
      | _ \<Rightarrow> False)"

subsection \<open>Properties\<close>

lemma detect_loop_first:
  "detect_loop m p cs =
     (orelse m (first_some detect_model_of cs),
      orelse p (first_some (\<lambda>c. detect_parallelization_from_command (flatten_container_command c)) cs))"
proof (induction cs arbitrary: m p)
  case (Cons c cs)
  show ?case
    using Cons.IH
    by (cases m; cases p; cases "detect_model_of c";
        cases "detect_parallelization_from_command (flatten_container_command c)") simp_all
qed (cases m; simp)

text \<open>the loop over the containers, which stops as soon as it has both, computes the first model that
  any container declares and, independently of it, the first parallelization strategy.\<close>

theorem detect_model_from_containers_first:
  "detect_model_from_containers cs =
     (let result = (case first_some detect_model_of cs of Some d \<Rightarrow> d | None \<Rightarrow> [])
      in case first_some (\<lambda>c. detect_parallelization_from_command (flatten_container_command c)) cs of
           Some p \<Rightarrow> dupdate result p
         | None \<Rightarrow> result)"
  by (simp add: detect_model_from_containers_def detect_loop_first Let_def split: option.split)

lemma accelerate_strategy_range:
  "map_of accelerate_config_strategies n = Some (Some s) \<Longrightarrow> s \<in> {''fsdp'', ''deepspeed'', ''data_parallel''}"
  by (drule map_of_SomeD) (auto simp: accelerate_config_strategies_def)

lemma strategy_cases:
  "(if a then Some x else if b then Some y
    else (case cfg of Some strategy \<Rightarrow> strategy
          | None \<Rightarrow> if c then Some z else if d then Some z else if e then Some z else None)) = Some s
   \<Longrightarrow> s \<in> {x, y, z} \<or> cfg = Some (Some s)"
  by (auto split: if_splits option.splits)

lemma segment_parallelization_range:
  assumes "segment_parallelization seg = Some s"
  shows "s \<in> {''fsdp'', ''deepspeed'', ''data_parallel''}"
  using strategy_cases [OF assms [unfolded segment_parallelization_def Let_def]] accelerate_strategy_range
  by (auto simp only: bind_eq_Some_conv)

text \<open>a package install in front of the command line does not change the detected strategy
  (\<^verbatim>\<open>pip install deepspeed\<close> launches nothing), and a detected strategy is one of the three names.\<close>

theorem parallelization_detected:
  assumes "is_separator sep" and "list_all (\<lambda>t. \<not> is_separator t) inst" and "is_package_install inst"
  shows "detect_parallelization_from_command (inst @ sep # toks) = detect_parallelization_from_command toks
    \<and> (detect_parallelization_from_command toks = None \<or>
       (\<exists>s \<in> {''fsdp'', ''deepspeed'', ''data_parallel''}.
          detect_parallelization_from_command toks = Some [(''parallelization_strategy'', VStr s)]))"
proof -
  have "inst \<noteq> []" using assms(3) by (auto simp: is_package_install_def from_command_word_def)
  then have "split_segments (inst @ sep # toks) = inst # split_segments toks"
    using assms by (simp add: split_segments_append split_segments_plain)
  then have "invocation_segments (inst @ sep # toks) = invocation_segments toks"
    using assms(3) by (simp add: invocation_segments_def)
  moreover have "s \<in> {''fsdp'', ''deepspeed'', ''data_parallel''}"
    if "first_some segment_parallelization segs = Some s" for segs s
    using first_some_SomeD [OF that] segment_parallelization_range by blast
  ultimately show ?thesis unfolding detect_parallelization_from_command_def
    by (cases "first_some segment_parallelization (invocation_segments toks)") auto
qed

theorem parallelization_detected_witness:
  "detect_parallelization_from_command ([''pip'', ''install'', ''deepspeed''] @ ''&&'' # [''torchrun'', ''train.py''])
     = detect_parallelization_from_command [''torchrun'', ''train.py'']"
proof -
  have "is_separator ''&&''" "list_all (\<lambda>t. \<not> is_separator t) [''pip'', ''install'', ''deepspeed'']"
    "is_package_install [''pip'', ''install'', ''deepspeed'']" by code_simp+
  from parallelization_detected [OF this, of "[''torchrun'', ''train.py'']"] show ?thesis by blast
qed

text \<open>one process under a launcher is not data parallelism: \<^verbatim>\<open>torchrun --nproc_per_node=1 script\<close> has no
  strategy, in either spelling of the flag.\<close>

theorem single_process_torchrun:
  assumes "flag \<in> {''--nproc_per_node=1'', ''--nproc-per-node=1''}" and "\<not> prefix ''-'' script"
  shows "segment_parallelization [''torchrun'', flag, script] = None"
proof -
  have u1: "underscore_flag ''torchrun'' = ''torchrun''" "underscore_flag flag = ''--nproc_per_node=1''"
    using assms(1) by (auto, code_simp+)
  have nf: "\<not> is_flag_token script" using assms(2) by (simp add: is_flag_token_def)
  have t: "map underscore_flag [''torchrun'', flag, script] = [''torchrun'', ''--nproc_per_node=1'', script]"
    using u1 underscore_flag_value [OF nf] by simp
  have l: "launcher_of [''torchrun'', flag, script] = Some ''torchrun''"
  proof -
    have "re_match assignment_re ''torchrun'' = None" "''torchrun'' \<notin> set command_prefixes" "basename ''torchrun'' = ''torchrun''"
      "map_of launchers ''torchrun'' = Some ''torchrun''" by code_simp+
    then show ?thesis by (simp add: launcher_of_def from_command_word_def)
  qed
  have dd: "\<not> prefix (CHR ''-'' # x) script" for x using assms(2) by (auto simp: prefix_def)
  have ne: "script \<noteq> CHR ''-'' # x" "CHR ''-'' # x \<noteq> script" for x using assms(2) by auto
  have f: "find_flag_value [''torchrun'', ''--nproc_per_node=1'', script] names =
      (if ''torchrun'' \<in> set names then Some ''--nproc_per_node=1''
       else if ''--nproc_per_node'' \<in> set names then Some ''1'' else None)" for names
    using dd by (simp add: partition_c_def)
  show ?thesis
    unfolding segment_parallelization_def t l Let_def f
    using dd ne by (simp add: is_single_process_launch_def f try_int_def Let_def del: find_flag_value.simps)
qed

theorem single_process_torchrun_witness:
  "segment_parallelization [''torchrun'', ''--nproc-per-node=1'', ''train.py''] = None"
  by (rule single_process_torchrun) simp_all

text \<open>the architectures entry of a model directory's \<^verbatim>\<open>config.json\<close> is indexed without a check of its
  type: an object there ends the detection, and with it the program, with a \<^verbatim>\<open>KeyError\<close>, whatever name
  the storage declares.\<close>

theorem storage_architectures_object:
  assumes "storage_model_name st cs = Some nvr" and "st_files st = Some files"
    and "mf_architectures files = VDict (kv # kvs)"
  shows "detect_model_from_storage (Some st) cs = Inl KeyError"
  using assms by (cases nvr) (simp add: detect_model_from_storage_def Let_def)

theorem storage_architectures_object_witness:
  "detect_model_from_storage
     (Some \<lparr>st_path = Some ''models/m'', st_uri = None, st_files = Some (no_files\<lparr>mf_architectures := VDict [(''a'', VNone)]\<rparr>)\<rparr>) []
    = Inl KeyError"
  by (rule storage_architectures_object [where nvr = "(''m'', ''storage_path'', None)"])
    (code_simp, simp, simp add: no_files_def)

text \<open>a dataset name matches itself and matching is symmetric; a bare name matches the same name under
  an organisation; two names under different organisations or directories never match.\<close>

theorem dataset_match_laws:
  "dataset_names_match a b = dataset_names_match b a
   \<and> (nonempty a \<noteq> None \<longrightarrow> dataset_names_match a a)
   \<and> (CHR ''/'' \<in> set (dataset_key x) \<longrightarrow> CHR ''/'' \<in> set (dataset_key y) \<longrightarrow>
        dataset_names_match (Some x) (Some y) \<longrightarrow> dataset_key x = dataset_key y)
   \<and> (x \<noteq> [] \<longrightarrow> y \<noteq> [] \<longrightarrow> dataset_key x = basename (dataset_key y) \<longrightarrow> dataset_names_match (Some x) (Some y))"
proof -
  have ne: "nonempty (Some z) = (if z = [] then None else Some z)" for z by (cases z) simp_all
  have s: "dataset_names_match a b = dataset_names_match b a"
    by (auto simp: dataset_names_match_def Let_def split: option.splits)
  have b: "basename (basename z) = basename z" for z by (simp add: basename_plain basename_no_slash)
  have n: "CHR ''/'' \<notin> set (basename z)" for z by (rule basename_no_slash)
  show ?thesis
    using s by (auto simp: dataset_names_match_def Let_def ne b n split: option.splits if_splits)
qed

theorem dataset_match_laws_witness:
  "dataset_names_match (Some ''imdb'') (Some ''stanfordnlp/imdb'')"
proof -
  have "dataset_key ''imdb'' = basename (dataset_key ''stanfordnlp/imdb'')" by code_simp
  then show ?thesis using dataset_match_laws [of None None "''imdb''" "''stanfordnlp/imdb''"] by simp
qed

end
