(* ===== verification/Registry.thy ===== *)
theory Registry
  imports GitUrl ModelDetect
begin

text \<open>
  Commit labels of a container image (\<^verbatim>\<open>postprocess/postprocess.py\<close>): the cluster's Image objects, and
  the image's registry, which is read over https with redirects followed by hand. The network, the
  hash function, \<^verbatim>\<open>urljoin\<close> and the cluster API are parameters (\<open>reg_env\<close>); every request is recorded
  in a trace, so that the theorems can speak about what is sent where. Labels are strings, as the
  image specification has them.
\<close>

subsection \<open>The environment\<close>

text \<open>A raised exception: an HTTP status with its \<^verbatim>\<open>Location\<close> and \<^verbatim>\<open>WWW-Authenticate\<close> headers, or any
  other.\<close>

datatype reg_exc = HTTPError int "string option" "string option" | OtherExc

text \<open>An OpenShift Image object: its config labels and the digests of its per-platform manifests.\<close>

record image_object =
  io_labels :: "string dict"
  io_manifests :: "string option list"

record reg_env =
  re_http :: "string \<Rightarrow> string option \<Rightarrow> string option \<Rightarrow> reg_exc + string"
  re_urljoin :: "string \<Rightarrow> string \<Rightarrow> string"
  re_bracket_ok :: "string \<Rightarrow> bool"
  re_sha256 :: "string \<Rightarrow> string"
  re_image :: "string \<Rightarrow> unit + image_object option"
  re_lookup :: bool

type_synonym request = "string \<times> string option"

subsection \<open>Image references\<close>

text \<open>\<^verbatim>\<open>re.sub(r"^[a-z-]+://", "", ref)\<close>\<close>

definition drop_ref_scheme :: "string \<Rightarrow> string" where
  "drop_ref_scheme ref =
     (let pre = takeWhile (\<lambda>c. is_lower_ascii c \<or> c = CHR ''-'') ref; rest = drop (length pre) ref
      in if pre \<noteq> [] \<and> prefix ''://'' rest then drop 3 rest else ref)"

definition parse_image_ref :: "string \<Rightarrow> (string \<times> string) option" where
  "parse_image_ref ref =
     (let name = strip_tag_digest (drop_ref_scheme ref)
      in if name = [] \<or> prefix ''sha256'' name then None
         else (let (first, _, rest) = partition_c CHR ''/'' name;
                   (host, repo) =
                     (if rest \<noteq> [] \<and> (CHR ''.'' \<in> set first \<or> CHR '':'' \<in> set first \<or> first = ''localhost'')
                      then (first, rest) else (''docker.io'', name))
               in if host = ''docker.io'' \<or> host = ''index.docker.io''
                  then Some (''registry-1.docker.io'', if CHR ''/'' \<in> set repo then repo else ''library/'' @ repo)
                  else Some (host, repo)))"

subsection \<open>Requests\<close>

definition registry_max_bytes :: int where
  "registry_max_bytes = 4 * 1024 * 1024"

definition is_redirect :: "int \<Rightarrow> string option \<Rightarrow> nat \<Rightarrow> bool" where
  "is_redirect code location hops \<longleftrightarrow> code \<in> {301, 302, 303, 307, 308} \<and> nonempty location \<noteq> None \<and> hops < 3"

function registry_get ::
  "reg_env \<Rightarrow> string \<Rightarrow> string option \<Rightarrow> string option \<Rightarrow> nat \<Rightarrow> (reg_exc + string) \<times> request list" where
  "registry_get env url accept token hops =
     (case urlsplit (re_bracket_ok env) url of
        None \<Rightarrow> (Inl OtherExc, [])
      | Some parts \<Rightarrow>
          (if scheme parts \<noteq> ''https'' then (Inl OtherExc, [])
           else
             (let sent = (url, nonempty token)
              in case re_http env url accept (nonempty token) of
                   Inr body \<Rightarrow>
                     (if registry_max_bytes < int (length body) then Inl OtherExc else Inr body, [sent])
                 | Inl OtherExc \<Rightarrow> (Inl OtherExc, [sent])
                 | Inl (HTTPError code location auth) \<Rightarrow>
                     (if is_redirect code location hops then
                        (let target = re_urljoin env url (the location)
                         in case urlsplit (re_bracket_ok env) target of
                              None \<Rightarrow> (Inl OtherExc, [sent])
                            | Some tparts \<Rightarrow>
                                (let res = registry_get env target accept
                                       (if netloc tparts = netloc parts then token else None) (Suc hops)
                                 in (fst res, sent # snd res)))
                      else (Inl (HTTPError code location auth), [sent])))))"
  by pat_completeness auto
termination
  by (relation "measure (\<lambda>(env, url, accept, token, hops). 3 - hops)") (auto simp: is_redirect_def)

declare registry_get.simps [simp del]

subsection \<open>Tokens\<close>

text \<open>\<^verbatim>\<open>re.findall(r'(\w+)="([^"]*)"', challenge)\<close>: successive matches from left to right. A match is
  never empty; the bound on the number of rounds is the length of the text.\<close>

definition is_word_char :: "char \<Rightarrow> bool" where
  "is_word_char c \<longleftrightarrow> is_alnum_ascii c \<or> c = CHR ''_'' \<or> ch_code c \<in> {170, 178, 179, 181, 185, 186, 188, 189, 190}
     \<or> (192 \<le> ch_code c \<and> ch_code c \<noteq> 215 \<and> ch_code c \<noteq> 247)"

definition auth_param_re :: regex where
  "auth_param_re = rseq [RGroup 1 (RPlus is_word_char), rlit ''='', RCls (\<lambda>c. c = dquote),
     RGroup 2 (RStar (\<lambda>c. c \<noteq> dquote)), RCls (\<lambda>c. c = dquote)]"

fun find_params :: "nat \<Rightarrow> string \<Rightarrow> (string \<times> string) list" where
  "find_params 0 s = []"
| "find_params (Suc n) s =
     (case re_search auth_param_re s of
        None \<Rightarrow> []
      | Some m \<Rightarrow>
          (case (group 1 m, group 2 m) of
             (Some k, Some v) \<Rightarrow> (k, v) # find_params n (fst (snd m))
           | _ \<Rightarrow> []))"

text \<open>\<^verbatim>\<open>urllib.parse.quote_plus\<close> of a string in UTF-8, and \<^verbatim>\<open>urlencode\<close> of a dictionary.\<close>

definition hex_digit :: "nat \<Rightarrow> char" where
  "hex_digit n = char_of (if n < 10 then 48 + n else 55 + n)"

definition pct :: "nat \<Rightarrow> string" where
  "pct n = [CHR ''%'', hex_digit (n div 16), hex_digit (n mod 16)]"

definition quote_char :: "char \<Rightarrow> string" where
  "quote_char c =
     (if is_alnum_ascii c \<or> c \<in> {CHR ''_'', CHR ''.'', CHR ''-'', CHR ''~''} then [c]
      else if c = CHR '' '' then ''+''
      else if ch_code c < 128 then pct (ch_code c)
      else pct (192 + ch_code c div 64) @ pct (128 + ch_code c mod 64))"

definition quote_plus :: "string \<Rightarrow> string" where
  "quote_plus s = concat (map quote_char s)"

definition urlencode :: "string dict \<Rightarrow> string" where
  "urlencode d = join_str ''&'' (map (\<lambda>(k, v). quote_plus k @ ''='' @ quote_plus v) d)"

text \<open>The URL that a challenge asks for, if it is a bearer challenge with a realm.\<close>

definition token_url :: "string \<Rightarrow> string \<Rightarrow> string option" where
  "token_url challenge repo =
     (if \<not> prefix ''bearer '' (py_lower challenge) then None
      else (let params = dupdate [] (find_params (length challenge) challenge)
            in case nonempty (dget params ''realm'') of
                 None \<Rightarrow> None
               | Some realm \<Rightarrow>
                   (let rest = ddel ''realm'' params;
                        rest' = (if dget rest ''scope'' = None then dset ''scope'' (''repository:'' @ repo @ '':pull'') rest
                                 else rest);
                        query = urlencode (filter (\<lambda>(k, _). k = ''service'' \<or> k = ''scope'') rest')
                    in Some (realm @ (if CHR ''?'' \<in> set realm then ''&'' else ''?'') @ query))))"

text \<open>The token of the answer: \<^verbatim>\<open>data.get("token") or data.get("access_token")\<close>; the inner \<^const>\<open>None\<close> is
  no token. A token is a string; other values are read as none.\<close>

definition token_of :: "pyval \<Rightarrow> reg_exc + string option" where
  "token_of data =
     (case data of
        VDict d \<Rightarrow> (case vor (vget d ''token'') (vget d ''access_token'') of VStr s \<Rightarrow> Inr (nonempty (Some s)) | _ \<Rightarrow> Inr None)
      | _ \<Rightarrow> Inl OtherExc)"

definition registry_token :: "reg_env \<Rightarrow> string \<Rightarrow> string \<Rightarrow> (reg_exc + string option) \<times> request list" where
  "registry_token env challenge repo =
     (case token_url challenge repo of
        None \<Rightarrow> (Inr None, [])
      | Some u \<Rightarrow>
          (let (r, tr) = registry_get env u None None 0
           in (case r of
                 Inl e \<Rightarrow> Inl e
               | Inr body \<Rightarrow> (case json_loads body of None \<Rightarrow> Inl OtherExc | Some data \<Rightarrow> token_of data), tr)))"

subsection \<open>Blobs by digest\<close>

definition manifest_accept :: string where
  "manifest_accept = join_str '', ''
     [''application/vnd.oci.image.index.v1+json'', ''application/vnd.oci.image.manifest.v1+json'',
      ''application/vnd.docker.distribution.manifest.list.v2+json'',
      ''application/vnd.docker.distribution.manifest.v2+json'']"

definition blob_url :: "string \<Rightarrow> string \<Rightarrow> string \<Rightarrow> string \<Rightarrow> string" where
  "blob_url host repo kind digest = ''https://'' @ host @ ''/v2/'' @ repo @ ''/'' @ kind @ ''/'' @ digest"

text \<open>The body of a blob. The cached token is absent, \<^verbatim>\<open>None\<close>, or a string.\<close>

definition blob_body ::
  "reg_env \<Rightarrow> string \<Rightarrow> string \<Rightarrow> string \<Rightarrow> string \<Rightarrow> string option option
     \<Rightarrow> (reg_exc + string) \<times> string option option \<times> request list" where
  "blob_body env host repo kind digest auth =
     (let url = blob_url host repo kind digest;
          accept = (if kind = ''manifests'' then Some manifest_accept else None);
          (r, tr) = registry_get env url accept (case auth of Some t \<Rightarrow> t | None \<Rightarrow> None) 0
      in case r of
           Inl (HTTPError code location challenge) \<Rightarrow>
             (if code \<noteq> 401 \<or> auth \<noteq> None then (r, auth, tr)
              else (let (t, tr') = registry_token env (case challenge of Some c \<Rightarrow> c | None \<Rightarrow> []) repo
                    in case t of
                         Inl e \<Rightarrow> (Inl e, auth, tr @ tr')
                       | Inr None \<Rightarrow> (r, Some None, tr @ tr')
                       | Inr (Some tok) \<Rightarrow>
                           (let (r2, tr2) = registry_get env url accept (Some tok) 0
                            in (r2, Some (Some tok), tr @ tr' @ tr2))))
         | _ \<Rightarrow> (r, auth, tr))"

definition checked_json :: "reg_env \<Rightarrow> string \<Rightarrow> string \<Rightarrow> pyval option" where
  "checked_json env digest body = (if ''sha256:'' @ re_sha256 env body = digest then json_loads body else None)"

text \<open>\<^const>\<open>None\<close> is an exception, which the only caller turns into an empty result.\<close>

definition registry_blob ::
  "reg_env \<Rightarrow> string \<Rightarrow> string \<Rightarrow> string \<Rightarrow> string \<Rightarrow> string option option \<Rightarrow> pyval option \<times> string option option" where
  "registry_blob env host repo kind digest auth =
     (case blob_body env host repo kind digest auth of
        (Inl e, auth', _) \<Rightarrow> (None, auth')
      | (Inr body, auth', _) \<Rightarrow> (checked_json env digest body, auth'))"

fun str_items :: "pyval \<Rightarrow> string dict" where
  "str_items (VDict d) = concat (map (\<lambda>(k, v). case v of VStr s \<Rightarrow> [(k, s)] | _ \<Rightarrow> []) d)"
| "str_items _ = []"

text \<open>The digest of the first child of an index that is not an attestation; the outer \<^const>\<open>None\<close> is an
  exception, the inner one no child.\<close>

definition child_os :: "pyval \<Rightarrow> pyval option" where
  "child_os m = (case m of VDict d \<Rightarrow>
     (case vget d ''platform'' of VDict p \<Rightarrow> Some (vget p ''os'') | v \<Rightarrow> if truthy v then None else Some VNone)
   | _ \<Rightarrow> None)"

definition child_digest :: "pyval \<Rightarrow> string option option" where
  "child_digest ms =
     (case ms of
        VList xs \<Rightarrow>
          (if list_ex (\<lambda>m. child_os m = None) xs then None
           else (case filter (\<lambda>m. child_os m \<noteq> Some (VStr ''unknown'')) xs of
                   [] \<Rightarrow> Some None
                 | VDict d # _ \<Rightarrow> (case vget d ''digest'' of VStr s \<Rightarrow> Some (Some s) | _ \<Rightarrow> None)
                 | _ \<Rightarrow> None))
      | _ \<Rightarrow> None)"

definition config_labels ::
  "reg_env \<Rightarrow> string \<Rightarrow> string \<Rightarrow> pyval \<Rightarrow> string option option \<Rightarrow> string dict" where
  "config_labels env host repo manifest auth =
     (case safe_get manifest [''config'', ''digest''] of
        VStr (c # d) \<Rightarrow>
          (case registry_blob env host repo ''blobs'' (c # d) auth of
             (Some config, _) \<Rightarrow> str_items (safe_get config [''config'', ''Labels''])
           | (None, _) \<Rightarrow> [])
      | _ \<Rightarrow> [])"

definition registry_image_labels :: "reg_env \<Rightarrow> string \<Rightarrow> string dict" where
  "registry_image_labels env ref =
     (if \<not> re_lookup env then []
      else (case (parse_image_ref ref, image_digest (Some ref)) of
              (Some (host, repo), Some digest) \<Rightarrow>
                (case registry_blob env host repo ''manifests'' digest None of
                   (Some (VDict m), auth) \<Rightarrow>
                     (case dget m ''manifests'' of
                        None \<Rightarrow> config_labels env host repo (VDict m) auth
                      | Some ms \<Rightarrow>
                          (case child_digest ms of
                             Some (Some d) \<Rightarrow>
                               (case registry_blob env host repo ''manifests'' d auth of
                                  (Some child, auth') \<Rightarrow> config_labels env host repo child auth'
                                | (None, _) \<Rightarrow> [])
                           | _ \<Rightarrow> []))
                 | _ \<Rightarrow> [])
            | _ \<Rightarrow> []))"

subsection \<open>Provenance from the labels\<close>

definition own_labels :: "reg_env \<Rightarrow> string \<Rightarrow> string dict" where
  "own_labels env digest = (case re_image env digest of Inr (Some img) \<Rightarrow> io_labels img | _ \<Rightarrow> [])"

definition image_labels :: "reg_env \<Rightarrow> string \<Rightarrow> string dict" where
  "image_labels env digest =
     (case re_image env digest of
        Inr (Some img) \<Rightarrow>
          (if io_labels img \<noteq> [] then io_labels img
           else (case first_some (\<lambda>d. case nonempty d of
                          Some x \<Rightarrow> (if own_labels env x \<noteq> [] then Some (own_labels env x) else None)
                        | None \<Rightarrow> None) (io_manifests img) of
                   Some l \<Rightarrow> l | None \<Rightarrow> []))
      | _ \<Rightarrow> [])"

definition non_workload_containers :: "string list" where
  "non_workload_containers =
     [''istio-proxy'', ''linkerd-proxy'', ''queue-proxy'', ''oauth-proxy'', ''kube-rbac-proxy'',
      ''storage-initializer'', ''aibom-discovery'', ''aibom-dataset-sidecar'']"

definition labels_provenance :: "(string \<Rightarrow> bool) \<Rightarrow> string dict \<Rightarrow> provenance option" where
  "labels_provenance bracket_ok labels =
     (let commit = nonempty (dget labels ''io.openshift.build.commit.id'');
          oci_commit = nonempty (dget labels ''org.opencontainers.image.revision'')
      in if commit \<noteq> None \<and> oci_commit \<noteq> None \<and> commit \<noteq> oci_commit then None
         else if commit \<noteq> None then
           Some \<lparr>git_commit = commit,
                 git_repository = map_option (redact_git_url bracket_ok) (dget labels ''io.openshift.build.source-location''),
                 git_branch = dget labels ''io.openshift.build.commit.ref'', git_dirty = None,
                 detected_via = Some ''openshift_build_label''\<rparr>
         else if oci_commit \<noteq> None then
           Some \<lparr>git_commit = oci_commit,
                 git_repository = map_option (redact_git_url bracket_ok) (dget labels ''org.opencontainers.image.source''),
                 git_branch = None, git_dirty = None, detected_via = Some ''oci_image_label''\<rparr>
         else None)"

definition container_provenance :: "reg_env \<Rightarrow> container \<Rightarrow> provenance option" where
  "container_provenance env c =
     (if c_name c \<in> set non_workload_containers then None
      else (case find (\<lambda>r. image_digest (Some r) \<noteq> None) [c_image_id c, c_image c] of
              None \<Rightarrow> None
            | Some ref \<Rightarrow>
                (let own = image_labels env (the (image_digest (Some ref)));
                     labels = (if own \<noteq> [] then own else registry_image_labels env ref)
                 in labels_provenance (re_bracket_ok env) labels)))"

definition detect_git_provenance_from_containers :: "reg_env \<Rightarrow> container list \<Rightarrow> provenance option" where
  "detect_git_provenance_from_containers env cs = first_some (container_provenance env) cs"

subsection \<open>What is sent, and where\<close>

text \<open>A request that may be sent for \<open>url\<close> with \<open>token\<close>: over https, and with the token only to the same
  authority.\<close>

definition request_ok :: "reg_env \<Rightarrow> string \<Rightarrow> string option \<Rightarrow> request \<Rightarrow> bool" where
  "request_ok env url token r \<longleftrightarrow>
     (\<exists>p p0. urlsplit (re_bracket_ok env) (fst r) = Some p \<and> scheme p = ''https''
        \<and> urlsplit (re_bracket_ok env) url = Some p0
        \<and> (snd r \<noteq> None \<longrightarrow> snd r = nonempty token \<and> netloc p = netloc p0))"

lemma request_ok_redirect:
  assumes "request_ok env target (if netloc tp = netloc p then token else None) r"
    and "urlsplit (re_bracket_ok env) target = Some tp" and "urlsplit (re_bracket_ok env) url = Some p"
  shows "request_ok env url token r"
  using assms by (cases "netloc tp = netloc p") (auto simp: request_ok_def)

lemma registry_get_requests:
  "hops \<le> 3 \<Longrightarrow> list_all (request_ok env url token) (snd (registry_get env url accept token hops))
     \<and> length (snd (registry_get env url accept token hops)) \<le> 4 - hops"
proof (induction env url accept token hops rule: registry_get.induct)
  case (1 env url accept token hops)
  show ?case
  proof (cases "urlsplit (re_bracket_ok env) url")
    case None
    then show ?thesis by (simp add: registry_get.simps [of env url])
  next
    case (Some p)
    have own: "request_ok env url token (url, nonempty token)" if "scheme p = ''https''"
      using Some that by (auto simp: request_ok_def)
    note unf = registry_get.simps [of env url accept token hops]
    show ?thesis
    proof (cases "scheme p = ''https''")
      case False
      then show ?thesis using Some by (simp add: unf)
    next
      case True
      have h: "1 \<le> 4 - hops" using "1.prems" by simp
      show ?thesis
      proof (cases "re_http env url accept (nonempty token)")
        case (Inr body)
        then show ?thesis using Some True own h by (simp add: unf)
      next
        case (Inl e)
        show ?thesis
        proof (cases e)
          case OtherExc
          then show ?thesis using Inl Some True own h by (simp add: unf)
        next
          case (HTTPError code loc auth)
          show ?thesis
          proof (cases "is_redirect code loc hops")
            case False
            then show ?thesis using HTTPError Inl Some True own h by (simp add: unf)
          next
            case redir: True
            let ?t = "re_urljoin env url (the loc)"
            show ?thesis
            proof (cases "urlsplit (re_bracket_ok env) ?t")
              case None
              then show ?thesis using redir HTTPError Inl Some True own h by (simp add: unf)
            next
              case t: (Some tp)
              define tok where "tok = (if netloc tp = netloc p then token else None)"
              define res where "res = registry_get env ?t accept tok (Suc hops)"
              have "hops < 3" using redir by (simp add: is_redirect_def)
              then have ih: "list_all (request_ok env ?t tok) (snd res)" "length (snd res) \<le> 4 - Suc hops"
                using "1.IH" [OF Some _ refl Inl HTTPError redir refl t] True by (auto simp: res_def tok_def)
              have "list_all (request_ok env url token) (snd res)"
                using ih request_ok_redirect [OF _ t Some] unfolding tok_def by (simp add: list_all_iff)
              moreover have "registry_get env url accept token hops = (fst res, (url, nonempty token) # snd res)"
                using redir HTTPError Inl Some True t by (simp add: unf res_def tok_def Let_def)
              ultimately show ?thesis using ih(2) own [OF True] \<open>hops < 3\<close> by simp
            qed
          qed
        qed
      qed
    qed
  qed
qed

text \<open>C4: following redirects never leaks the registry token and never leaves https: at most four requests
  are sent for a URL, each over https, and one carries a token only if it goes to the same authority
  as the URL that was asked for.\<close>

theorem registry_get_safe:
  "length (snd (registry_get env url accept token 0)) \<le> 4
   \<and> (\<forall>(u, t) \<in> set (snd (registry_get env url accept token 0)).
        \<exists>p p0. urlsplit (re_bracket_ok env) u = Some p \<and> scheme p = ''https''
          \<and> urlsplit (re_bracket_ok env) url = Some p0
          \<and> (t = None \<or> t = nonempty token \<and> netloc p = netloc p0))"
  using registry_get_requests [of 0 env url token accept]
  by (fastforce simp: list_all_iff request_ok_def)

text \<open>A registry that redirects a blob to storage on another host.\<close>

definition redirecting_registry :: reg_env where
  "redirecting_registry =
     \<lparr>re_http = (\<lambda>u a t. if u = ''https://r.io/b'' then Inl (HTTPError 307 (Some ''https://s3/x'') None) else Inr ''body''),
      re_urljoin = (\<lambda>b l. l), re_bracket_ok = (\<lambda>_. False), re_sha256 = (\<lambda>b. ''00''), re_image = (\<lambda>d. Inr None),
      re_lookup = True\<rparr>"

theorem registry_get_safe_witness:
  "snd (registry_get redirecting_registry ''https://r.io/b'' None (Some ''T'') 0) = [(''https://r.io/b'', Some ''T''), (''https://s3/x'', None)]
   \<and> (\<exists>p p0. urlsplit (re_bracket_ok redirecting_registry) ''https://s3/x'' = Some p \<and> scheme p = ''https''
          \<and> urlsplit (re_bracket_ok redirecting_registry) ''https://r.io/b'' = Some p0)"
proof
  show sent: "snd (registry_get redirecting_registry ''https://r.io/b'' None (Some ''T'') 0) = [(''https://r.io/b'', Some ''T''), (''https://s3/x'', None)]"
    by code_simp
  from registry_get_safe [of redirecting_registry "''https://r.io/b''" None "Some ''T''"]
  show "\<exists>p p0. urlsplit (re_bracket_ok redirecting_registry) ''https://s3/x'' = Some p \<and> scheme p = ''https''
          \<and> urlsplit (re_bracket_ok redirecting_registry) ''https://r.io/b'' = Some p0"
    unfolding sent by auto
qed

subsection \<open>Labels are bound to the digest\<close>

text \<open>The content that a digest names: a body of that hash, as JSON.\<close>

definition content_of :: "reg_env \<Rightarrow> string \<Rightarrow> pyval \<Rightarrow> bool" where
  "content_of env digest v \<longleftrightarrow> (\<exists>body. ''sha256:'' @ re_sha256 env body = digest \<and> json_loads body = Some v)"

lemma registry_blob_content: "registry_blob env host repo kind digest auth = (Some v, auth') \<Longrightarrow> content_of env digest v"
  by (auto simp: registry_blob_def checked_json_def content_of_def split: prod.splits sum.splits if_splits)

text \<open>A manifest whose configuration carries the labels.\<close>

definition manifest_labels :: "reg_env \<Rightarrow> pyval \<Rightarrow> string dict \<Rightarrow> bool" where
  "manifest_labels env manifest labels \<longleftrightarrow>
     (\<exists>digest config. safe_get manifest [''config'', ''digest''] = VStr digest \<and> content_of env digest config
        \<and> labels = str_items (safe_get config [''config'', ''Labels'']))"

lemma config_labels_content:
  assumes "config_labels env host repo manifest auth = labels" and "labels \<noteq> []"
  shows "manifest_labels env manifest labels"
proof -
  from assms obtain c d where s: "safe_get manifest [''config'', ''digest''] = VStr (c # d)"
    by (auto simp: config_labels_def split: pyval.splits list.splits)
  obtain r a where b: "registry_blob env host repo ''blobs'' (c # d) auth = (r, a)" by fastforce
  with assms s obtain config where "r = Some config" "labels = str_items (safe_get config [''config'', ''Labels''])"
    by (auto simp: config_labels_def split: option.splits)
  with s b registry_blob_content show ?thesis unfolding manifest_labels_def by blast
qed

text \<open>C15: labels read from a registry are bound to the image's digest: they come from a configuration whose
  hash a manifest names, and that manifest is the content of the digest, or of a digest listed in an
  index that is the content of it. A registry that answers anything else yields no labels.\<close>

theorem registry_labels_bound:
  assumes "registry_image_labels env ref = labels" and "labels \<noteq> []"
  shows "\<exists>digest m. image_digest (Some ref) = Some digest \<and> content_of env digest (VDict m)
    \<and> (manifest_labels env (VDict m) labels
       \<or> (\<exists>ms d child. dget m ''manifests'' = Some ms \<and> child_digest ms = Some (Some d)
            \<and> content_of env d child \<and> manifest_labels env child labels))"
proof -
  from assms obtain host repo digest where pd: "parse_image_ref ref = Some (host, repo)" "image_digest (Some ref) = Some digest"
    and look: "re_lookup env"
    by (auto simp: registry_image_labels_def split: option.splits if_splits)
  obtain r auth where b: "registry_blob env host repo ''manifests'' digest None = (r, auth)" by fastforce
  from assms pd look b obtain m where r: "r = Some (VDict m)"
    by (auto simp: registry_image_labels_def split: option.splits pyval.splits)
  have c: "content_of env digest (VDict m)" using b r registry_blob_content by blast
  show ?thesis
  proof (cases "dget m ''manifests''")
    case None
    with assms pd look b r have "config_labels env host repo (VDict m) auth = labels"
      by (simp add: registry_image_labels_def)
    then show ?thesis using assms(2) config_labels_content pd(2) c by blast
  next
    case (Some ms)
    with assms pd look b r obtain d where d: "child_digest ms = Some (Some d)"
      by (auto simp: registry_image_labels_def split: option.splits)
    obtain r2 auth2 where b2: "registry_blob env host repo ''manifests'' d auth = (r2, auth2)" by fastforce
    with assms pd look b r Some d obtain child where r2: "r2 = Some child"
      and l: "config_labels env host repo child auth2 = labels"
      by (auto simp: registry_image_labels_def split: option.splits)
    have "content_of env d child" using b2 r2 registry_blob_content by blast
    then show ?thesis using l assms(2) config_labels_content pd(2) c Some d by blast
  qed
qed

text \<open>A registry with one image whose configuration has one label.\<close>

definition quoted :: "string \<Rightarrow> string" where
  "quoted s = replace_c CHR ''~'' CHR 0x22 s"

definition sample_registry :: reg_env where
  "sample_registry =
     \<lparr>re_http = (\<lambda>u a t. Inr (if py_in ''/blobs/'' u then quoted ''{~config~:{~Labels~:{~k~:~v~}}}''
                             else quoted ''{~config~:{~digest~:~sha256:22~}}'')),
      re_urljoin = (\<lambda>b l. l), re_bracket_ok = (\<lambda>_. False),
      re_sha256 = (\<lambda>b. if py_in ''Labels'' b then ''22'' else ''11''), re_image = (\<lambda>d. Inr None), re_lookup = True\<rparr>"

theorem registry_labels_bound_witness:
  "\<exists>digest m. image_digest (Some ''r.io/o/r@sha256:11'') = Some digest \<and> content_of sample_registry digest (VDict m)
    \<and> (manifest_labels sample_registry (VDict m) [(''k'', ''v'')]
       \<or> (\<exists>ms d child. dget m ''manifests'' = Some ms \<and> child_digest ms = Some (Some d)
            \<and> content_of sample_registry d child \<and> manifest_labels sample_registry child [(''k'', ''v'')]))"
proof (rule registry_labels_bound)
  show "registry_image_labels sample_registry ''r.io/o/r@sha256:11'' = [(''k'', ''v'')]" by code_simp
qed simp

text \<open>C40: an image whose two commit labels disagree yields no provenance, and a reported commit is what
  every commit label that is set says.\<close>

theorem labels_commit_agrees:
  assumes "labels_provenance bracket_ok labels = Some p"
  shows "\<exists>c. git_commit p = Some c \<and> c \<noteq> []
    \<and> (\<forall>k \<in> {''io.openshift.build.commit.id'', ''org.opencontainers.image.revision''}.
         nonempty (dget labels k) \<in> {None, Some c})
    \<and> pred_option (\<lambda>u. \<exists>v. u = redact_git_url bracket_ok v) (git_repository p)"
proof -
  have r: "pred_option (\<lambda>u. \<exists>v. u = f v) (map_option f x)" for f :: "string \<Rightarrow> string" and x
    by (cases x) auto
  have n: "nonempty x = Some c \<Longrightarrow> c \<noteq> []" for x c by (auto dest: nonempty_SomeD)
  show ?thesis
    using assms r n by (auto simp: labels_provenance_def Let_def split: if_splits)
qed

theorem labels_commit_agrees_witness:
  "\<exists>c. Some ''abc1234'' = Some c \<and> c \<noteq> []
    \<and> nonempty (dget [(''org.opencontainers.image.revision'', ''abc1234'')] ''org.opencontainers.image.revision'') \<in> {None, Some c}"
proof -
  have "labels_provenance (\<lambda>_. False) [(''org.opencontainers.image.revision'', ''abc1234'')]
      = Some \<lparr>git_commit = Some ''abc1234'', git_repository = None, git_branch = None, git_dirty = None,
              detected_via = Some ''oci_image_label''\<rparr>"
    by code_simp
  from labels_commit_agrees [OF this] show ?thesis by auto
qed

end
