(* ===== verification/GitClone.thy ===== *)
theory GitClone
  imports GitUrl ModelDetect
begin

text \<open>
  Git provenance from a container's own command line (\<^verbatim>\<open>postprocess/postprocess.py\<close>): following
  \<^verbatim>\<open>git clone\<close>, \<^verbatim>\<open>cd\<close>, \<^verbatim>\<open>git -C\<close> and \<^verbatim>\<open>git checkout\<close>/\<^verbatim>\<open>switch\<close> through the commands of a script. The
  program keeps references to the dictionaries in its list of clones; here a reference is an index
  into the list. The invariant is that the reference is valid and that a recorded commit is a hash
  and a recorded branch a usable name.
\<close>

subsection \<open>Paths\<close>

text \<open>\<^verbatim>\<open>os.path.join\<close> of two parts and \<^verbatim>\<open>os.path.normpath\<close>.\<close>

definition path_join :: "string \<Rightarrow> string \<Rightarrow> string" where
  "path_join a b = (if prefix ''/'' b then b else if a = [] \<or> suffix ''/'' a then a @ b else a @ ''/'' @ b)"

definition norm_step :: "bool \<Rightarrow> string list \<Rightarrow> string \<Rightarrow> string list" where
  "norm_step absolute comps c =
     (if c = [] \<or> c = ''.'' then comps
      else if c \<noteq> ''..'' \<or> (\<not> absolute \<and> comps = []) \<or> (comps \<noteq> [] \<and> last comps = ''..'') then comps @ [c]
      else butlast comps)"

definition normpath :: "string \<Rightarrow> string" where
  "normpath p =
     (let slashes = (if prefix ''//'' p \<and> \<not> prefix ''///'' p then ''//'' else if prefix ''/'' p then ''/'' else []);
          s = slashes @ join_str ''/'' (foldl (norm_step (slashes \<noteq> [])) [] (split_c CHR ''/'' p))
      in if s = [] then ''.'' else s)"

subsection \<open>Reading a git command\<close>

definition git_global_value_opts :: "string list" where
  "git_global_value_opts = [''-C'', ''-c'', ''--git-dir'', ''--work-tree'', ''--namespace'']"

definition git_clone_value_opts :: "string list" where
  "git_clone_value_opts =
     [''-b'', ''--branch'', ''-o'', ''--origin'', ''--depth'', ''--reference'', ''--reference-if-able'',
      ''-u'', ''--upload-pack'', ''--template'', ''-c'', ''--config'', ''--separate-git-dir'',
      ''--shallow-since'', ''--shallow-exclude'', ''-j'', ''--jobs'', ''--filter'',
      ''--server-option'', ''--bundle-uri'', ''--revision'']"

definition git_new_branch_opts :: "string list" where
  "git_new_branch_opts = [''-b'', ''-B'', ''-c'', ''-C'', ''--orphan'']"

definition git_unpinned_refs :: "string list" where
  "git_unpinned_refs = [''HEAD'', ''FETCH_HEAD'', ''ORIG_HEAD'', ''-'', ''@'']"

definition is_hex :: "char \<Rightarrow> bool" where
  "is_hex c \<longleftrightarrow> py_isdigit_ascii c \<or> (97 \<le> ch_code c \<and> ch_code c \<le> 102) \<or> (65 \<le> ch_code c \<and> ch_code c \<le> 70)"

text \<open>\<^verbatim>\<open>re.compile(r"[0-9a-fA-F]{7,40}|[0-9a-fA-F]{64}").fullmatch\<close>\<close>

definition commit_sha :: "string \<Rightarrow> bool" where
  "commit_sha r \<longleftrightarrow> list_all is_hex r \<and> (7 \<le> length r \<and> length r \<le> 40 \<or> length r = 64)"

fun git_options :: "string option \<Rightarrow> string list \<Rightarrow> (string \<times> string list \<times> string option) option" where
  "git_options cdir [] = None"
| "git_options cdir [t] = (if prefix ''-'' t then None else Some (t, [], cdir))"
| "git_options cdir (t # u # rest) =
     (if prefix ''-'' t then
        (if t \<in> set git_global_value_opts
         then git_options (if t = ''-C'' then Some (path_join (case cdir of Some d \<Rightarrow> d | None \<Rightarrow> []) u) else cdir) rest
         else git_options cdir (u # rest))
      else Some (t, u # rest, cdir))"

definition git_invocation :: "string list \<Rightarrow> (string \<times> string list \<times> string option) option" where
  "git_invocation seg =
     (case from_command_word seg of
        [] \<Rightarrow> None
      | w # rest \<Rightarrow> (if basename w = ''git'' then git_options None rest else None))"

fun positionals :: "string list \<Rightarrow> bool \<Rightarrow> string list \<Rightarrow> string list" where
  "positionals value_opts stop [] = []"
| "positionals value_opts stop (a # rest) =
     (if a = ''--'' then (if stop then [] else rest)
      else if prefix ''-'' a \<and> a \<noteq> ''-'' then
        (if a \<in> set value_opts
         then (case rest of [] \<Rightarrow> [] | _ # rest' \<Rightarrow> positionals value_opts stop rest')
         else positionals value_opts stop rest)
      else a # positionals value_opts stop rest)"

definition clone_dir_name :: "string \<Rightarrow> string" where
  "clone_dir_name repo =
     (let r = rstrip_p (\<lambda>c. c = CHR ''/'') repo;
          name = rev (takeWhile (\<lambda>c. c \<noteq> CHR ''/'' \<and> c \<noteq> CHR '':'') (rev r))
      in if suffix ''.git'' name then take (length name - 4) name else name)"

definition usable_ref :: "string \<Rightarrow> bool" where
  "usable_ref r \<longleftrightarrow> r \<noteq> [] \<and> r \<notin> set git_unpinned_refs \<and> \<not> has_unexpanded_var r"

definition is_commit_ref :: "string \<Rightarrow> bool" where
  "is_commit_ref r \<longleftrightarrow> usable_ref r \<and> commit_sha r \<and> \<not> list_all py_isdigit_ascii r"

subsection \<open>Following the script\<close>

record clone =
  cl_repo :: string
  cl_dir :: string
  cl_commit :: "string option"
  cl_branch :: "string option"

record clone_state =
  cs_clones :: "clone list"
  cs_cwd :: "string option"
  cs_primary :: "nat option"

text \<open>\<^verbatim>\<open>next((c for c in clones if c["dir"] == name), None)\<close>, as an index.\<close>

fun index_of :: "('a \<Rightarrow> bool) \<Rightarrow> 'a list \<Rightarrow> nat option" where
  "index_of p [] = None"
| "index_of p (x # xs) = (if p x then Some 0 else map_option Suc (index_of p xs))"

definition clone_at :: "clone list \<Rightarrow> string option \<Rightarrow> nat option" where
  "clone_at clones pth =
     (case nonempty pth of
        Some p \<Rightarrow> index_of (\<lambda>c. cl_dir c = basename (normpath p)) clones
      | None \<Rightarrow> None)"

abbreviation usable :: "string option \<Rightarrow> string option" where
  "usable r \<equiv> (case r of Some x \<Rightarrow> if usable_ref x then Some x else None | None \<Rightarrow> None)"

abbreviation only_commit :: "string option \<Rightarrow> string option" where
  "only_commit r \<equiv> (case r of Some x \<Rightarrow> if is_commit_ref x then Some x else None | None \<Rightarrow> None)"

definition step_cd :: "string list \<Rightarrow> clone_state \<Rightarrow> clone_state" where
  "step_cd args st =
     (let target = (case args of [] \<Rightarrow> None | t # _ \<Rightarrow> Some t);
          cwd = (case target of
                   None \<Rightarrow> None
                 | Some t \<Rightarrow> (if t = ''-'' \<or> t = ''~'' then None
                             else Some (path_join (case cs_cwd st of Some d \<Rightarrow> d | None \<Rightarrow> []) t)))
      in st\<lparr>cs_cwd := cwd, cs_primary := orelse (clone_at (cs_clones st) cwd) (cs_primary st)\<rparr>)"

definition step_clone :: "string list \<Rightarrow> clone_state \<Rightarrow> clone_state" where
  "step_clone args st =
     (case positionals git_clone_value_opts False args of
        [] \<Rightarrow> st
      | repo # others \<Rightarrow>
          (if has_unexpanded_var repo then st
           else st\<lparr>cs_clones := cs_clones st @
             [\<lparr>cl_repo = repo,
               cl_dir = (case others of [] \<Rightarrow> clone_dir_name repo | d # _ \<Rightarrow> basename (normpath d)),
               cl_commit = None,
               cl_branch = usable (find_flag_value args [''-b'', ''--branch''])\<rparr>]\<rparr>))"

definition checkout_clone :: "string option \<Rightarrow> string option \<Rightarrow> clone \<Rightarrow> clone" where
  "checkout_clone new_branch target c =
     (if nonempty new_branch \<noteq> None then
        c\<lparr>cl_branch := usable new_branch, cl_commit := only_commit target\<rparr>
      else if nonempty target \<noteq> None then
        c\<lparr>cl_commit := only_commit target,
          cl_branch := (if only_commit target = None then usable target else None)\<rparr>
      else c)"

text \<open>The clone that a checkout runs in: the one at \<^verbatim>\<open>-C\<close> or the working directory, or the only one.\<close>

definition checkout_index :: "string option \<Rightarrow> clone_state \<Rightarrow> nat option" where
  "checkout_index cdir st =
     (let place = (case nonempty cdir of
                     Some d \<Rightarrow> Some (path_join (case cs_cwd st of Some w \<Rightarrow> w | None \<Rightarrow> []) d)
                   | None \<Rightarrow> cs_cwd st)
      in orelse (clone_at (cs_clones st) place) (if length (cs_clones st) = 1 then Some 0 else None))"

definition step_checkout :: "string list \<Rightarrow> string option \<Rightarrow> clone_state \<Rightarrow> clone_state" where
  "step_checkout args cdir st =
     (case checkout_index cdir st of
        None \<Rightarrow> st
      | Some i \<Rightarrow>
          (let new_branch = find_flag_value args git_new_branch_opts;
               target = (case positionals git_new_branch_opts True args of [] \<Rightarrow> None | t # _ \<Rightarrow> Some t)
           in st\<lparr>cs_primary := (if nonempty cdir \<noteq> None then Some i else cs_primary st),
                 cs_clones := (cs_clones st)[i := checkout_clone new_branch target (cs_clones st ! i)]\<rparr>))"

definition clone_step :: "clone_state \<Rightarrow> string list \<Rightarrow> clone_state" where
  "clone_step st seg =
     (case from_command_word seg of
        w # rest \<Rightarrow>
          (if w = ''cd'' then step_cd rest st
           else (case git_invocation seg of
                   None \<Rightarrow> st
                 | Some (sub, args, cdir) \<Rightarrow>
                     (if sub = ''clone'' then step_clone args st
                      else if sub = ''checkout'' \<or> sub = ''switch'' then step_checkout args cdir st
                      else st)))
      | [] \<Rightarrow> st)"

definition clone_start :: clone_state where
  "clone_start = \<lparr>cs_clones = [], cs_cwd = None, cs_primary = None\<rparr>"

definition chosen_clone :: "clone_state \<Rightarrow> clone option" where
  "chosen_clone st =
     (case cs_primary st of
        Some i \<Rightarrow> Some (cs_clones st ! i)
      | None \<Rightarrow> (case cs_clones st of [] \<Rightarrow> None | c # _ \<Rightarrow> Some c))"

definition detect_git_clone_from_command :: "(string \<Rightarrow> bool) \<Rightarrow> string list \<Rightarrow> provenance option" where
  "detect_git_clone_from_command bracket_ok toks =
     map_option (\<lambda>c. \<lparr>git_commit = nonempty (cl_commit c),
                     git_repository = Some (redact_git_url bracket_ok (cl_repo c)),
                     git_branch = nonempty (cl_branch c), git_dirty = None, detected_via = None\<rparr>)
       (chosen_clone (foldl clone_step clone_start (split_segments toks)))"

definition detect_git_clone_from_containers :: "(string \<Rightarrow> bool) \<Rightarrow> container list \<Rightarrow> provenance option" where
  "detect_git_clone_from_containers bracket_ok cs =
     map_option (\<lambda>p. p\<lparr>detected_via := Some ''cli_arg''\<rparr>)
       (first_some (\<lambda>c. detect_git_clone_from_command bracket_ok (flatten_container_command c)) cs)"

subsection \<open>The invariant\<close>

definition clone_ok :: "clone \<Rightarrow> bool" where
  "clone_ok c \<longleftrightarrow> pred_option is_commit_ref (cl_commit c) \<and> pred_option usable_ref (cl_branch c)
     \<and> \<not> has_unexpanded_var (cl_repo c)"

definition clone_inv :: "clone_state \<Rightarrow> bool" where
  "clone_inv st \<longleftrightarrow> list_all clone_ok (cs_clones st) \<and> pred_option (\<lambda>i. i < length (cs_clones st)) (cs_primary st)"

lemma index_of_less: "index_of p xs = Some i \<Longrightarrow> i < length xs"
  by (induction xs arbitrary: i) (auto split: if_splits)

lemma index_of_nth: "index_of p xs = Some i \<Longrightarrow> p (xs ! i)"
  by (induction xs arbitrary: i) (auto split: if_splits)

lemma clone_at_less: "clone_at cs p = Some i \<Longrightarrow> i < length cs"
  by (auto simp: clone_at_def split: option.splits dest: index_of_less)

lemma step_cd_inv: "clone_inv st \<Longrightarrow> clone_inv (step_cd args st)"
  unfolding step_cd_def Let_def clone_inv_def
  by (cases "clone_at (cs_clones st) (cs_cwd (step_cd args st))")
    (auto simp: step_cd_def Let_def pred_option_def dest: clone_at_less elim: orelse.elims)

lemma step_clone_inv: "clone_inv st \<Longrightarrow> clone_inv (step_clone args st)"
  by (auto simp: step_clone_def clone_inv_def clone_ok_def option.pred_set split: list.splits option.splits)

lemma checkout_clone_ok: "clone_ok c \<Longrightarrow> clone_ok (checkout_clone b t c)"
  by (auto simp: checkout_clone_def clone_ok_def option.pred_set split: option.splits)

lemma checkout_index_less: "checkout_index cdir st = Some i \<Longrightarrow> i < length (cs_clones st)"
  unfolding checkout_index_def Let_def
  by (erule orelse.elims) (auto dest: clone_at_less split: if_splits)

lemma step_checkout_inv:
  assumes "clone_inv st"
  shows "clone_inv (step_checkout args cdir st)"
proof (cases "checkout_index cdir st")
  case (Some i)
  have u: "list_all clone_ok ((cs_clones st)[i := checkout_clone b t (cs_clones st ! i)])" for b t
    using assms checkout_clone_ok checkout_index_less [OF Some]
    by (auto simp: clone_inv_def list_all_length nth_list_update)
  with Some assms checkout_index_less [OF Some] show ?thesis
    by (simp add: step_checkout_def Let_def clone_inv_def)
qed (use assms in \<open>simp add: step_checkout_def\<close>)

lemma clone_step_inv: "clone_inv st \<Longrightarrow> clone_inv (clone_step st seg)"
  by (auto simp: clone_step_def step_cd_inv step_clone_inv step_checkout_inv split: list.splits option.splits)

lemma clone_run_inv: "clone_inv st \<Longrightarrow> clone_inv (foldl clone_step st segs)"
  by (induction segs arbitrary: st) (auto simp: clone_step_inv)

text \<open>C23: what is reported of a cloned repository is always well-formed, for every script: a commit is a
  7 to 40 or 64 digit hexadecimal hash that is not all digits, a branch is neither \<^verbatim>\<open>HEAD\<close>-like nor an
  unexpanded variable, and the repository is the redaction of one argument of the script.\<close>

theorem git_clone_result_ok:
  assumes "detect_git_clone_from_command bracket_ok toks = Some p"
  shows "pred_option (\<lambda>r. list_all is_hex r \<and> (length r \<in> {7..40} \<or> length r = 64) \<and> \<not> list_all py_isdigit_ascii r)
      (git_commit p)
    \<and> pred_option usable_ref (git_branch p)
    \<and> (\<exists>repo. git_repository p = Some (redact_git_url bracket_ok repo) \<and> \<not> has_unexpanded_var repo)"
proof -
  let ?st = "foldl clone_step clone_start (split_segments toks)"
  have inv: "clone_inv ?st" by (rule clone_run_inv) (simp add: clone_inv_def clone_start_def)
  from assms obtain c where c: "chosen_clone ?st = Some c"
    and p: "git_commit p = nonempty (cl_commit c)" "git_branch p = nonempty (cl_branch c)"
      "git_repository p = Some (redact_git_url bracket_ok (cl_repo c))"
    by (auto simp: detect_git_clone_from_command_def)
  have "c \<in> set (cs_clones ?st)"
    using c inv by (auto simp: chosen_clone_def clone_inv_def split: option.splits list.splits)
  then have ok: "clone_ok c" using inv by (simp add: clone_inv_def list_all_iff)
  have n: "pred_option P (nonempty x)" if "pred_option P x" for P x
    using that by (cases "nonempty x") (auto simp: option.pred_set dest: nonempty_SomeD)
  have "pred_option is_commit_ref (git_commit p)" "pred_option usable_ref (git_branch p)"
    using ok p n by (auto simp: clone_ok_def)
  then show ?thesis
    using ok p by (auto simp: clone_ok_def is_commit_ref_def commit_sha_def option.pred_set)
qed

theorem git_clone_result_ok_witness:
  "list_all is_hex ''deadbeef'' \<and> (length ''deadbeef'' \<in> {7..40} \<or> length ''deadbeef'' = 64)
     \<and> \<not> list_all py_isdigit_ascii ''deadbeef''"
proof -
  have "detect_git_clone_from_command (\<lambda>_. False)
      [''git'', ''clone'', ''https://u:t@h/o/r.git'', ''&&'', ''git'', ''-C'', ''r'', ''checkout'', ''deadbeef'']
    = Some \<lparr>git_commit = Some ''deadbeef'', git_repository = Some ''https://h/o/r.git'', git_branch = None,
            git_dirty = None, detected_via = None\<rparr>"
    by code_simp
  from git_clone_result_ok [OF this] show ?thesis by simp
qed

subsection \<open>A checkout is applied to the clone it runs in\<close>

text \<open>A directory name as a script gives it: one component, no option and not special to \<^verbatim>\<open>cd\<close>.\<close>

definition plain_dir :: "string \<Rightarrow> bool" where
  "plain_dir d \<longleftrightarrow> d \<notin> {[], ''.'', ''..'', ''~''} \<and> CHR ''/'' \<notin> set d \<and> \<not> prefix ''-'' d \<and> \<not> is_separator d"

definition plain_arg :: "string \<Rightarrow> bool" where
  "plain_arg a \<longleftrightarrow> \<not> prefix ''-'' a \<and> \<not> is_separator a \<and> \<not> has_unexpanded_var a"

lemma basename_normpath_plain: "plain_dir d \<Longrightarrow> basename (normpath d) = d"
proof -
  assume d: "plain_dir d"
  then have "\<not> prefix ''/'' d" by (auto simp: plain_dir_def prefix_def)
  moreover have "\<not> prefix (CHR ''/'' # x) d" for x using d by (auto simp: plain_dir_def prefix_def)
  ultimately have "normpath d = d"
    using d split_c_absent [of "CHR ''/''" d] by (simp add: normpath_def Let_def plain_dir_def norm_step_def)
  with d show ?thesis by (simp add: basename_plain plain_dir_def)
qed

lemma git_word: "from_command_word (''git'' # rest) = ''git'' # rest" "basename ''git'' = ''git''"
  "from_command_word (''cd'' # rest) = ''cd'' # rest"
proof -
  have "re_match assignment_re ''git'' = None" "''git'' \<notin> set command_prefixes"
    "re_match assignment_re ''cd'' = None" "''cd'' \<notin> set command_prefixes" "basename ''git'' = ''git''" by code_simp+
  then show "from_command_word (''git'' # rest) = ''git'' # rest" "basename ''git'' = ''git''"
    "from_command_word (''cd'' # rest) = ''cd'' # rest"
    by (simp_all add: from_command_word_def)
qed

lemma clone_step_clone:
  assumes "plain_arg repo" and "plain_dir d"
  shows "clone_step st [''git'', ''clone'', repo, d] =
    st\<lparr>cs_clones := cs_clones st @ [\<lparr>cl_repo = repo, cl_dir = d, cl_commit = None, cl_branch = None\<rparr>]\<rparr>"
proof -
  have n: "\<not> prefix (CHR ''-'' # x) repo" "\<not> prefix (CHR ''-'' # x) d" for x
    using assms by (auto simp: plain_arg_def plain_dir_def prefix_def)
  have e: "repo \<noteq> CHR ''-'' # x" "d \<noteq> CHR ''-'' # x" "CHR ''-'' # x \<noteq> repo" "CHR ''-'' # x \<noteq> d" for x
    using n(1) [of "[]"] n(2) [of "[]"] by auto
  have "positionals git_clone_value_opts False [repo, d] = [repo, d]" using n e by simp
  moreover have "find_flag_value [repo, d] [''-b'', ''--branch''] = None" using n e by simp
  ultimately show ?thesis
    using assms(1) basename_normpath_plain [OF assms(2)]
    by (simp add: clone_step_def git_word git_invocation_def step_clone_def plain_arg_def)
qed

lemma clone_step_cd:
  assumes "plain_dir d" and "cs_cwd st = None" and "index_of (\<lambda>c. cl_dir c = d) (cs_clones st) = Some i"
  shows "clone_step st [''cd'', d] = st\<lparr>cs_cwd := Some d, cs_primary := Some i\<rparr>"
proof -
  have ne: "d \<noteq> ''-''" "d \<noteq> ''~''" "d \<noteq> []" "\<not> prefix ''/'' d" using assms(1) by (auto simp: plain_dir_def prefix_def)
  then have "nonempty (Some d) = Some d" by (cases d) auto
  then have "clone_at (cs_clones st) (Some d) = Some i"
    using assms(3) basename_normpath_plain [OF assms(1)] by (simp add: clone_at_def)
  then show ?thesis
    using ne assms(2) by (simp add: clone_step_def git_word step_cd_def path_join_def)
qed

lemma clone_step_checkout:
  assumes "plain_arg r" and "is_commit_ref r" and "plain_dir d" and "cs_cwd st = Some d"
    and "index_of (\<lambda>c. cl_dir c = d) (cs_clones st) = Some i"
  shows "clone_step st [''git'', ''checkout'', r] =
    st\<lparr>cs_clones := (cs_clones st)[i := (cs_clones st ! i)\<lparr>cl_commit := Some r, cl_branch := None\<rparr>]\<rparr>"
proof -
  have n: "\<not> prefix (CHR ''-'' # x) r" for x using assms(1) by (auto simp: plain_arg_def prefix_def)
  have e: "r \<noteq> CHR ''-'' # x" "CHR ''-'' # x \<noteq> r" for x using n [of "[]"] by auto
  have "d \<noteq> []" "r \<noteq> []" using assms(2,3) by (auto simp: plain_dir_def is_commit_ref_def usable_ref_def)
  then have ne: "nonempty (Some d) = Some d" "nonempty (Some r) = Some r" by (cases d; cases r; auto)+
  have "checkout_index None st = Some i"
    using assms(4,5) ne basename_normpath_plain [OF assms(3)] by (simp add: checkout_index_def clone_at_def)
  moreover have "find_flag_value [r] git_new_branch_opts = None" using n by simp
  moreover have "positionals git_new_branch_opts True [r] = [r]" using n e by simp
  ultimately show ?thesis
    using assms(2) ne by (simp add: clone_step_def git_word git_invocation_def step_checkout_def checkout_clone_def)
qed

text \<open>with several clones the checkout goes to the right one: after two clones, \<^verbatim>\<open>cd\<close> into the second and
  a checkout of a hash there, the second repository is reported at that commit, and the first is left
  alone.\<close>

theorem git_checkout_follows_cd:
  assumes "plain_arg a" and "plain_arg b" and "plain_dir da" and "plain_dir db" and "da \<noteq> db"
    and "plain_arg r" and "is_commit_ref r"
  shows "detect_git_clone_from_command bracket_ok
      ([''git'', ''clone'', a, da] @ ''&&'' # [''git'', ''clone'', b, db] @ ''&&'' # [''cd'', db] @ ''&&'' # [''git'', ''checkout'', r])
    = Some \<lparr>git_commit = Some r, git_repository = Some (redact_git_url bracket_ok b), git_branch = None,
            git_dirty = None, detected_via = None\<rparr>"
proof -
  have ns: "\<not> is_separator w" if "w \<in> {''git'', ''clone'', ''cd'', ''checkout'', a, b, da, db, r}" for w
    using that assms by (auto simp: plain_arg_def plain_dir_def is_separator_def is_sep_def)
  have seg: "split_segments ([''git'', ''clone'', a, da] @ ''&&'' # [''git'', ''clone'', b, db] @ ''&&'' # [''cd'', db] @
      ''&&'' # [''git'', ''checkout'', r]) = [[''git'', ''clone'', a, da], [''git'', ''clone'', b, db], [''cd'', db], [''git'', ''checkout'', r]]"
    unfolding split_segments_append [OF is_separator_and] by (simp add: split_segments_plain ns)
  have rn: "nonempty (Some r) = Some r" using assms(7) by (cases r) (auto simp: is_commit_ref_def usable_ref_def)
  have "foldl clone_step clone_start [[''git'', ''clone'', a, da], [''git'', ''clone'', b, db], [''cd'', db], [''git'', ''checkout'', r]]
    = \<lparr>cs_clones = [\<lparr>cl_repo = a, cl_dir = da, cl_commit = None, cl_branch = None\<rparr>,
                    \<lparr>cl_repo = b, cl_dir = db, cl_commit = Some r, cl_branch = None\<rparr>],
       cs_cwd = Some db, cs_primary = Some 1\<rparr>"
    using assms(5)
    by (simp add: clone_step_clone [OF assms(1,3)] clone_step_clone [OF assms(2,4)] clone_start_def
        clone_step_cd [OF assms(4)] clone_step_checkout [OF assms(6,7,4)])
  then show ?thesis using rn by (simp only: detect_git_clone_from_command_def seg) (simp add: chosen_clone_def)
qed

theorem git_checkout_follows_cd_witness:
  "detect_git_clone_from_command (\<lambda>_. False)
      ([''git'', ''clone'', ''g:tool'', ''t''] @ ''&&'' # [''git'', ''clone'', ''https://u:p@h/o/code'', ''code''] @ ''&&''
        # [''cd'', ''code''] @ ''&&'' # [''git'', ''checkout'', ''cafe123''])
    = Some \<lparr>git_commit = Some ''cafe123'', git_repository = Some (redact_git_url (\<lambda>_. False) ''https://u:p@h/o/code''),
            git_branch = None, git_dirty = None, detected_via = None\<rparr>"
  by (rule git_checkout_follows_cd) (code_simp+)

end
