(* ===== verification/Compile.thy ===== *)
theory Compile
  imports Status Registry GitClone "HOL-Library.Product_Lexorder"
begin

text \<open>
  The sections of the AIBOM that \<^verbatim>\<open>compile_aibom\<close> (\<^verbatim>\<open>postprocess/postprocess.py\<close>) builds: intent, source
  code, model, dataset, training, fine-tuning, inference, environment and utilization. Annotations are
  strings (as Kubernetes has them); what the detectors found are dictionaries of Python values. An
  exception is \<^const>\<open>None\<close>: the program then ends without an AIBOM. The text of a value that is not a
  string (\<^verbatim>\<open>str(x)\<close>) is a parameter, so the theorems hold for every such text.
\<close>

subsection \<open>Annotations\<close>

definition sval :: "string option \<Rightarrow> pyval" where
  "sval s = (case s of Some t \<Rightarrow> VStr t | None \<Rightarrow> VNone)"

definition ann :: "string dict \<Rightarrow> string \<Rightarrow> pyval" where
  "ann a k = sval (dget a k)"

definition try_float :: "string option \<Rightarrow> pyfloat option" where
  "try_float v = Option.bind v py_float"

definition ann_int :: "string dict \<Rightarrow> string \<Rightarrow> pyval" where
  "ann_int a k = (case try_int (dget a k) of Some i \<Rightarrow> VInt i | None \<Rightarrow> VNone)"

definition ann_float :: "string dict \<Rightarrow> string \<Rightarrow> pyval" where
  "ann_float a k = (case try_float (dget a k) of Some x \<Rightarrow> VFloat x | None \<Rightarrow> VNone)"

fun first_not_none :: "pyval list \<Rightarrow> pyval" where
  "first_not_none [] = VNone"
| "first_not_none (v # vs) = (if v \<noteq> VNone then v else first_not_none vs)"

subsection \<open>Intent and source code\<close>

definition experiment_intent :: "string dict \<Rightarrow> pyval dict \<Rightarrow> string \<times> string option" where
  "experiment_intent a dm =
     (case nonempty (dget a ''experiment-intent'') of
        Some i \<Rightarrow> (i, Some ''annotation'')
      | None \<Rightarrow>
          (if truthy (vget dm ''serving_engine'') then (''inference'', Some ''inferred_from_model_detection'')
           else if truthy (vget dm ''training_framework'') then
             (if truthy (vget dm ''adaptation_method'') then ''sft'' else ''training'', Some ''inferred_from_model_detection'')
           else (''unknown'', None)))"

record source_code =
  sc_repository :: "string option"
  sc_commit :: "string option"
  sc_branch :: "string option"
  sc_declared_via :: "string option"
  sc_dirty :: "bool option"

text \<open>The git annotations as a provenance record; \<^const>\<open>None\<close> if there is none.\<close>

definition annotated_provenance :: "string dict \<Rightarrow> provenance option" where
  "annotated_provenance a =
     (let c = nonempty (dget a ''git-commit''); r = nonempty (dget a ''git-repository''); b = nonempty (dget a ''git-branch'')
      in if c = None \<and> r = None \<and> b = None then None
         else Some \<lparr>git_commit = c, git_repository = r, git_branch = b, git_dirty = None, detected_via = None\<rparr>)"

definition source_code_section :: "(string \<Rightarrow> bool) \<Rightarrow> string dict \<Rightarrow> provenance option \<Rightarrow> source_code" where
  "source_code_section bracket_ok a dp =
     (let annotated = annotated_provenance a;
          prov = (case merge_provenance bracket_ok annotated dp of
                    Some p \<Rightarrow> p
                  | None \<Rightarrow> \<lparr>git_commit = None, git_repository = None, git_branch = None, git_dirty = None, detected_via = None\<rparr>);
          via = (if annotated \<noteq> None then Some ''annotation''
                 else (case dp of
                         Some p \<Rightarrow> (if nonempty (git_commit p) \<noteq> None \<or> nonempty (git_repository p) \<noteq> None
                                   then detected_via p else None)
                       | None \<Rightarrow> None))
      in \<lparr>sc_repository = map_option (redact_git_url bracket_ok) (git_repository prov), sc_commit = git_commit prov,
          sc_branch = git_branch prov, sc_declared_via = via, sc_dirty = git_dirty prov\<rparr>)"

subsection \<open>Model\<close>

definition set_if :: "string \<Rightarrow> pyval \<Rightarrow> pyval dict \<Rightarrow> pyval dict" where
  "set_if k v d = (if truthy v then dset k v d else d)"

definition model_base :: "string dict \<Rightarrow> pyval dict \<Rightarrow> pyval dict \<Rightarrow> pyval dict" where
  "model_base a dm ri =
     [(''name'', vor (vor (ann a ''model-name'') (vget dm ''model_name'')) (vget ri ''model_name'')),
      (''version'', ann a ''model-version''),
      (''architecture'', vor (vor (ann a ''model-architecture'') (vget ri ''model_architecture'')) (vget dm ''architecture'')),
      (''framework'', vor (vor (vor (ann a ''model-framework'') (vget dm ''serving_engine'')) (vget dm ''training_framework''))
                         (vget ri ''training_framework'')),
      (''quantization'', vor (vor (vor (ann a ''quantization'') (vget dm ''quantization'')) (vget dm ''quantization_method''))
                            (vget ri ''quantization_method'')),
      (''quantization_bits'', vor (vor (ann_int a ''quantization-bits'') (vget dm ''quantization_bits'')) (vget ri ''quantization_bits'')),
      (''dtype'', vor (vor (ann a ''dtype'') (vget dm ''dtype'')) (vget ri ''dtype''))]"

definition own_details :: "string dict \<Rightarrow> pyval dict \<Rightarrow> bool" where
  "own_details a dm \<longleftrightarrow> ann a ''model-name'' \<in> {VNone, VStr [], vget dm ''model_name''}"

definition model_section :: "string dict \<Rightarrow> pyval dict \<Rightarrow> pyval dict \<Rightarrow> pyval dict" where
  "model_section a dm ri =
     (let m1 = set_if ''speculative_decoding'' (vget dm ''speculative_config'') (model_base a dm ri);
          m2 = (if truthy (vget dm ''model_name_declared_via'')
                then dset ''name_declared_via'' (if truthy (ann a ''model-name'') then VStr ''annotation''
                                              else vget dm ''model_name_declared_via'') m1
                else m1)
      in if own_details a dm
         then set_if ''size_bytes'' (vget dm ''model_size_bytes'')
                (set_if ''base_model'' (vget dm ''base_model'') (set_if ''revision'' (vget dm ''model_revision'') m2))
         else m2)"

subsection \<open>Dataset\<close>

text \<open>A data set the detector saw, with the result of the comparison (\<^const>\<open>None\<close>: nothing to compare).\<close>

record seen_dataset =
  se_name :: "string option"
  se_source :: "string option"
  se_version :: "string option"
  se_license :: "string option"
  se_matches :: "bool option"

record declared_dataset =
  de_name :: "string option"
  de_version :: "string option"
  de_source :: "string option"
  de_license :: "string option"
  de_via :: "string option"
  de_config :: "string option"
  de_split :: "string option"

definition declared_base :: "string dict \<Rightarrow> string dict \<Rightarrow> declared_dataset" where
  "declared_base a cli =
     (let annotated = nonempty (dget a ''dataset-name'') \<noteq> None;
          by_cli = \<not> annotated \<and> nonempty (dget cli ''dataset_name'') \<noteq> None
      in \<lparr>de_name = (if annotated then dget a ''dataset-name'' else dget cli ''dataset_name''),
          de_version = dget a ''dataset-version'', de_source = dget a ''dataset-source'', de_license = dget a ''dataset-license'',
          de_via = (if annotated then Some ''annotation'' else if by_cli then Some ''cli_arg'' else None),
          de_config = (if by_cli then nonempty (dget cli ''dataset_config'') else None),
          de_split = (if by_cli then nonempty (dget cli ''dataset_split'') else None)\<rparr>)"

definition infer_declared :: "seen_dataset list \<Rightarrow> declared_dataset \<Rightarrow> declared_dataset" where
  "infer_declared seen d =
     (case seen of
        [] \<Rightarrow> d
      | first # _ \<Rightarrow>
          (if nonempty (de_name d) \<noteq> None then d
           else d\<lparr>de_name := se_name first, de_source := se_source first, de_via := Some ''inferred_from_runtime'',
                  de_version := (if nonempty (se_version first) \<noteq> None then se_version first else de_version d),
                  de_license := (if nonempty (se_license first) \<noteq> None then se_license first else de_license d)\<rparr>))"

definition mark_matches :: "declared_dataset \<Rightarrow> seen_dataset \<Rightarrow> seen_dataset" where
  "mark_matches d e =
     e\<lparr>se_matches := (if de_via d = Some ''inferred_from_runtime'' then None
                     else Some (dataset_names_match (se_name e) (de_name d)))\<rparr>"

definition is_training :: "string \<Rightarrow> bool" where
  "is_training intent \<longleftrightarrow> intent = ''training'' \<or> intent = ''sft''"

definition dataset_section ::
  "string dict \<Rightarrow> string dict \<Rightarrow> seen_dataset list \<Rightarrow> string \<Rightarrow> (declared_dataset \<times> seen_dataset list) option" where
  "dataset_section a cli seen intent =
     (let d0 = declared_base a cli
      in if nonempty (de_name d0) = None \<and> seen = [] \<and> \<not> is_training intent then None
         else (let d = infer_declared seen d0 in Some (d, map (mark_matches d) seen)))"

subsection \<open>Training, fine-tuning and inference\<close>

text \<open>\<^verbatim>\<open>(v or 0) > 1\<close>; comparing anything but a number raises.\<close>

fun more_than_one :: "pyval \<Rightarrow> bool option" where
  "more_than_one (VInt i) = Some (1 < i)"
| "more_than_one (VBool b) = Some False"
| "more_than_one (VFloat x) = Some (f_le (Num (Fin 1)) x \<and> x \<noteq> Num (Fin 1))"
| "more_than_one v = (if truthy v then None else Some False)"

definition strategy :: "string dict \<Rightarrow> pyval dict \<Rightarrow> pyval dict \<Rightarrow> pyval option" where
  "strategy a dm ri =
     (let v = vor (vor (ann a ''parallelization-strategy'') (vget ri ''parallelization_strategy'')) (vget dm ''parallelization_strategy'')
      in if truthy v then Some v
         else map_option (\<lambda>b. if b then VStr ''model_parallel'' else VNone) (more_than_one (vget ri ''model_device_count'')))"

definition hyperparameter :: "pyval \<Rightarrow> string \<Rightarrow> pyval dict \<Rightarrow> pyval dict \<Rightarrow> pyval" where
  "hyperparameter annotated k ri dm = first_not_none [annotated, vget ri k, vget dm k]"

definition training_section :: "string dict \<Rightarrow> pyval dict \<Rightarrow> pyval dict \<Rightarrow> pyval dict option" where
  "training_section a dm ri =
     map_option (\<lambda>s.
       [(''optimizer'', vor (ann a ''optimizer'') (vget ri ''optimizer'')),
        (''learning_rate'', hyperparameter (ann_float a ''learning-rate'') ''learning_rate'' ri dm),
        (''batch_size'', hyperparameter (ann_int a ''batch-size'') ''batch_size'' ri dm),
        (''epochs'', hyperparameter (ann_int a ''epochs'') ''epochs'' ri dm),
        (''random_seed'', hyperparameter (ann_int a ''random-seed'') ''random_seed'' ri dm),
        (''mixed_precision'', vget ri ''mixed_precision''),
        (''parallelization_strategy'', s)]) (strategy a dm ri)"

definition runtime_adaptation :: "pyval dict \<Rightarrow> pyval" where
  "runtime_adaptation ri =
     (if vget ri ''adaptation_method'' = VStr ''lora''
         \<and> (truthy (vget ri ''quantization_method'') \<or> truthy (vget ri ''quantization_bits''))
      then VStr ''qlora'' else vget ri ''adaptation_method'')"

definition fine_tuning_section :: "string dict \<Rightarrow> pyval dict \<Rightarrow> pyval dict \<Rightarrow> pyval dict" where
  "fine_tuning_section a dm ri =
     [(''adaptation_method'', vor (vor (ann a ''adaptation-method'') (vget dm ''adaptation_method'')) (runtime_adaptation ri)),
      (''lora_rank'', vor (vor (ann_int a ''lora-rank'') (vget dm ''lora_rank'')) (vget ri ''lora_rank'')),
      (''lora_alpha'', vor (vor (ann_int a ''lora-alpha'') (vget dm ''lora_alpha'')) (vget ri ''lora_alpha''))]"

definition vllm_extra_keys :: "string list" where
  "vllm_extra_keys = [''served_model_name'', ''max_num_seqs'', ''seed'', ''trust_remote_code'', ''enforce_eager'', ''enable_prefix_caching'']"

text \<open>\<^verbatim>\<open>dm.get("generation_config_overrides") or {}\<close>, on which \<^verbatim>\<open>.get\<close> is called.\<close>

definition gen_overrides :: "pyval dict \<Rightarrow> pyval dict option" where
  "gen_overrides dm =
     (case vget dm ''generation_config_overrides'' of VDict d \<Rightarrow> Some d | v \<Rightarrow> if truthy v then None else Some [])"

definition inference_base :: "string dict \<Rightarrow> pyval dict \<Rightarrow> pyval dict \<Rightarrow> pyval dict" where
  "inference_base a dm g =
     [(''serving_engine'', vor (ann a ''serving-engine'') (vget dm ''serving_engine'')),
      (''max_model_len'', vor (ann_int a ''max-model-len'') (vget dm ''max_model_len'')),
      (''tensor_parallel_size'', vor (ann_int a ''tensor-parallel-size'') (vget dm ''tensor_parallel_size'')),
      (''pipeline_parallel_size'', vor (ann_int a ''pipeline-parallel-size'') (vget dm ''pipeline_parallel_size'')),
      (''enable_expert_parallel'', vget dm ''enable_expert_parallel''),
      (''data_parallel_size'', vor (ann_int a ''data-parallel-size'') (vget dm ''data_parallel_size'')),
      (''gpu_memory_utilization'', vor (ann_float a ''gpu-memory-utilization'') (vget dm ''gpu_memory_utilization'')),
      (''temperature'', vor (ann_float a ''temperature'') (vget g ''temperature'')),
      (''top_p'', vor (ann_float a ''top-p'') (vget g ''top_p'')),
      (''top_k'', vor (ann_int a ''top-k'') (vget g ''top_k'')),
      (''max_tokens'', ann_int a ''max-tokens'')]
     @ map (\<lambda>k. (k, vget dm k)) vllm_extra_keys"

text \<open>The role that every pod with a role has, and the serving metrics.\<close>

definition common_role :: "pod_entry list \<Rightarrow> string option" where
  "common_role pods =
     (case remdups (List.map_filter (nonempty \<circ> pe_role) pods) of [r] \<Rightarrow> Some r | _ \<Rightarrow> None)"

definition serving_units :: "(string \<times> rat option \<times> string) list" where
  "serving_units =
     [(''time_to_first_token_seconds'', None, ''seconds''), (''inter_token_latency_seconds'', None, ''seconds''),
      (''num_requests_running'', None, ''requests''), (''num_requests_waiting'', None, ''requests''),
      (''kv_cache_usage'', None, ''percent''), (''prompt_throughput'', None, ''tokens_per_sec''),
      (''generation_throughput'', None, ''tokens_per_sec'')]"

record performance =
  pf_metrics :: "metric_report dict"
  pf_cold_start :: bool

definition serving_performance :: "pod_telemetry list option \<Rightarrow> performance option" where
  "serving_performance t =
     (case t of
        Some (p # ps) \<Rightarrow> Some \<lparr>pf_metrics = aggregate_pod_metrics (map pt_metrics (p # ps)) serving_units,
                             pf_cold_start = list_ex pt_cold_start (p # ps)\<rparr>
      | _ \<Rightarrow> None)"

record inference =
  in_settings :: "pyval dict"
  in_performance :: "performance option"

definition inference_section ::
  "string dict \<Rightarrow> pyval dict \<Rightarrow> pod_entry list \<Rightarrow> pod_telemetry list option \<Rightarrow> inference option" where
  "inference_section a dm pods t =
     map_option (\<lambda>g. \<lparr>in_settings = (case common_role pods of
                                      Some r \<Rightarrow> dset ''serving_role'' (VStr r) (inference_base a dm g)
                                    | None \<Rightarrow> inference_base a dm g),
                     in_performance = serving_performance t\<rparr>) (gen_overrides dm)"

subsection \<open>Environment\<close>

text \<open>A device of the instant query: its labels and the second component of its value, if there is one.\<close>

record gpu_device =
  gd_model :: "string option"
  gd_mem :: "int option"

text \<open>\<^verbatim>\<open>int(round(float(v)))\<close>: the outer \<^const>\<open>None\<close> is the \<^verbatim>\<open>OverflowError\<close> of an infinity, which is not
  caught; a text that is no number, or NaN, is no memory size.\<close>

definition device_mem :: "string option \<Rightarrow> int option option" where
  "device_mem v =
     (case Option.bind v py_float of
        None \<Rightarrow> Some None
      | Some NaN \<Rightarrow> Some None
      | Some (Num (Fin q)) \<Rightarrow> Some (Some (rhe q))
      | Some _ \<Rightarrow> None)"

fun gpu_devices :: "(string dict \<times> string option) list \<Rightarrow> gpu_device dict \<Rightarrow> gpu_device dict option" where
  "gpu_devices [] devices = Some devices"
| "gpu_devices ((labels, v) # rest) devices =
     (let key = (case nonempty (dget labels ''gpu'') of
                   Some k \<Rightarrow> k
                 | None \<Rightarrow> (case nonempty (dget labels ''UUID'') of Some k \<Rightarrow> k | None \<Rightarrow> str_of_int (int (length devices))))
      in case device_mem v of
           None \<Rightarrow> None
         | Some mem \<Rightarrow> gpu_devices rest (dset key \<lparr>gd_model = dget labels ''modelName'', gd_mem = mem\<rparr> devices))"

definition device_order :: "string \<Rightarrow> int \<times> int \<times> string" where
  "device_order k = (case py_int k of Some i \<Rightarrow> (0, i, []) | None \<Rightarrow> (1, 0, k))"

record gpu_hardware =
  hw_models :: "string option"
  hw_memory :: "int list"

definition no_hardware :: gpu_hardware where
  "no_hardware = \<lparr>hw_models = None, hw_memory = []\<rparr>"

text \<open>\<open>resp\<close> is the answer to the instant query of the pod: \<^const>\<open>None\<close> for none, one without success, or an
  exception.\<close>

definition dcgm_gpu_hardware ::
  "string \<Rightarrow> string option \<Rightarrow> (string dict \<times> string option) list option \<Rightarrow> gpu_hardware option" where
  "dcgm_gpu_hardware ns pod resp =
     (if ns = [] \<or> nonempty pod = None then Some no_hardware
      else (case resp of
              None \<Rightarrow> Some no_hardware
            | Some ss \<Rightarrow>
                map_option (\<lambda>devices.
                    let ordered = map snd (sort_key (device_order \<circ> fst) devices);
                        models = List.map_filter (nonempty \<circ> gd_model) ordered
                    in \<lparr>hw_models = (if models = [] then None else Some (join_str [CHR 0x0A] models)),
                        hw_memory = List.map_filter gd_mem ordered\<rparr>) (gpu_devices ss [])))"

text \<open>A discovery snapshot: the metadata of the pod and the sections it is read for.\<close>

record discovery = pod_place +
  dc_gpu :: "pyval dict"
  dc_system :: "pyval dict"
  dc_network :: "pyval dict"
  dc_storage :: "pyval dict"
  dc_performance :: "pyval dict"

definition discovery_details_keys :: "(string \<times> (discovery \<Rightarrow> pyval dict) \<times> string list) list" where
  "discovery_details_keys =
     [(''cpu'', dc_system, [''cpu_architecture'', ''cpu_cores_per_socket'', ''cpu_threads_per_core'', ''cache_l3'']),
      (''network'', dc_network, [''rdma_devices'', ''rdma_device_count'', ''primary_mtu'']),
      (''storage'', dc_storage, [''block_devices'']),
      (''kernel_config'', dc_performance, [''cpu_governor'', ''numa_balancing'', ''transparent_hugepages'', ''max_map_count''])]"

definition blank_value :: "pyval \<Rightarrow> bool" where
  "blank_value v \<longleftrightarrow> v \<in> {VNone, VStr [], VStr ''N/A'', VStr ''None''}"

definition detail_section :: "pyval dict \<Rightarrow> string list \<Rightarrow> pyval dict" where
  "detail_section src keys = List.map_filter (\<lambda>k. if blank_value (vget src k) then None else Some (k, vget src k)) keys"

definition py_text :: "(pyval \<Rightarrow> string) \<Rightarrow> pyval \<Rightarrow> string" where
  "py_text str v = (case v of VStr s \<Rightarrow> s | VNone \<Rightarrow> ''None'' | VInt i \<Rightarrow> str_of_int i | _ \<Rightarrow> str v)"

text \<open>The memory sizes in the text: \<^verbatim>\<open>int(float(m))\<close> raises for an infinity or NaN.\<close>

definition memory_texts :: "(pyval \<Rightarrow> string) \<Rightarrow> pyval dict \<Rightarrow> string list" where
  "memory_texts str gpu =
     (case dget gpu ''gpu_memory_per_device_mb'' of
        None \<Rightarrow> []
      | Some v \<Rightarrow> (if v = VDict [] then [] else py_split (py_text str v)))"

definition memory_sizes :: "string list \<Rightarrow> int list option" where
  "memory_sizes ws = those (map int_of_float (List.map_filter py_float ws))"

definition discovery_details :: "(pyval \<Rightarrow> string) \<Rightarrow> discovery \<Rightarrow> pyval dict option" where
  "discovery_details str d =
     map_option (\<lambda>mem.
       List.map_filter (\<lambda>(name, section, keys).
           let vals = detail_section (section d) keys in if vals = [] then None else Some (name, VDict vals)) discovery_details_keys
       @ (if mem = [] then [] else [(''gpu_memory_mb'', VList (map VInt mem))]))
       (memory_sizes (memory_texts str (dc_gpu d)))"

definition gpu_type :: "pyval \<Rightarrow> pyval option" where
  "gpu_type v =
     (case v of
        VStr s \<Rightarrow>
          (if s \<noteq> [] \<and> py_lower (py_strip s) \<noteq> [] \<and> py_lower (py_strip s) \<noteq> ''not available''
           then Some (VStr (py_strip (hd (split_c CHR 0x0A (py_strip s))))) else Some VNone)
      | _ \<Rightarrow> (if truthy v then None else Some VNone))"

text \<open>\<^verbatim>\<open>float(v)\<close> and \<^verbatim>\<open>round(x, 2)\<close>.\<close>

definition py_float_of :: "pyval \<Rightarrow> pyfloat option" where
  "py_float_of v =
     (case v of
        VStr s \<Rightarrow> py_float s
      | VInt i \<Rightarrow> (case rnd64 (of_int i) of Fin q \<Rightarrow> Some (Num (Fin q)) | _ \<Rightarrow> None)
      | VFloat x \<Rightarrow> Some x
      | VBool b \<Rightarrow> Some (Num (Fin (if b then 1 else 0)))
      | _ \<Rightarrow> None)"

fun py_round2 :: "pyfloat \<Rightarrow> pyfloat" where
  "py_round2 (Num (Fin q)) = Num (round2_q q)"
| "py_round2 x = x"

definition memory_gb :: "pyval \<Rightarrow> pyval option" where
  "memory_gb v = (if truthy v then map_option (VFloat \<circ> py_round2) (py_float_of v) else Some VNone)"

definition framework_label :: "(pyval \<Rightarrow> string) \<Rightarrow> string dict \<Rightarrow> pyval dict \<Rightarrow> pyval" where
  "framework_label str a ri =
     (let name = (case dget ri ''framework'' of Some v \<Rightarrow> v | None \<Rightarrow> ann a ''model-framework'');
          version = vget ri ''framework_version''
      in if truthy name \<and> truthy version then VStr (py_text str name @ '' '' @ py_text str version) else vor version name)"

definition environment_base ::
  "(pyval \<Rightarrow> string) \<Rightarrow> string dict \<Rightarrow> pyval dict \<Rightarrow> container list \<Rightarrow> discovery \<Rightarrow> pyval \<Rightarrow> pyval \<Rightarrow> pyval dict" where
  "environment_base str a ri cs d gpu mem =
     [(''gpu_type'', gpu),
      (''gpu_count'', case pod_gpu_count (pm_name d) cs of Some n \<Rightarrow> VInt n | None \<Rightarrow> vget (dc_gpu d) ''gpu_count''),
      (''cpu_model'', vget (dc_system d) ''cpu_model''),
      (''cpu_cores'', vget (dc_system d) ''cpu_count''),
      (''memory_gb'', mem),
      (''numa_nodes'', vget (dc_system d) ''numa_node_count''),
      (''cuda_version'', vget (dc_gpu d) ''cuda_version''),
      (''driver_version'', vget (dc_gpu d) ''gpu_driver_version''),
      (''framework_version'', framework_label str a ri),
      (''kernel_version'', safe_get (VDict (dc_system d)) [''kernel_version''])]"

definition environment_section ::
  "(pyval \<Rightarrow> string) \<Rightarrow> string dict \<Rightarrow> pyval dict \<Rightarrow> container list \<Rightarrow> gpu_hardware option \<Rightarrow> discovery \<Rightarrow> pyval dict option" where
  "environment_section str a ri cs dcgm d =
     (case dcgm of
        None \<Rightarrow> None
      | Some hw \<Rightarrow>
          (case (gpu_type (case hw_models hw of Some m \<Rightarrow> VStr m
                           | None \<Rightarrow> (case dget (dc_gpu d) ''gpu_models'' of Some v \<Rightarrow> v | None \<Rightarrow> VStr [])),
                 memory_gb (vget (dc_system d) ''memory_total_gb''),
                 discovery_details str d) of
             (Some gpu, Some mem, Some details) \<Rightarrow>
               (let e = dupdate (environment_base str a ri cs d gpu mem) details
                in Some (if hw_memory hw = [] then e else dset ''gpu_memory_mb'' (VList (map VInt (hw_memory hw))) e))
           | _ \<Rightarrow> None))"

subsection \<open>Utilization\<close>

definition float_of :: "rat \<Rightarrow> rat" where
  "float_of q = (case rnd64 q of Fin x \<Rightarrow> x | _ \<Rightarrow> q)"

definition utilization_units :: "(string \<times> rat option \<times> string) list" where
  "utilization_units =
     [(''gpu_utilization'', None, ''percent''), (''gpu_memory_used'', None, ''MiB''), (''gpu_power'', None, ''watts''),
      (''cpu_usage'', None, ''cores''), (''memory_usage'', Some (1 / 1073741824), ''GiB''),
      (''network_receive'', Some (float_of (8 / 1000000)), ''Mbps''), (''network_transmit'', Some (float_of (8 / 1000000)), ''Mbps''),
      (''storage_read_throughput'', Some (float_of (1 / 1000000)), ''MBps''),
      (''storage_write_throughput'', Some (float_of (1 / 1000000)), ''MBps'')]"

record utilization =
  ut_metrics :: "(metric_report \<times> pyfloat option) dict"
  ut_cold_start :: bool

definition metric_limit :: "container list \<Rightarrow> pod_telemetry list \<Rightarrow> string \<Rightarrow> pyfloat option" where
  "metric_limit cs pods name =
     compute_metric_limit name (map pt_name (filter (\<lambda>p. dget (pt_metrics p) name \<noteq> None) pods)) cs
       (case map_of utilization_units name of Some (Some s, _) \<Rightarrow> s | _ \<Rightarrow> 1)"

definition utilization_section :: "container list \<Rightarrow> pod_telemetry list option \<Rightarrow> utilization option" where
  "utilization_section cs t =
     (case t of
        Some (p # ps) \<Rightarrow>
          Some \<lparr>ut_metrics = map (\<lambda>(n, r). (n, r, metric_limit cs (p # ps) n))
                               (aggregate_pod_metrics (map pt_metrics (p # ps)) utilization_units),
                ut_cold_start = list_ex pt_cold_start (p # ps)\<rparr>
      | _ \<Rightarrow> None)"

subsection \<open>The document\<close>

text \<open>What the compilation reads besides its arguments: names, the clock, time-stamp parsing, the text of
  values and the instant query.\<close>

record compile_env =
  ce_job :: string
  ce_namespace :: string
  ce_bracket_ok :: "string \<Rightarrow> bool"
  ce_str :: "pyval \<Rightarrow> string"
  ce_now_s :: rat
  ce_now_text :: string
  ce_parse_s :: "string \<Rightarrow> rat option"
  ce_parse_ms :: "string \<Rightarrow> int option"
  ce_instant :: "string option \<Rightarrow> (string dict \<times> string option) list option"

record aibom =
  ab_intent :: string
  ab_intent_via :: "string option"
  ab_name :: "string option"
  ab_description :: "string option"
  ab_source :: source_code
  ab_pods :: "pod_entry list"
  ab_duration :: "int option"
  ab_status :: "string option"
  ab_model :: "pyval dict"
  ab_dataset :: "(declared_dataset \<times> seen_dataset list) option"
  ab_training :: "pyval dict option"
  ab_fine_tuning :: "pyval dict option"
  ab_inference :: "inference option"
  ab_environment :: "pyval dict option"
  ab_utilization :: "utilization option"
  ab_generated_at :: string
  ab_dataset_detection :: string

record compile_input =
  ci_discoveries :: "discovery list"
  ci_datasets :: "seen_dataset list"
  ci_runtime :: "pyval dict"
  ci_annotations :: "string dict"
  ci_telemetry :: "pod_telemetry list option"
  ci_model :: "pyval dict"
  ci_cli_dataset :: "string dict"
  ci_provenance :: "provenance option"
  ci_containers :: "container list"
  ci_serving_telemetry :: "pod_telemetry list option"

text \<open>A section that is there under a condition; the outer \<^const>\<open>None\<close> is an exception.\<close>

definition section_if :: "bool \<Rightarrow> 'a option \<Rightarrow> 'a option option" where
  "section_if b x = (if b then map_option Some x else Some None)"

definition environment_of :: "compile_env \<Rightarrow> compile_input \<Rightarrow> pyval dict option option" where
  "environment_of env inp =
     (case ci_discoveries inp of
        [] \<Rightarrow> Some None
      | d # _ \<Rightarrow>
          map_option Some (environment_section (ce_str env) (ci_annotations inp) (ci_runtime inp) (ci_containers inp)
            (dcgm_gpu_hardware (ce_namespace env) (pm_name d) (ce_instant env (pm_name d))) d))"

definition compile_aibom :: "compile_env \<Rightarrow> compile_input \<Rightarrow> aibom option" where
  "compile_aibom env inp =
     (let a = ci_annotations inp; dm = ci_model inp; ri = ci_runtime inp; cs = ci_containers inp;
          (intent, via) = experiment_intent a dm;
          pods = map (compile_pod cs) (ci_discoveries inp)
      in case (section_if (is_training intent) (training_section a dm ri),
               section_if (intent = ''inference'') (inference_section a dm pods (ci_serving_telemetry inp)),
               environment_of env inp) of
           (Some training, Some inference, Some environment) \<Rightarrow>
             Some \<lparr>ab_intent = intent, ab_intent_via = via,
                   ab_name = (if nonempty (dget a ''experiment-name'') \<noteq> None then dget a ''experiment-name''
                              else nonempty (Some (ce_job env))),
                   ab_description = dget a ''experiment-description'',
                   ab_source = source_code_section (ce_bracket_ok env) a (ci_provenance inp),
                   ab_pods = pods,
                   ab_duration = duration_seconds (ce_parse_s env) (ce_parse_ms env) (ce_now_s env) cs pods,
                   ab_status = workload_status cs pods,
                   ab_model = model_section a dm ri,
                   ab_dataset = dataset_section a (ci_cli_dataset inp) (ci_datasets inp) intent,
                   ab_training = training,
                   ab_fine_tuning = (if intent = ''sft'' then Some (fine_tuning_section a dm ri) else None),
                   ab_inference = inference,
                   ab_environment = environment,
                   ab_utilization = utilization_section cs (ci_telemetry inp),
                   ab_generated_at = ce_now_text env,
                   ab_dataset_detection = (if ci_datasets inp = [] then ''no datasets detected'' else ''enabled'')\<rparr>
         | _ \<Rightarrow> None)"

subsection \<open>Source code\<close>



subsection \<open>Model and data set\<close>

lemma vget_set_if: "vget (set_if k v d) j = (if j = k \<and> truthy v then v else vget d j)"
  by (simp add: set_if_def)

lemma ann_Some: "dget a k = Some s \<Longrightarrow> ann a k = VStr s"
  by (simp add: ann_def sval_def)

text \<open>A model that an annotation names is reported under that name, and identity details that were read
  from the files of a differently named model are not attached to it.\<close>

theorem model_details_own:
  assumes "dget a ''model-name'' = Some n" and "n \<noteq> []" and "vget dm ''model_name'' \<noteq> VStr n"
  shows "vget (model_section a dm ri) ''name'' = VStr n
    \<and> (\<forall>k \<in> {''revision'', ''base_model'', ''size_bytes''}. vget (model_section a dm ri) k = VNone)
    \<and> (truthy (vget dm ''model_name_declared_via'') \<longrightarrow> vget (model_section a dm ri) ''name_declared_via'' = VStr ''annotation'')"
proof -
  have n: "ann a ''model-name'' = VStr n" using assms(1) by (rule ann_Some)
  then have own: "\<not> own_details a dm" using assms(2,3) by (auto simp: own_details_def)
  have base: "vget (model_base a dm ri) ''name'' = VStr n" "vget (model_base a dm ri) ''revision'' = VNone"
    "vget (model_base a dm ri) ''base_model'' = VNone" "vget (model_base a dm ri) ''size_bytes'' = VNone"
    using n assms(2) by (simp_all add: model_base_def vget_def dget_def vor_def)
  show ?thesis using own n assms(2) by (simp add: model_section_def Let_def vget_set_if base)
qed

theorem model_details_own_witness:
  "vget (model_section [(''model-name'', ''mine'')] [(''model_name'', VStr ''other''), (''model_revision'', VStr ''r1'')] []) ''revision'' = VNone"
  using model_details_own [of "[(''model-name'', ''mine'')]" "''mine''" "[(''model_name'', VStr ''other''), (''model_revision'', VStr ''r1'')]" "[]"]
  by (simp add: dget_def vget_def)

text \<open>A detected data set is compared with the declared one exactly if the declared name is independent
  of the detection, from an annotation or the command line; the result is then the comparison of the two
  names.\<close>

theorem dataset_matches_independent:
  assumes "dataset_section a cli seen intent = Some (d, entries)" and "e \<in> set entries"
  shows "se_matches e = (if nonempty (dget a ''dataset-name'') = None \<and> nonempty (dget cli ''dataset_name'') = None then None
      else Some (dataset_names_match (se_name e)
             (if nonempty (dget a ''dataset-name'') \<noteq> None then dget a ''dataset-name'' else dget cli ''dataset_name'')))"
proof -
  have d: "d = infer_declared seen (declared_base a cli)" and es: "entries = map (mark_matches d) seen"
    using assms(1) by (auto simp: dataset_section_def Let_def split: if_splits)
  obtain first rest where seen: "seen = first # rest" using assms(2) es by (cases seen) auto
  have names: "nonempty (de_name (declared_base a cli)) = None \<longleftrightarrow>
      nonempty (dget a ''dataset-name'') = None \<and> nonempty (dget cli ''dataset_name'') = None"
    by (auto simp: declared_base_def Let_def)
  have via: "de_via (declared_base a cli) \<noteq> Some ''inferred_from_runtime''" by (simp add: declared_base_def Let_def)
  have nm: "de_name (declared_base a cli) =
      (if nonempty (dget a ''dataset-name'') \<noteq> None then dget a ''dataset-name'' else dget cli ''dataset_name'')"
    by (simp add: declared_base_def Let_def)
  from assms(2) es obtain x where x: "x \<in> set seen" "e = mark_matches d x" by auto
  show ?thesis
  proof (cases "nonempty (de_name (declared_base a cli)) = None")
    case True
    then have "de_via d = Some ''inferred_from_runtime''" by (simp add: d seen infer_declared_def)
    then show ?thesis using True names x(2) by (simp add: mark_matches_def)
  next
    case False
    then have "d = declared_base a cli" by (simp add: d seen infer_declared_def)
    then show ?thesis using False names nm via x(2) by (auto simp: mark_matches_def)
  qed
qed

theorem dataset_matches_independent_witness:
  "\<exists>d e. dataset_section [(''dataset-name'', ''imdb'')] []
        [\<lparr>se_name = Some ''stanfordnlp/imdb'', se_source = None, se_version = None, se_license = None, se_matches = None\<rparr>] ''training''
      = Some (d, [e]) \<and> se_matches e = Some True"
proof -
  let ?x = "\<lparr>se_name = Some ''stanfordnlp/imdb'', se_source = None, se_version = None, se_license = None, se_matches = None\<rparr>"
  obtain d e where e: "dataset_section [(''dataset-name'', ''imdb'')] [] [?x] ''training'' = Some (d, [e])"
    and n: "se_name e = Some ''stanfordnlp/imdb''"
    by (simp add: dataset_section_def is_training_def Let_def mark_matches_def)
  have "dataset_names_match (Some ''stanfordnlp/imdb'') (Some ''imdb'')" by code_simp
  then have "se_matches e = Some True"
    using dataset_matches_independent [OF e, of e] n by (simp add: dget_def)
  with e show ?thesis by blast
qed

subsection \<open>When compilation fails\<close>

text \<open>A discovery snapshot whose memory size is the text that the snapshot writes when its command
  failed ends the compilation with an exception, whatever else is known of the workload.\<close>

lemma compile_fails_memory:
  assumes "ci_discoveries inp = d # ds" and "vget (dc_system d) ''memory_total_gb'' = VStr ''Not available''"
  shows "compile_aibom env inp = None"
proof -
  have "py_float ''Not available'' = None" by code_simp
  then have "memory_gb (VStr ''Not available'') = None" by (simp add: memory_gb_def py_float_of_def)
  then have "environment_of env inp = None"
    using assms by (auto simp: environment_of_def environment_section_def split: option.split)
  then show ?thesis by (auto simp: compile_aibom_def Let_def split: prod.split option.split)
qed

text \<open>The compilation succeeds whenever the values it computes with have the form that the snapshot and
  the detectors write: a number or nothing for the memory size, a text or nothing for the GPU models,
  finite GPU memory sizes, a number or nothing for the device count and an object or nothing for the
  generation settings.\<close>

definition compilable :: "compile_env \<Rightarrow> compile_input \<Rightarrow> bool" where
  "compilable env inp \<longleftrightarrow>
     more_than_one (vget (ci_runtime inp) ''model_device_count'') \<noteq> None \<and> gen_overrides (ci_model inp) \<noteq> None
     \<and> (case ci_discoveries inp of [] \<Rightarrow> True
        | d # _ \<Rightarrow> memory_gb (vget (dc_system d) ''memory_total_gb'') \<noteq> None
            \<and> gpu_type (case dget (dc_gpu d) ''gpu_models'' of Some v \<Rightarrow> v | None \<Rightarrow> VStr []) \<noteq> None
            \<and> memory_sizes (memory_texts (ce_str env) (dc_gpu d)) \<noteq> None
            \<and> (case ce_instant env (pm_name d) of None \<Rightarrow> True | Some ss \<Rightarrow> list_all (\<lambda>(_, v). device_mem v \<noteq> None) ss))"

lemma gpu_devices_total: "list_all (\<lambda>(_, v). device_mem v \<noteq> None) ss \<Longrightarrow> gpu_devices ss devices \<noteq> None"
  by (induction ss devices rule: gpu_devices.induct) (auto simp: Let_def split: option.splits)

lemma compile_total:
  assumes "compilable env inp"
  shows "\<exists>ab. compile_aibom env inp = Some ab"
proof -
  have tr: "section_if b (training_section a (ci_model inp) (ci_runtime inp)) \<noteq> None" for a b
    using assms by (auto simp: section_if_def training_section_def strategy_def Let_def compilable_def)
  have inf: "section_if b (inference_section a (ci_model inp) pods t) \<noteq> None" for a b pods t
    using assms by (auto simp: section_if_def inference_section_def compilable_def)
  have env: "environment_of env inp \<noteq> None"
  proof (cases "ci_discoveries inp")
    case (Cons d ds)
    have hw: "dcgm_gpu_hardware (ce_namespace env) (pm_name d) (ce_instant env (pm_name d)) \<noteq> None"
      using assms Cons gpu_devices_total by (auto simp: dcgm_gpu_hardware_def compilable_def Let_def split: option.splits)
    then obtain w where w: "dcgm_gpu_hardware (ce_namespace env) (pm_name d) (ce_instant env (pm_name d)) = Some w" by auto
    have str: "gpu_type (VStr m) \<noteq> None" for m by (simp add: gpu_type_def)
    have "gpu_type (case hw_models w of Some m \<Rightarrow> VStr m
        | None \<Rightarrow> (case dget (dc_gpu d) ''gpu_models'' of Some v \<Rightarrow> v | None \<Rightarrow> VStr [])) \<noteq> None"
      using assms Cons str by (cases "hw_models w") (simp_all add: compilable_def)
    moreover have "discovery_details (ce_str env) d \<noteq> None" and "memory_gb (vget (dc_system d) ''memory_total_gb'') \<noteq> None"
      using assms Cons by (simp_all add: compilable_def discovery_details_def)
    ultimately show ?thesis using w Cons by (auto simp: environment_of_def environment_section_def Let_def)
  qed (simp add: environment_of_def)
  obtain intent via where iv: "experiment_intent (ci_annotations inp) (ci_model inp) = (intent, via)" by fastforce
  let ?pods = "map (compile_pod (ci_containers inp)) (ci_discoveries inp)"
  obtain t i e where "section_if (is_training intent) (training_section (ci_annotations inp) (ci_model inp) (ci_runtime inp)) = Some t"
    and "section_if (intent = ''inference'') (inference_section (ci_annotations inp) (ci_model inp) ?pods (ci_serving_telemetry inp)) = Some i"
    and "environment_of env inp = Some e"
    using tr [of "is_training intent" "ci_annotations inp"]
      inf [of "intent = ''inference''" "ci_annotations inp" ?pods "ci_serving_telemetry inp"] env by auto
  then show ?thesis by (simp add: compile_aibom_def iv Let_def)
qed

definition sample_discovery :: discovery where
  "sample_discovery = \<lparr>pm_uid = Some ''u'', pm_name = Some ''p'', pm_start_time = None, pm_gpu_count = VNone,
     pl_namespace = None, pl_ip = None, pl_node = None, dc_gpu = [(''gpu_models'', VStr ''A100'')],
     dc_system = [], dc_network = [], dc_storage = [], dc_performance = []\<rparr>"

definition sample_input :: compile_input where
  "sample_input = \<lparr>ci_discoveries = [sample_discovery], ci_datasets = [], ci_runtime = [], ci_annotations = [],
     ci_telemetry = None, ci_model = [], ci_cli_dataset = [], ci_provenance = None, ci_containers = [],
     ci_serving_telemetry = None\<rparr>"

definition sample_env :: compile_env where
  "sample_env = \<lparr>ce_job = ''job'', ce_namespace = ''ns'', ce_bracket_ok = (\<lambda>_. False), ce_str = (\<lambda>_. []), ce_now_s = 0,
     ce_now_text = ''t'', ce_parse_s = (\<lambda>_. None), ce_parse_ms = (\<lambda>_. None), ce_instant = (\<lambda>_. None)\<rparr>"

text \<open>An infinite framebuffer size ends the hardware query with an exception.\<close>

lemma dcgm_infinite_raises:
  assumes "ns \<noteq> []" and "nonempty pod \<noteq> None" and "Option.bind v py_float = Some (Num PInf)"
  shows "dcgm_gpu_hardware ns pod (Some [(labels, v)]) = None"
  using assms by (simp add: dcgm_gpu_hardware_def device_mem_def Let_def)

text \<open>An annotation of zero does not override a detected temperature.\<close>

lemma zero_temperature_dropped:
  assumes "dget a ''temperature'' = Some ''0''"
  shows "vget (inference_base a dm g) ''temperature'' = vget g ''temperature''"
proof -
  have d: "py_strip ''0'' = ''0''" "py_lower ''0'' = ''0''" "opt_digits ''0'' = Some ''0''" "int_of_digits ''0'' = 0" by code_simp+
  have "py_float ''0'' = Some (Num (Fin 0))"
    by (simp add: py_float_def unsigned_float_def unsigned_decimal_def dec_value_def partition_c_absent opt_digits_def [of "[]"] d)
  then have "ann_float a ''temperature'' = VFloat (Num (Fin 0))" using assms by (simp add: ann_float_def try_float_def)
  then show ?thesis by (simp add: inference_base_def vget_def dget_def vor_def)
qed

end
