(* ===== verification/TimeSeries.thy ===== *)
theory TimeSeries
  imports Telemetry Regex "HOL-Library.Product_Lexorder"
begin

text \<open>
  The persisted time series of \<^verbatim>\<open>postprocess/postprocess.py\<close>: reading the series of a range response,
  aggregating them, coarsening the resolution and fitting the document to a size limit. Values are
  finite numbers; Python keeps integral ones as \<^verbatim>\<open>int\<close>, so whether a value is an \<^verbatim>\<open>int\<close> or a \<^verbatim>\<open>float\<close>
  follows from it, and \<^verbatim>\<open>sum\<close> is CPython 3.12's on such mixed lists. An exception is \<^const>\<open>None\<close>. The
  size of an encoded document is a parameter. The loop that coarsens the document need not end, so
  it is a partial function in the option type.
\<close>

subsection \<open>Numbers\<close>

datatype num_result = NI int | NF pyfloat

definition fits_long :: "int \<Rightarrow> bool" where
  "fits_long i \<longleftrightarrow> - (2 ^ 63) \<le> i \<and> i < 2 ^ 63"

text \<open>\<^verbatim>\<open>sum\<close>: exact on machine integers, compensated once a float was met, and pairwise addition after an
  integer that does not fit a machine word.\<close>

definition add_gen :: "num_result \<Rightarrow> rat \<Rightarrow> num_result" where
  "add_gen acc q =
     (if is_integer_q q then
        (case acc of NI i \<Rightarrow> NI (i + \<lfloor>q\<rfloor>) | NF f \<Rightarrow> NF (f_add f (Num (rnd64 q))))
      else (case acc of NI i \<Rightarrow> NF (f_add (Num (rnd64 (of_int i))) (Num (Fin q))) | NF f \<Rightarrow> NF (f_add f (Num (Fin q)))))"

definition settle :: "pyfloat \<Rightarrow> pyfloat \<Rightarrow> pyfloat" where
  "settle t c = (if c \<noteq> Num (Fin 0) \<and> f_isfinite c then f_add t c else t)"

fun sum_float :: "pyfloat \<Rightarrow> pyfloat \<Rightarrow> rat list \<Rightarrow> num_result" where
  "sum_float t c [] = NF (settle t c)"
| "sum_float t c (q # qs) =
     (if is_integer_q q then
        (if fits_long \<lfloor>q\<rfloor> then sum_float (f_add t (Num (rnd64 q))) c qs
         else foldl add_gen (add_gen (NF (settle t c)) q) qs)
      else (let x = Num (Fin q); t' = f_add t x;
                c' = (if f_le (f_abs x) (f_abs t) then f_add c (f_add (f_sub t t') x)
                      else f_add c (f_add (f_sub x t') t))
            in sum_float t' c' qs))"

fun sum_int :: "int \<Rightarrow> rat list \<Rightarrow> num_result" where
  "sum_int acc [] = NI acc"
| "sum_int acc (q # qs) =
     (if is_integer_q q then
        (if fits_long \<lfloor>q\<rfloor> \<and> fits_long (acc + \<lfloor>q\<rfloor>) then sum_int (acc + \<lfloor>q\<rfloor>) qs
         else foldl add_gen (NI (acc + \<lfloor>q\<rfloor>)) qs)
      else sum_float (f_add (Num (rnd64 (of_int acc))) (Num (Fin q))) (Num (Fin 0)) qs)"

definition num_avg :: "rat list \<Rightarrow> num_result" where
  "num_avg qs = NF (case sum_int 0 qs of NI i \<Rightarrow> Num (rnd64 (of_int i / of_nat (length qs))) | NF f \<Rightarrow> f_div_n f (length qs))"

text \<open>\<^verbatim>\<open>_round_sig\<close>: six significant digits; \<^const>\<open>None\<close> for an infinity, a NaN, or an integer too large for a
  float.\<close>

definition fin_of :: "xfloat \<Rightarrow> rat option" where
  "fin_of x = (case x of Fin q \<Rightarrow> Some q | _ \<Rightarrow> None)"

definition round_sig6 :: "num_result \<Rightarrow> rat option" where
  "round_sig6 v =
     (case v of
        NI i \<Rightarrow> Option.bind (fin_of (rnd64 (of_int i))) (\<lambda>q. fin_of (sig_q 6 q))
      | NF (Num x) \<Rightarrow> Option.bind (fin_of x) (\<lambda>q. fin_of (sig_q 6 q))
      | NF NaN \<Rightarrow> None)"

subsection \<open>Series\<close>

type_synonym points = "(int \<times> rat) list"

record labeled_series =
  ls_labels :: "string dict"
  ls_points :: points

definition series_label_sources :: "(string \<times> string) list" where
  "series_label_sources = [(''exported_pod'', ''pod''), (''pod'', ''pod''), (''container'', ''container''),
     (''interface'', ''interface''), (''gpu'', ''gpu'')]"

definition series_labels :: "string dict \<Rightarrow> string dict" where
  "series_labels metric =
     foldl (\<lambda>labels (source, dest).
        case nonempty (dget metric source) of
          Some v \<Rightarrow> (if dget labels dest = None then dset dest v labels else labels)
        | None \<Rightarrow> labels) [] series_label_sources"

fun series_points :: "(rat \<times> string) list \<Rightarrow> points option" where
  "series_points [] = Some []"
| "series_points ((ts, v) # rest) =
     (case py_float v of
        Some (Num (Fin q)) \<Rightarrow>
          (case round_sig6 (NF (Num (Fin q))) of
             Some r \<Rightarrow> map_option (Cons (trunc_q ts, r)) (series_points rest)
           | None \<Rightarrow> None)
      | _ \<Rightarrow> series_points rest)"

fun collect_series :: "(string dict \<times> (rat \<times> string) list) list \<Rightarrow> labeled_series list option" where
  "collect_series [] = Some []"
| "collect_series ((metric, samples) # rest) =
     (case series_points samples of
        None \<Rightarrow> None
      | Some ps \<Rightarrow>
          (if ps = [] then collect_series rest
           else map_option (Cons \<lparr>ls_labels = series_labels metric, ls_points = ps\<rparr>) (collect_series rest)))"

definition parse_range_series :: "prom_response option \<Rightarrow> labeled_series list option" where
  "parse_range_series resp =
     (case resp of
        None \<Rightarrow> Some []
      | Some r \<Rightarrow>
          (if pr_status r \<noteq> ''success'' then Some []
           else map_option (sort_key (\<lambda>s. sort (ls_labels s))) (collect_series (pr_series r))))"

text \<open>Reducing the values that share a key; the groups are in the order of their keys.\<close>

definition group_values :: "(int \<times> rat) list \<Rightarrow> (int \<times> rat list) list" where
  "group_values kvs = map (\<lambda>k. (k, map snd (filter (\<lambda>(j, _). j = k) kvs))) (sort (remdups (map fst kvs)))"

definition reducer :: "string \<Rightarrow> rat list \<Rightarrow> num_result" where
  "reducer how vs =
     (if how = ''sum'' then sum_int 0 vs
      else if how = ''max'' then NF (Num (Fin (list_max vs)))
      else num_avg vs)"

definition reduce_groups :: "string \<Rightarrow> (int \<Rightarrow> int) \<Rightarrow> (int \<times> rat) list \<Rightarrow> points option" where
  "reduce_groups how label kvs =
     those (map (\<lambda>(k, vs). map_option (Pair (label k)) (round_sig6 (reducer how vs))) (group_values kvs))"

definition aggregate_points :: "labeled_series list \<Rightarrow> string \<Rightarrow> points option" where
  "aggregate_points ss how = reduce_groups how id (concat (map ls_points ss))"

definition rebucket_points :: "points \<Rightarrow> int \<Rightarrow> int \<Rightarrow> string \<Rightarrow> points option" where
  "rebucket_points ps anchor bucket_s how =
     reduce_groups how (\<lambda>k. anchor + k * bucket_s) (map (\<lambda>(ts, v). ((ts - anchor) div bucket_s, v)) ps)"

subsection \<open>The document\<close>

record series_metric =
  sm_unit :: string
  sm_aggregation :: string
  sm_aggregate :: points
  sm_peak :: "points option"
  sm_series :: "labeled_series list option"
  sm_omitted :: bool

record series_doc =
  sd_start :: int
  sd_end :: int
  sd_step :: int
  sd_pods :: "string list"
  sd_metrics :: "series_metric dict"

definition rebucket_series :: "int \<Rightarrow> int \<Rightarrow> labeled_series \<Rightarrow> labeled_series option" where
  "rebucket_series anchor bucket_s s =
     map_option (\<lambda>ps. s\<lparr>ls_points := ps\<rparr>) (rebucket_points (ls_points s) anchor bucket_s ''avg'')"

definition rebucket_metric :: "int \<Rightarrow> int \<Rightarrow> series_metric \<Rightarrow> series_metric option" where
  "rebucket_metric anchor bucket_s m =
     (case (rebucket_points (sm_aggregate m) anchor bucket_s ''avg'',
            (case sm_peak m of None \<Rightarrow> Some None | Some p \<Rightarrow> map_option Some (rebucket_points p anchor bucket_s ''max'')),
            (case sm_series m of None \<Rightarrow> Some None
             | Some ss \<Rightarrow> map_option Some (those (map (rebucket_series anchor bucket_s) ss)))) of
        (Some a, Some p, Some s) \<Rightarrow> Some (m\<lparr>sm_aggregate := a, sm_peak := p, sm_series := s\<rparr>)
      | _ \<Rightarrow> None)"

definition rebucket_series_doc :: "series_doc \<Rightarrow> int \<Rightarrow> series_doc option" where
  "rebucket_series_doc doc factor =
     (let bucket_s = sd_step doc * factor
      in map_option (\<lambda>ms. doc\<lparr>sd_step := bucket_s, sd_metrics := ms\<rparr>)
           (those (map (\<lambda>(n, m). map_option (Pair n) (rebucket_metric (sd_start doc) bucket_s m)) (sd_metrics doc))))"

text \<open>Fitting: the document that is kept, none, or an exception.\<close>

datatype fit_result = Fit series_doc | NoDoc | Raised

definition omit_series :: "string \<Rightarrow> series_doc \<Rightarrow> series_doc" where
  "omit_series name doc =
     doc\<lparr>sd_metrics := map (\<lambda>(n, m). (n, if n = name then m\<lparr>sm_series := None, sm_omitted := True\<rparr> else m)) (sd_metrics doc)\<rparr>"

definition series_sizes :: "(labeled_series list \<Rightarrow> int) \<Rightarrow> series_doc \<Rightarrow> (int \<times> string) list" where
  "series_sizes senc doc =
     List.map_filter (\<lambda>(n, m). map_option (\<lambda>ss. (senc ss, n)) (sm_series m)) (sd_metrics doc)"

definition detail_count :: "series_doc \<Rightarrow> nat" where
  "detail_count doc = length (filter (\<lambda>(n, m). sm_series m \<noteq> None) (sd_metrics doc))"

lemma omit_series_less:
  assumes "(n, m) \<in> set ms" and "sm_series m \<noteq> None"
  shows "length (filter (\<lambda>(n, m). sm_series m \<noteq> None)
      (map (\<lambda>(k, m). (k, if k = n then m\<lparr>sm_series := None, sm_omitted := True\<rparr> else m)) ms))
    < length (filter (\<lambda>(n, m). sm_series m \<noteq> None) ms)"
proof -
  let ?f = "\<lambda>(k, m). (k, if k = n then m\<lparr>sm_series := None, sm_omitted := True\<rparr> else m)"
  have le: "length (filter (\<lambda>(n, m). sm_series m \<noteq> None) (map ?f xs)) \<le> length (filter (\<lambda>(n, m). sm_series m \<noteq> None) xs)" for xs
    by (induction xs) (auto split: if_splits)
  show ?thesis using assms(1)
  proof (induction ms)
    case (Cons x xs)
    show ?case
    proof (cases "x = (n, m)")
      case True
      then show ?thesis using le [of xs] assms(2) by simp
    next
      case False
      then have "(n, m) \<in> set xs" using Cons.prems by simp
      from Cons.IH [OF this] show ?thesis by (cases x) auto
    qed
  qed simp
qed

lemma series_sizes_mem:
  "(k, n) \<in> set (series_sizes senc doc) \<Longrightarrow> \<exists>m. (n, m) \<in> set (sd_metrics doc) \<and> sm_series m \<noteq> None"
  by (auto simp: series_sizes_def List.map_filter_def)

lemma omit_series_count:
  assumes "series_sizes senc doc \<noteq> []"
  shows "detail_count (omit_series (snd (list_max (series_sizes senc doc))) doc) < detail_count doc"
proof -
  obtain k n where kn: "list_max (series_sizes senc doc) = (k, n)" by fastforce
  then have "(k, n) \<in> set (series_sizes senc doc)" using list_max_in [OF assms] by simp
  then obtain m where m: "(n, m) \<in> set (sd_metrics doc)" "sm_series m \<noteq> None" using series_sizes_mem by blast
  show ?thesis using omit_series_less [OF m] kn by (simp add: omit_series_def detail_count_def)
qed

function drop_detail :: "(series_doc \<Rightarrow> int) \<Rightarrow> (labeled_series list \<Rightarrow> int) \<Rightarrow> int \<Rightarrow> series_doc \<Rightarrow> fit_result" where
  "drop_detail enc senc max_bytes doc =
     (if enc doc \<le> max_bytes then Fit doc
      else if series_sizes senc doc = [] then NoDoc
      else drop_detail enc senc max_bytes (omit_series (snd (list_max (series_sizes senc doc))) doc))"
  by pat_completeness auto
termination
  by (relation "measure (\<lambda>(enc, senc, max_bytes, doc). detail_count doc)") (simp_all add: omit_series_count)

declare drop_detail.simps [simp del]

definition ceil_div :: "int \<Rightarrow> int \<Rightarrow> int" where
  "ceil_div a b = - ((- a) div b)"

definition max_points :: "series_doc \<Rightarrow> int" where
  "max_points doc =
     (if sd_metrics doc = [] then 0 else list_max (map (\<lambda>(n, m). int (length (sm_aggregate m))) (sd_metrics doc)))"

text \<open>The loop over the factors; \<open>doc\<close> is the last candidate. A loop that never ends has the value
  \<^const>\<open>None\<close>.\<close>

partial_function (option) coarsen ::
  "(series_doc \<Rightarrow> int) \<Rightarrow> (labeled_series list \<Rightarrow> int) \<Rightarrow> int \<Rightarrow> int \<Rightarrow> series_doc \<Rightarrow> int \<Rightarrow> series_doc \<Rightarrow> fit_result option" where
  "coarsen enc senc max_bytes min_points original factor doc =
     (if min_points \<le> ceil_div (max_points original) factor then
        (case rebucket_series_doc original factor of
           None \<Rightarrow> Some Raised
         | Some d \<Rightarrow>
             (if enc d \<le> max_bytes then Some (Fit d)
              else coarsen enc senc max_bytes min_points original (factor + 1) d))
      else Some (drop_detail enc senc max_bytes doc))"

declare coarsen.simps [code]

definition fit_series_doc ::
  "(series_doc \<Rightarrow> int) \<Rightarrow> (labeled_series list \<Rightarrow> int) \<Rightarrow> int \<Rightarrow> int \<Rightarrow> series_doc \<Rightarrow> fit_result option" where
  "fit_series_doc enc senc max_bytes min_points doc =
     (if enc doc \<le> max_bytes then Some (Fit doc)
      else coarsen enc senc max_bytes min_points doc 2 doc)"

subsection \<open>Collecting the document\<close>

text \<open>\<^verbatim>\<open>re.compile(r"^[a-z0-9]([-a-z0-9.]*[a-z0-9])?$")\<close>\<close>

definition is_low_alnum :: "char \<Rightarrow> bool" where
  "is_low_alnum c \<longleftrightarrow> py_isdigit_ascii c \<or> (97 \<le> ch_code c \<and> ch_code c \<le> 122)"

definition pod_name_re :: regex where
  "pod_name_re = rseq [RBos, RCls is_low_alnum,
     ROpt (RGroup 1 (RSeq (RStar (\<lambda>c. is_low_alnum c \<or> c \<in> {CHR ''-'', CHR ''.''})) (RCls is_low_alnum))), REos]"

definition pod_regex :: "string option list \<Rightarrow> string" where
  "pod_regex names =
     join_str ''|'' (map (replace_all ''.'' ''[.]'')
       (filter (\<lambda>n. re_match pod_name_re n \<noteq> None) (List.map_filter nonempty names)))"

record series_query =
  sq_query :: string
  sq_unit :: string
  sq_aggregation :: string
  sq_gauge :: bool

definition series_promql :: "series_query \<Rightarrow> string \<Rightarrow> string \<Rightarrow> int \<Rightarrow> string \<Rightarrow> string" where
  "series_promql q ns pods step fn =
     replace_all ''{fn}'' fn (replace_all ''{win}'' (str_of_int step)
       (replace_all ''{pod_regex}'' pods (replace_all ''{namespace}'' ns (sq_query q))))"

text \<open>\<open>backend\<close> is \<^verbatim>\<open>query_prometheus_range\<close> over the window and step of the run.\<close>

definition peak_points ::
  "(string \<Rightarrow> prom_response option) \<Rightarrow> string \<Rightarrow> string \<Rightarrow> int \<Rightarrow> series_query \<Rightarrow> points option option" where
  "peak_points backend ns pods step q =
     (if \<not> sq_gauge q then Some None
      else (case parse_range_series (backend (series_promql q ns pods step ''max'')) of
              None \<Rightarrow> None
            | Some peak \<Rightarrow>
                (if peak = [] then Some None
                 else map_option Some (aggregate_points peak (if sq_aggregation q = ''sum'' then ''sum'' else ''max'')))))"

definition series_entry ::
  "(string \<Rightarrow> prom_response option) \<Rightarrow> int \<Rightarrow> string \<Rightarrow> string \<Rightarrow> int \<Rightarrow> series_query \<Rightarrow> series_metric option option" where
  "series_entry backend max_series ns pods step q =
     (case parse_range_series (backend (series_promql q ns pods step ''avg'')) of
        None \<Rightarrow> None
      | Some ss \<Rightarrow>
          (if ss = [] then Some None
           else (case (aggregate_points ss (sq_aggregation q), peak_points backend ns pods step q) of
                   (Some agg, Some pk) \<Rightarrow>
                     (let many = max_series < int (length ss)
                      in Some (Some \<lparr>sm_unit = sq_unit q, sm_aggregation = sq_aggregation q, sm_aggregate = agg,
                                     sm_peak = pk, sm_series = (if many then None else Some ss), sm_omitted = many\<rparr>))
                 | _ \<Rightarrow> None)))"

fun series_entries ::
  "(string \<Rightarrow> prom_response option) \<Rightarrow> int \<Rightarrow> string \<Rightarrow> string \<Rightarrow> int \<Rightarrow> series_query dict \<Rightarrow> series_metric dict
     \<Rightarrow> series_metric dict option" where
  "series_entries backend max_series ns pods step [] acc = Some acc"
| "series_entries backend max_series ns pods step ((name, q) # rest) acc =
     (case series_entry backend max_series ns pods step q of
        None \<Rightarrow> None
      | Some e \<Rightarrow>
          series_entries backend max_series ns pods step rest (case e of Some m \<Rightarrow> dset name m acc | None \<Rightarrow> acc))"

definition collect_series_metrics ::
  "(string \<Rightarrow> prom_response option) \<Rightarrow> int \<Rightarrow> string \<Rightarrow> string option list \<Rightarrow> int \<Rightarrow> series_query dict
     \<Rightarrow> series_metric dict option" where
  "collect_series_metrics backend max_series ns names step queries =
     (let pods = pod_regex names
      in if pods = [] then Some [] else series_entries backend max_series ns pods step queries [])"

text \<open>The settings and services of the collection: the encoded length of a document and of a list of
  series, the limits, the backend, the query tables and the clock.\<close>

record series_env =
  sv_enc :: "series_doc \<Rightarrow> int"
  sv_senc :: "labeled_series list \<Rightarrow> int"
  sv_max_bytes :: int
  sv_min_points :: int
  sv_target_points :: int
  sv_scrape_s :: int
  sv_max_series :: int
  sv_namespace :: string
  sv_parse_ms :: "string \<Rightarrow> int option"
  sv_now :: int
  sv_range :: "int \<Rightarrow> int \<Rightarrow> int \<Rightarrow> string \<Rightarrow> prom_response option"
  sv_queries :: "series_query dict"
  sv_serving :: "string \<Rightarrow> series_query dict option"

text \<open>\<^verbatim>\<open>max(math.ceil(span_s / SERIES_TARGET_POINTS), SERIES_SCRAPE_INTERVAL_S)\<close>; the division raises for a
  target of zero.\<close>

definition series_step :: "int \<Rightarrow> int \<Rightarrow> int \<Rightarrow> int \<Rightarrow> int option" where
  "series_step start_ms end_ms target scrape =
     (if target = 0 then None
      else (case rnd64 (of_int (end_ms - start_ms) / 1000) of
              Fin secs \<Rightarrow> (case rnd64 (secs / of_int target) of Fin q \<Rightarrow> Some (max \<lceil>q\<rceil> scrape) | _ \<Rightarrow> None)
            | _ \<Rightarrow> None))"

definition series_metrics ::
  "series_env \<Rightarrow> pod_telemetry list \<Rightarrow> pod_telemetry list \<Rightarrow> string \<Rightarrow> int \<Rightarrow> int \<Rightarrow> int \<Rightarrow> series_metric dict option" where
  "series_metrics env res serving engine start_ms end_ms step =
     (let collect = (\<lambda>queries pods. collect_series_metrics (sv_range env start_ms end_ms step) (sv_max_series env)
                        (sv_namespace env) (map pt_name pods) step queries)
      in (case collect (sv_queries env) res of
            None \<Rightarrow> None
          | Some ms \<Rightarrow>
              (case sv_serving env engine of
                 Some queries \<Rightarrow> (if serving = [] then Some ms else map_option (dupdate ms) (collect queries serving))
               | None \<Rightarrow> Some ms)))"

definition series_document ::
  "series_env \<Rightarrow> pod_telemetry list \<Rightarrow> int \<Rightarrow> int \<Rightarrow> int \<Rightarrow> series_metric dict \<Rightarrow> series_doc" where
  "series_document env pods start_ms end_ms step ms =
     \<lparr>sd_start = start_ms div 1000, sd_end = end_ms div 1000, sd_step = step,
      sd_pods = sort (remdups (List.map_filter (nonempty \<circ> pt_name) pods)), sd_metrics = ms\<rparr>"

definition collect_telemetry_series ::
  "series_env \<Rightarrow> pod_telemetry list \<Rightarrow> pod_telemetry list \<Rightarrow> string \<Rightarrow> fit_result option" where
  "collect_telemetry_series env res serving engine =
     (let pods = res @ serving;
          starts = List.map_filter (\<lambda>p. Option.bind (pt_start_time p) (sv_parse_ms env)) pods;
          ends = filter (\<lambda>e. e \<noteq> 0) (map pt_end_ms pods);
          start_ms = list_min starts;
          end_ms = (if ends = [] then sv_now env else list_max ends)
      in if starts = [] \<or> end_ms \<le> start_ms then Some NoDoc
         else (case series_step start_ms end_ms (sv_target_points env) (sv_scrape_s env) of
                 None \<Rightarrow> Some Raised
               | Some step \<Rightarrow>
                   (case series_metrics env res serving engine start_ms end_ms step of
                      None \<Rightarrow> Some Raised
                    | Some ms \<Rightarrow>
                        (if ms = [] then Some NoDoc
                         else fit_series_doc (sv_enc env) (sv_senc env) (sv_max_bytes env) (sv_min_points env)
                                (series_document env pods start_ms end_ms step ms)))))"

subsection \<open>Values that rounding keeps\<close>

lemma sig6_int:
  assumes "\<bar>n\<bar> < 1000000"
  shows "sig_q 6 (of_int n) = Fin (of_int n)" and "rnd64 (of_int n) = Fin (of_int n)"
  using round_sig_exact [of 10 n 6 None 0 "of_int n"] rnd64_int [of n] assms
  by (simp_all add: sig_q_def)

lemma round_sig6_int [simp]:
  "\<bar>n\<bar> < 1000000 \<Longrightarrow> round_sig6 (NF (Num (Fin (of_int n)))) = Some (of_int n)"
  "\<bar>n\<bar> < 1000000 \<Longrightarrow> round_sig6 (NI n) = Some (of_int n)"
  by (simp_all add: round_sig6_def fin_of_def sig6_int)

lemma num_avg_int_single: "\<bar>n\<bar> < 1000000 \<Longrightarrow> num_avg [of_int n] = NF (Num (Fin (of_int n)))"
  by (simp add: num_avg_def is_integer_q_def fits_long_def sig6_int)

subsection \<open>Fitting a document\<close>

text \<open>What fitting may change of a document: it drops the detail of a metric and marks it as omitted. The
  metrics, their units and their aggregate and peak lines stay.\<close>

definition keeps_metric :: "string \<times> series_metric \<Rightarrow> string \<times> series_metric \<Rightarrow> bool" where
  "keeps_metric x y \<longleftrightarrow>
     (case (x, y) of ((n, m), (n', m')) \<Rightarrow>
        n' = n \<and> (m' = m \<or> m' = m\<lparr>sm_series := None, sm_omitted := True\<rparr>))"

definition keeps_lines :: "series_doc \<Rightarrow> series_doc \<Rightarrow> bool" where
  "keeps_lines base doc \<longleftrightarrow>
     list_all2 keeps_metric (sd_metrics base) (sd_metrics doc) \<and> doc\<lparr>sd_metrics := sd_metrics base\<rparr> = base"

lemma keeps_lines_refl [simp]: "keeps_lines d d"
  by (auto simp: keeps_lines_def keeps_metric_def list_all2_same)

lemma keeps_metric_trans: "keeps_metric x y \<Longrightarrow> keeps_metric y z \<Longrightarrow> keeps_metric x z"
  by (auto simp: keeps_metric_def split: prod.splits)

lemma keeps_lines_trans: "keeps_lines a b \<Longrightarrow> keeps_lines b c \<Longrightarrow> keeps_lines a c"
  using list_all2_trans [of keeps_metric keeps_metric keeps_metric "sd_metrics a" "sd_metrics b" "sd_metrics c"]
    keeps_metric_trans
  by (cases a; cases b; cases c) (auto simp: keeps_lines_def)

lemma omit_series_keeps: "keeps_lines d (omit_series n d)"
  by (auto simp: keeps_lines_def omit_series_def keeps_metric_def list_all2_map2 list_all2_same)

lemma drop_detail_fit:
  "drop_detail enc senc max_bytes doc = Fit d \<Longrightarrow> enc d \<le> max_bytes \<and> keeps_lines doc d"
proof (induction enc senc max_bytes doc rule: drop_detail.induct)
  case (1 enc senc max_bytes doc)
  show ?case
  proof (cases "enc doc \<le> max_bytes \<or> series_sizes senc doc = []")
    case True
    then show ?thesis using 1(2) by (auto simp: drop_detail.simps [of enc senc max_bytes doc] split: if_splits)
  next
    case False
    let ?n = "snd (list_max (series_sizes senc doc))"
    have "enc d \<le> max_bytes \<and> keeps_lines (omit_series ?n doc) d"
      using False 1 by (simp add: drop_detail.simps [of enc senc max_bytes doc])
    then show ?thesis using keeps_lines_trans [OF omit_series_keeps] by blast
  qed
qed

lemma drop_detail_not_raised: "drop_detail enc senc max_bytes doc \<noteq> Raised"
  by (induction enc senc max_bytes doc rule: drop_detail.induct) (simp add: drop_detail.simps)

text \<open>The candidates: the document itself and its coarser versions of at least the least number of points.\<close>

definition candidate :: "int \<Rightarrow> series_doc \<Rightarrow> series_doc \<Rightarrow> bool" where
  "candidate min_points doc base \<longleftrightarrow>
     base = doc \<or> (\<exists>k\<ge>2. min_points \<le> ceil_div (max_points doc) k \<and> rebucket_series_doc doc k = Some base)"

lemma coarsen_fit:
  assumes "coarsen enc senc max_bytes min_points doc k d0 = Some r"
  shows "2 \<le> k \<longrightarrow> candidate min_points doc d0 \<longrightarrow>
    (\<forall>d. r = Fit d \<longrightarrow> enc d \<le> max_bytes \<and> (\<exists>base. candidate min_points doc base \<and> keeps_lines base d))"
proof (rule coarsen.raw_induct [OF _ assms])
  fix f enc senc max_bytes min_points doc k d0 r
  assume step: "\<And>enc senc max_bytes min_points original factor doc r.
      f enc senc max_bytes min_points original factor doc = Some r \<Longrightarrow>
      2 \<le> factor \<longrightarrow> candidate min_points original doc \<longrightarrow>
      (\<forall>d. r = Fit d \<longrightarrow> enc d \<le> max_bytes \<and> (\<exists>base. candidate min_points original base \<and> keeps_lines base d))"
    and body: "(if min_points \<le> ceil_div (max_points doc) k then
        (case rebucket_series_doc doc k of None \<Rightarrow> Some Raised
         | Some d \<Rightarrow> if enc d \<le> max_bytes then Some (Fit d) else f enc senc max_bytes min_points doc (k + 1) d)
      else Some (drop_detail enc senc max_bytes d0)) = Some r"
  show "2 \<le> k \<longrightarrow> candidate min_points doc d0 \<longrightarrow>
    (\<forall>d. r = Fit d \<longrightarrow> enc d \<le> max_bytes \<and> (\<exists>base. candidate min_points doc base \<and> keeps_lines base d))"
  proof (intro impI allI)
    fix d
    assume k: "2 \<le> k" and d0: "candidate min_points doc d0" and r: "r = Fit d"
    have cand: "candidate min_points doc c" if "rebucket_series_doc doc k = Some c" "min_points \<le> ceil_div (max_points doc) k" for c
      using that k by (auto simp: candidate_def)
    show "enc d \<le> max_bytes \<and> (\<exists>base. candidate min_points doc base \<and> keeps_lines base d)"
      using body r cand k d0 drop_detail_fit [of enc senc max_bytes d0 d] step [of enc senc max_bytes min_points doc "k + 1" _ r]
      by (fastforce split: if_splits option.splits)
  qed
qed


text \<open>A document of one metric with two pods, encoded in ten units per sample.\<close>

definition sample_doc :: series_doc where
  "sample_doc = \<lparr>sd_start = 0, sd_end = 120, sd_step = 30, sd_pods = [''a'', ''b''],
     sd_metrics = [(''gpu_power'', \<lparr>sm_unit = ''watts'', sm_aggregation = ''sum'',
       sm_aggregate = [(0, 300), (30, 310), (60, 500), (90, 320)], sm_peak = Some [(0, 300), (30, 310), (60, 700), (90, 320)],
       sm_series = Some [\<lparr>ls_labels = [(''pod'', ''a'')], ls_points = [(0, 300), (30, 310)]\<rparr>], sm_omitted = False\<rparr>)]\<rparr>"

definition sample_enc :: "series_doc \<Rightarrow> int" where
  "sample_enc d = sum_list (map (\<lambda>(n, m). 10 * int (length (sm_aggregate m)) +
     (case sm_series m of None \<Rightarrow> 0 | Some ss \<Rightarrow> 10 * int (sum_list (map (length \<circ> ls_points) ss)))) (sd_metrics d))"


lemma ceil_div_le: "0 \<le> a \<Longrightarrow> 0 < b \<Longrightarrow> ceil_div a b \<le> 1 \<or> b \<le> a"
proof -
  assume a: "0 \<le> a" "0 < b"
  have "b * ceil_div a b = - (b * ((- a) div b))" by (simp add: ceil_div_def)
  also have "\<dots> = a + (- a) mod b" using mult_div_mod_eq [of b "- a"] by linarith
  also have "\<dots> < a + b" using a(2) by simp
  finally have lt: "b * ceil_div a b < a + b" .
  show ?thesis
  proof (rule disjCI)
    assume "\<not> b \<le> a"
    then have "b * ceil_div a b < b * 2" using lt by linarith
    then show "ceil_div a b \<le> 1" using a(2) by (simp add: mult_less_cancel_left)
  qed
qed

lemma max_points_nonneg [simp]: "0 \<le> max_points doc"
proof (cases "sd_metrics doc = []")
  case False
  then have "list_max (map (\<lambda>(n, m). int (length (sm_aggregate m))) (sd_metrics doc))
      \<in> (\<lambda>(n, m). int (length (sm_aggregate m))) ` set (sd_metrics doc)"
    using list_max_in [of "map (\<lambda>(n, m). int (length (sm_aggregate m))) (sd_metrics doc)"] by simp
  then show ?thesis by (auto simp: max_points_def)
qed (simp add: max_points_def)

lemma coarsen_returns:
  assumes "2 \<le> min_points" and "0 < k"
  shows "\<exists>r. coarsen enc senc max_bytes min_points doc k d0 = Some r"
  using assms(2)
proof (induction "nat (max_points doc - k + 1)" arbitrary: k d0 rule: less_induct)
  case less
  show ?case
  proof (cases "min_points \<le> ceil_div (max_points doc) k")
    case True
    then have "k \<le> max_points doc" using ceil_div_le [of "max_points doc" k] less.prems assms(1) by simp
    then have "nat (max_points doc - (k + 1) + 1) < nat (max_points doc - k + 1)" by simp
    then have "\<exists>r. coarsen enc senc max_bytes min_points doc (k + 1) d = Some r" for d
      using less.hyps [of "k + 1" d] less.prems by simp
    then show ?thesis by (subst coarsen.simps) (simp add: True split: option.split)
  next
    case False
    then show ?thesis by (subst coarsen.simps) simp
  qed
qed

text \<open>C19: With a least number of points of at least two, fitting a series document always returns.\<close>

theorem fit_series_returns:
  assumes "2 \<le> min_points"
  shows "\<exists>r. fit_series_doc enc senc max_bytes min_points doc = Some r"
  using coarsen_returns [OF assms, of 2 enc senc max_bytes doc doc] by (simp add: fit_series_doc_def)

theorem fit_series_returns_witness:
  "\<exists>r. fit_series_doc sample_enc (\<lambda>ss. int (length ss)) 40 100 sample_doc = Some r"
  by (rule fit_series_returns) simp

lemma coarsen_loops:
  assumes "coarsen enc senc max_bytes min_points doc k d0 = Some r"
  shows "\<not> (2 \<le> k \<and> min_points \<le> 1 \<and> 0 < max_points doc
      \<and> (\<forall>j\<ge>2. \<exists>d. rebucket_series_doc doc j = Some d \<and> max_bytes < enc d))"
proof (rule coarsen.raw_induct [OF _ assms])
  fix f enc senc max_bytes min_points doc k d0 r
  assume step: "\<And>enc senc max_bytes min_points original factor doc r.
      f enc senc max_bytes min_points original factor doc = Some r \<Longrightarrow>
      \<not> (2 \<le> factor \<and> min_points \<le> 1 \<and> 0 < max_points original
        \<and> (\<forall>j\<ge>2. \<exists>d. rebucket_series_doc original j = Some d \<and> max_bytes < enc d))"
    and body: "(if min_points \<le> ceil_div (max_points doc) k then
        (case rebucket_series_doc doc k of None \<Rightarrow> Some Raised
         | Some d \<Rightarrow> if enc d \<le> max_bytes then Some (Fit d) else f enc senc max_bytes min_points doc (k + 1) d)
      else Some (drop_detail enc senc max_bytes d0)) = Some r"
  show "\<not> (2 \<le> k \<and> min_points \<le> 1 \<and> 0 < max_points doc
      \<and> (\<forall>j\<ge>2. \<exists>d. rebucket_series_doc doc j = Some d \<and> max_bytes < enc d))"
  proof
    assume hyp: "2 \<le> k \<and> min_points \<le> 1 \<and> 0 < max_points doc
      \<and> (\<forall>j\<ge>2. \<exists>d. rebucket_series_doc doc j = Some d \<and> max_bytes < enc d)"
    then obtain d where d: "rebucket_series_doc doc k = Some d" "max_bytes < enc d" by blast
    have "1 \<le> ceil_div (max_points doc) k"
      using hyp div_neg_pos_less0 [of "- max_points doc" k] by (simp add: ceil_div_def)
    then have "f enc senc max_bytes min_points doc (k + 1) d = Some r"
      using body hyp d by (simp split: if_splits)
    from step [OF this] show False using hyp by auto
  qed
qed

text \<open>With a least number of points of one or less, fitting a document none of whose coarser versions
  fits the limit never returns.\<close>

theorem fit_series_diverges:
  assumes "min_points \<le> 1" and "0 < max_points doc" and "max_bytes < enc doc"
    and "\<forall>k\<ge>2. \<exists>d. rebucket_series_doc doc k = Some d \<and> max_bytes < enc d"
  shows "fit_series_doc enc senc max_bytes min_points doc = None"
  using coarsen_loops [of enc senc max_bytes min_points doc 2 doc] assms
  by (cases "coarsen enc senc max_bytes min_points doc 2 doc") (auto simp: fit_series_doc_def)

definition tiny_doc :: series_doc where
  "tiny_doc = \<lparr>sd_start = 0, sd_end = 1, sd_step = 1, sd_pods = [],
     sd_metrics = [(''gpu_power'', \<lparr>sm_unit = ''watts'', sm_aggregation = ''sum'', sm_aggregate = [(0, 1)],
       sm_peak = None, sm_series = None, sm_omitted = False\<rparr>)]\<rparr>"

theorem fit_series_diverges_witness:
  "fit_series_doc (\<lambda>_. 5) (\<lambda>_. 0) 4 1 tiny_doc = None"
proof (rule fit_series_diverges)
  have one: "round_sig6 (reducer ''avg'' [1]) = Some 1"
    using num_avg_int_single [of 1] round_sig6_int(1) [of 1] by (simp add: reducer_def)
  show "\<forall>k\<ge>2. \<exists>d. rebucket_series_doc tiny_doc k = Some d \<and> (4 :: int) < 5"
    by (simp add: tiny_doc_def rebucket_series_doc_def rebucket_metric_def rebucket_points_def reduce_groups_def group_values_def one)
qed (code_simp, code_simp, simp)

subsection \<open>Coarser resolutions\<close>

lemma those_map_Some: "those (map f xs) = Some ys \<Longrightarrow> x \<in> set xs \<Longrightarrow> \<exists>y \<in> set ys. f x = Some y"
  by (induction xs arbitrary: ys) (auto split: option.splits)

lemma those_map_mem: "those (map f xs) = Some ys \<Longrightarrow> y \<in> set ys \<Longrightarrow> \<exists>x \<in> set xs. f x = Some y"
  by (induction xs arbitrary: ys) (auto split: option.splits)

lemma group_values_mem: "(k, v) \<in> set kvs \<Longrightarrow> \<exists>vs. (k, vs) \<in> set (group_values kvs) \<and> v \<in> set vs"
  by (force simp: group_values_def)

lemma group_values_memD: "(k, vs) \<in> set (group_values kvs) \<Longrightarrow> v \<in> set vs \<Longrightarrow> (k, v) \<in> set kvs"
  by (force simp: group_values_def)

lemma group_values_nonempty: "(k, vs) \<in> set (group_values kvs) \<Longrightarrow> vs \<noteq> []"
  by (force simp: group_values_def filter_empty_conv)

text \<open>Significant digits preserve the order of the values.\<close>

interpretation sig6: order_preserving "sig_q 6"
  by unfold_locales (simp add: sig_q_mono)

lemma round_sig6_mono:
  assumes "v \<le> w" "round_sig6 (NF (Num (Fin v))) = Some v'" "round_sig6 (NF (Num (Fin w))) = Some w'"
  shows "v' \<le> w'"
  using sig6.mono_f [OF assms(1)] assms(2,3)
  by (auto simp: round_sig6_def fin_of_def split: xfloat.splits)

text \<open>C20: A peak survives a coarser resolution. Every sample of a peak line falls in a bucket of the coarser
  line that starts on the grid, covers the time of the sample and whose value is at least the sample's,
  to six significant digits; and the value of every bucket is that of one of the samples it covers.\<close>

theorem rebucket_keeps_peaks:
  assumes "rebucket_points ps anchor bucket_s ''max'' = Some out" and "0 < bucket_s"
  shows "(\<forall>(ts, v) \<in> set ps. \<exists>(t, w) \<in> set out. t \<le> ts \<and> ts < t + bucket_s \<and> (t - anchor) mod bucket_s = 0
           \<and> (\<forall>v'. round_sig6 (NF (Num (Fin v))) = Some v' \<longrightarrow> v' \<le> w))
         \<and> (\<forall>(t, w) \<in> set out. \<exists>(ts, v) \<in> set ps. t \<le> ts \<and> ts < t + bucket_s \<and> round_sig6 (NF (Num (Fin v))) = Some w)"
proof -
  let ?kvs = "map (\<lambda>(ts, v). ((ts - anchor) div bucket_s, v)) ps"
  let ?f = "\<lambda>(k, vs). map_option (Pair (anchor + k * bucket_s)) (round_sig6 (reducer ''max'' vs))"
  have out: "those (map ?f (group_values ?kvs)) = Some out"
    using assms(1) by (simp add: rebucket_points_def reduce_groups_def)
  have grid: "anchor + (ts - anchor) div bucket_s * bucket_s \<le> ts"
      "ts < anchor + (ts - anchor) div bucket_s * bucket_s + bucket_s" for ts
    using assms(2) div_mult_mod_eq [of "ts - anchor" bucket_s] pos_mod_sign [of bucket_s "ts - anchor"]
      pos_mod_bound [of bucket_s "ts - anchor"] by linarith+
  have mx: "reducer ''max'' vs = NF (Num (Fin (list_max vs)))" for vs
    by (simp add: reducer_def)
  have 1: "\<forall>(ts, v) \<in> set ps. \<exists>(t, w) \<in> set out. t \<le> ts \<and> ts < t + bucket_s \<and> (t - anchor) mod bucket_s = 0
           \<and> (\<forall>v'. round_sig6 (NF (Num (Fin v))) = Some v' \<longrightarrow> v' \<le> w)"
  proof (clarify)
    fix ts v
    assume "(ts, v) \<in> set ps"
    then have "((ts - anchor) div bucket_s, v) \<in> set ?kvs" by force
    from group_values_mem [OF this] obtain vs
      where vs: "((ts - anchor) div bucket_s, vs) \<in> set (group_values ?kvs)" "v \<in> set vs" by blast
    from those_map_Some [OF out vs(1)] obtain w
      where w: "(anchor + (ts - anchor) div bucket_s * bucket_s, w) \<in> set out"
        "round_sig6 (NF (Num (Fin (list_max vs)))) = Some w" by (auto simp: mx)
    show "\<exists>(t, w) \<in> set out. t \<le> ts \<and> ts < t + bucket_s \<and> (t - anchor) mod bucket_s = 0
           \<and> (\<forall>v'. round_sig6 (NF (Num (Fin v))) = Some v' \<longrightarrow> v' \<le> w)"
      using grid [of ts] round_sig6_mono [OF list_max_ge [OF vs(2)] _ w(2)]
      by (intro bexI [OF _ w(1)]) auto
  qed
  have 2: "\<forall>(t, w) \<in> set out. \<exists>(ts, v) \<in> set ps. t \<le> ts \<and> ts < t + bucket_s \<and> round_sig6 (NF (Num (Fin v))) = Some w"
  proof (clarify)
    fix t w
    assume "(t, w) \<in> set out"
    from those_map_mem [OF out this] obtain k vs
      where vs: "(k, vs) \<in> set (group_values ?kvs)" "t = anchor + k * bucket_s"
        "round_sig6 (NF (Num (Fin (list_max vs)))) = Some w" by (auto simp: mx)
    from group_values_memD [OF vs(1) list_max_in [OF group_values_nonempty [OF vs(1)]]]
    obtain ts where ts: "(ts, list_max vs) \<in> set ps" "k = (ts - anchor) div bucket_s" by auto
    show "\<exists>(ts, v) \<in> set ps. t \<le> ts \<and> ts < t + bucket_s \<and> round_sig6 (NF (Num (Fin v))) = Some w"
      using grid [of ts] vs(2,3) ts(2) by (intro bexI [OF _ ts(1)]) auto
  qed
  from 1 2 show ?thesis by simp
qed

theorem rebucket_keeps_peaks_witness:
  "rebucket_points [(30, 310), (60, 700), (90, 320)] 0 60 ''max'' = Some [(0, 310), (60, 700)]
     \<and> (\<exists>(t, w) \<in> {(0 :: int, 310), (60, 700)}. t \<le> 90 \<and> 90 < t + 60 \<and> (t - 0) mod 60 = 0 \<and> 320 \<le> (w :: rat))"
proof -
  have r: "rebucket_points [(30, 310), (60, 700), (90, 320)] 0 60 ''max'' = Some [(0, 310), (60, 700)]"
    using round_sig6_int(1) [of 310] round_sig6_int(1) [of 700]
    by (simp add: rebucket_points_def reduce_groups_def group_values_def reducer_def list_max_def)
  show ?thesis
    using rebucket_keeps_peaks [OF r] round_sig6_int(1) [of 320] r by simp
qed

subsection \<open>Queries\<close>

lemma pod_name_match_chars:
  assumes "re_match pod_name_re n \<noteq> None" and "c \<in> set n"
  shows "is_low_alnum c \<or> c = CHR ''-'' \<or> c = CHR ''.'' \<or> c = CHR 0x0A"
proof -
  obtain m where m: "m \<in> set (rmatch pod_name_re ([], n, []))"
    using assms(1) by (auto simp: re_match_def split: list.splits)
  have "text_of m = n" using rmatch_text [OF m] by simp
  moreover have "fst (snd m) = [] \<or> fst (snd m) = [CHR 0x0A]"
    using m unfolding pod_name_re_def rseq.simps
    by (auto dest!: rmatch_seqD simp del: rmatch.simps(1-11) split: if_splits)
  moreover have "set (fst m) \<subseteq> Collect (rclass pod_name_re)"
    using rmatch_class [OF m] by simp
  ultimately show ?thesis
    using assms(2) by (cases m) (auto simp: pod_name_re_def)
qed

text \<open>The pod pattern that is put into the query text consists of lower-case letters, digits and
  \<^verbatim>\<open>-.[]|\<close> (and of line ends, which \<^verbatim>\<open>$\<close> admits at the end of a name), whatever the pod names are: it
  cannot end the quoted string of the query or open a placeholder.\<close>

theorem pod_regex_chars:
  "set (pod_regex names) \<subseteq> {c. is_low_alnum c \<or> c \<in> set ''-.[]|'' \<or> c = CHR 0x0A}"
proof
  fix c
  let ?valid = "filter (\<lambda>n. re_match pod_name_re n \<noteq> None) (List.map_filter nonempty names)"
  assume "c \<in> set (pod_regex names)"
  then have "c \<in> set ''|'' \<union> (\<Union>x \<in> set (map (replace_all ''.'' ''[.]'') ?valid). set x)"
    unfolding pod_regex_def using join_str_set by blast
  then consider "c = CHR ''|''" | n where "n \<in> set ?valid" "c \<in> set (replace_all ''.'' ''[.]'' n)" by auto
  then show "c \<in> {c. is_low_alnum c \<or> c \<in> set ''-.[]|'' \<or> c = CHR 0x0A}"
  proof cases
    case 2
    then have "c \<in> set ''[.]'' \<or> c \<in> set n" using replace_all_set by blast
    then show ?thesis using pod_name_match_chars [of n c] 2(1) by auto
  qed simp
qed

end
