(* ===== verification/Queries.thy ===== *)
theory Queries
  imports TimeSeries
begin

text \<open>
  The queries of \<^verbatim>\<open>postprocess/postprocess.py\<close>: the tables of the hardware metrics, the metric names of the
  serving engines, and the generator that builds an engine's queries from its table, once per pod and
  once as time series. The theorem says that the two shapes have the same metrics and units and that
  every series selector of a per-pod query carries the namespace and pod filter.
\<close>

text \<open>A double quote is written as a caret in the texts below; no query contains a caret.\<close>

definition dq :: "string \<Rightarrow> string" where
  "dq s = map (\<lambda>c. if c = CHR ''^'' then CHR 0x22 else c) s"

subsection \<open>Hardware metrics\<close>

definition workload_containers :: string where
  "workload_containers = dq ''container!=^POD^, container!=^^, container!=^aibom-dataset-sidecar^''"

definition telemetry_queries :: "metric_def list" where
  "telemetry_queries =
    [(''gpu_utilization'',
      dq ''avg(DCGM_FI_DEV_GPU_UTIL{exported_namespace=^{namespace}^, exported_pod=^{pod_name}^})'',
      ''percent''),
     (''gpu_memory_used'',
      dq ''sum(DCGM_FI_DEV_FB_USED{exported_namespace=^{namespace}^, exported_pod=^{pod_name}^})'',
      ''MiB''),
     (''gpu_power'',
      dq ''sum(DCGM_FI_DEV_POWER_USAGE{exported_namespace=^{namespace}^, exported_pod=^{pod_name}^})'',
      ''watts''),
     (''cpu_usage'',
      dq ''sum(rate(container_cpu_usage_seconds_total{namespace=^{namespace}^, pod=^{pod_name}^, '' @ workload_containers
        @ dq ''}[5m]))'',
      ''cores''),
     (''memory_usage'',
      dq ''sum(container_memory_working_set_bytes{namespace=^{namespace}^, pod=^{pod_name}^, '' @ workload_containers
        @ dq ''})'',
      ''bytes''),
     (''network_receive'',
      dq ''sum(rate(container_network_receive_bytes_total{namespace=^{namespace}^, pod=^{pod_name}^}[5m]))'',
      ''bytes_per_sec''),
     (''network_transmit'',
      dq ''sum(rate(container_network_transmit_bytes_total{namespace=^{namespace}^, pod=^{pod_name}^}[5m]))'',
      ''bytes_per_sec''),
     (''storage_read_throughput'',
      dq ''sum by (pod) (rate(container_fs_reads_bytes_total{namespace=^{namespace}^, pod=^{pod_name}^, '' @ workload_containers
        @ dq ''}[5m])) or sum by (pod) (rate(container_fs_reads_bytes_total{namespace=^{namespace}^, pod=^{pod_name}^, container=^^}[5m]))'',
      ''bytes_per_sec''),
     (''storage_write_throughput'',
      dq ''sum by (pod) (rate(container_fs_writes_bytes_total{namespace=^{namespace}^, pod=^{pod_name}^, '' @ workload_containers
        @ dq ''}[5m])) or sum by (pod) (rate(container_fs_writes_bytes_total{namespace=^{namespace}^, pod=^{pod_name}^, container=^^}[5m]))'',
      ''bytes_per_sec'')]"

definition series_queries :: "series_query dict" where
  "series_queries =
    [(''gpu_utilization'', \<lparr>sq_query = dq ''{fn} by (exported_pod, gpu) ({fn}_over_time(DCGM_FI_DEV_GPU_UTIL{exported_namespace=^{namespace}^, exported_pod=~^{pod_regex}^}[{win}s]))'',
        sq_unit = ''percent'', sq_aggregation = ''avg'', sq_gauge = True\<rparr>),
     (''gpu_memory_used'', \<lparr>sq_query = dq ''{fn} by (exported_pod, gpu) ({fn}_over_time(DCGM_FI_DEV_FB_USED{exported_namespace=^{namespace}^, exported_pod=~^{pod_regex}^}[{win}s]))'',
        sq_unit = ''MiB'', sq_aggregation = ''sum'', sq_gauge = True\<rparr>),
     (''gpu_power'', \<lparr>sq_query = dq ''{fn} by (exported_pod, gpu) ({fn}_over_time(DCGM_FI_DEV_POWER_USAGE{exported_namespace=^{namespace}^, exported_pod=~^{pod_regex}^}[{win}s]))'',
        sq_unit = ''watts'', sq_aggregation = ''sum'', sq_gauge = True\<rparr>),
     (''cpu_usage'', \<lparr>sq_query = dq ''sum by (pod, container) (rate(container_cpu_usage_seconds_total{namespace=^{namespace}^, pod=~^{pod_regex}^, '' @ workload_containers
        @ dq ''}[5m]))'',
        sq_unit = ''cores'', sq_aggregation = ''sum'', sq_gauge = False\<rparr>),
     (''memory_usage'', \<lparr>sq_query = dq ''{fn} by (pod, container) ({fn}_over_time(container_memory_working_set_bytes{namespace=^{namespace}^, pod=~^{pod_regex}^, '' @ workload_containers
        @ dq ''}[{win}s]))'',
        sq_unit = ''bytes'', sq_aggregation = ''sum'', sq_gauge = True\<rparr>),
     (''network_receive'', \<lparr>sq_query = dq ''sum by (pod, interface) (rate(container_network_receive_bytes_total{namespace=^{namespace}^, pod=~^{pod_regex}^}[5m]))'',
        sq_unit = ''bytes_per_sec'', sq_aggregation = ''sum'', sq_gauge = False\<rparr>),
     (''network_transmit'', \<lparr>sq_query = dq ''sum by (pod, interface) (rate(container_network_transmit_bytes_total{namespace=^{namespace}^, pod=~^{pod_regex}^}[5m]))'',
        sq_unit = ''bytes_per_sec'', sq_aggregation = ''sum'', sq_gauge = False\<rparr>),
     (''storage_read_throughput'', \<lparr>sq_query = dq ''sum by (pod) (rate(container_fs_reads_bytes_total{namespace=^{namespace}^, pod=~^{pod_regex}^, '' @ workload_containers
        @ dq ''}[5m])) or sum by (pod) (rate(container_fs_reads_bytes_total{namespace=^{namespace}^, pod=~^{pod_regex}^, container=^^}[5m]))'',
        sq_unit = ''bytes_per_sec'', sq_aggregation = ''sum'', sq_gauge = False\<rparr>),
     (''storage_write_throughput'', \<lparr>sq_query = dq ''sum by (pod) (rate(container_fs_writes_bytes_total{namespace=^{namespace}^, pod=~^{pod_regex}^, '' @ workload_containers
        @ dq ''}[5m])) or sum by (pod) (rate(container_fs_writes_bytes_total{namespace=^{namespace}^, pod=~^{pod_regex}^, container=^^}[5m]))'',
        sq_unit = ''bytes_per_sec'', sq_aggregation = ''sum'', sq_gauge = False\<rparr>)]"

subsection \<open>Serving engines\<close>

datatype metric_kind = Hist | Gauge string "int option" | Counter

record metric_spec =
  mk_kind :: metric_kind
  mk_names :: "string list"
  mk_unit :: string

definition vllm_metrics :: "metric_spec dict" where
  "vllm_metrics =
    [(''time_to_first_token_seconds'', \<lparr>mk_kind = Hist, mk_names = [''vllm:time_to_first_token_seconds''], mk_unit = ''seconds''\<rparr>),
     (''inter_token_latency_seconds'', \<lparr>mk_kind = Hist, mk_names = [''vllm:inter_token_latency_seconds'', ''vllm:time_per_output_token_seconds''], mk_unit = ''seconds''\<rparr>),
     (''num_requests_running'', \<lparr>mk_kind = Gauge ''sum'' None, mk_names = [''vllm:num_requests_running''], mk_unit = ''requests''\<rparr>),
     (''num_requests_waiting'', \<lparr>mk_kind = Gauge ''sum'' None, mk_names = [''vllm:num_requests_waiting''], mk_unit = ''requests''\<rparr>),
     (''kv_cache_usage'', \<lparr>mk_kind = Gauge ''avg'' (Some 100), mk_names = [''vllm:kv_cache_usage_perc'', ''vllm:gpu_cache_usage_perc''], mk_unit = ''percent''\<rparr>),
     (''prompt_throughput'', \<lparr>mk_kind = Counter, mk_names = [''vllm:prompt_tokens_total''], mk_unit = ''tokens_per_sec''\<rparr>),
     (''generation_throughput'', \<lparr>mk_kind = Counter, mk_names = [''vllm:generation_tokens_total''], mk_unit = ''tokens_per_sec''\<rparr>)]"

definition lmdeploy_metrics :: "metric_spec dict" where
  "lmdeploy_metrics =
    [(''time_to_first_token_seconds'', \<lparr>mk_kind = Hist, mk_names = [''lmdeploy:time_to_first_token_seconds''], mk_unit = ''seconds''\<rparr>),
     (''inter_token_latency_seconds'', \<lparr>mk_kind = Hist, mk_names = [''lmdeploy:time_per_output_token_seconds''], mk_unit = ''seconds''\<rparr>),
     (''num_requests_running'', \<lparr>mk_kind = Gauge ''sum'' None, mk_names = [''lmdeploy:num_requests_running''], mk_unit = ''requests''\<rparr>),
     (''num_requests_waiting'', \<lparr>mk_kind = Gauge ''sum'' None, mk_names = [''lmdeploy:num_requests_waiting''], mk_unit = ''requests''\<rparr>),
     (''kv_cache_usage'', \<lparr>mk_kind = Gauge ''avg'' (Some 100), mk_names = [''lmdeploy:gpu_cache_usage_perc''], mk_unit = ''percent''\<rparr>),
     (''prompt_throughput'', \<lparr>mk_kind = Counter, mk_names = [''lmdeploy:prompt_tokens_total''], mk_unit = ''tokens_per_sec''\<rparr>),
     (''generation_throughput'', \<lparr>mk_kind = Counter, mk_names = [''lmdeploy:generation_tokens_total''], mk_unit = ''tokens_per_sec''\<rparr>)]"

definition sglang_metrics :: "metric_spec dict" where
  "sglang_metrics =
    [(''time_to_first_token_seconds'', \<lparr>mk_kind = Hist, mk_names = [''sglang:time_to_first_token_seconds''], mk_unit = ''seconds''\<rparr>),
     (''inter_token_latency_seconds'', \<lparr>mk_kind = Hist, mk_names = [''sglang:request_time_per_output_token_seconds''], mk_unit = ''seconds''\<rparr>),
     (''num_requests_running'', \<lparr>mk_kind = Gauge ''sum'' None, mk_names = [''sglang:num_running_reqs''], mk_unit = ''requests''\<rparr>),
     (''num_requests_waiting'', \<lparr>mk_kind = Gauge ''sum'' None, mk_names = [''sglang:num_queue_reqs''], mk_unit = ''requests''\<rparr>),
     (''kv_cache_usage'', \<lparr>mk_kind = Gauge ''avg'' (Some 100), mk_names = [''sglang:token_usage''], mk_unit = ''percent''\<rparr>),
     (''prompt_throughput'', \<lparr>mk_kind = Counter, mk_names = [''sglang:prompt_tokens_total''], mk_unit = ''tokens_per_sec''\<rparr>),
     (''generation_throughput'', \<lparr>mk_kind = Counter, mk_names = [''sglang:generation_tokens_total''], mk_unit = ''tokens_per_sec''\<rparr>)]"

definition tgi_metrics :: "metric_spec dict" where
  "tgi_metrics =
    [(''inter_token_latency_seconds'', \<lparr>mk_kind = Hist, mk_names = [''tgi_request_mean_time_per_token_duration''], mk_unit = ''seconds''\<rparr>),
     (''num_requests_running'', \<lparr>mk_kind = Gauge ''sum'' None, mk_names = [''tgi_batch_current_size''], mk_unit = ''requests''\<rparr>),
     (''num_requests_waiting'', \<lparr>mk_kind = Gauge ''sum'' None, mk_names = [''tgi_queue_size''], mk_unit = ''requests''\<rparr>),
     (''prompt_throughput'', \<lparr>mk_kind = Counter, mk_names = [''tgi_request_input_length_sum''], mk_unit = ''tokens_per_sec''\<rparr>),
     (''generation_throughput'', \<lparr>mk_kind = Counter, mk_names = [''tgi_request_generated_tokens_sum''], mk_unit = ''tokens_per_sec''\<rparr>)]"

definition serving_engine_metrics :: "metric_spec dict dict" where
  "serving_engine_metrics = [(''vllm'', vllm_metrics), (''lmdeploy'', lmdeploy_metrics), (''sglang'', sglang_metrics), (''tgi'', tgi_metrics)]"

text \<open>The filter of a query, its grouping and the space before the parenthesis.\<close>

definition pod_filter :: string where
  "pod_filter = dq ''{namespace=^{namespace}^, pod=^{pod_name}^}''"

definition pods_filter :: string where
  "pods_filter = dq ''{namespace=^{namespace}^, pod=~^{pod_regex}^}''"

definition sum_rate :: "bool \<Rightarrow> string \<Rightarrow> string \<Rightarrow> string" where
  "sum_rate series fltr n = (if series then ''sum by (pod) '' else ''sum'') @ ''(rate('' @ n @ fltr @ ''[5m]))''"

definition hist_term :: "bool \<Rightarrow> string \<Rightarrow> string \<Rightarrow> string" where
  "hist_term series fltr n = sum_rate series (''_sum'' @ fltr) n @ '' / '' @ sum_rate series (''_count'' @ fltr) n"

definition hist_query :: "bool \<Rightarrow> string \<Rightarrow> string list \<Rightarrow> string" where
  "hist_query series fltr names =
     (case names of [n] \<Rightarrow> hist_term series fltr n
      | _ \<Rightarrow> join_str '' or '' (map (\<lambda>n. ''('' @ hist_term series fltr n @ '')'') names))"

definition gauge_term :: "bool \<Rightarrow> string \<Rightarrow> string \<Rightarrow> string \<Rightarrow> string" where
  "gauge_term series fltr agg n =
     (if series then ''{fn} by (pod) ({fn}_over_time('' @ n @ fltr @ ''[{win}s]))'' else agg @ ''('' @ n @ fltr @ '')'')"

definition gauge_query :: "bool \<Rightarrow> string \<Rightarrow> string \<Rightarrow> int option \<Rightarrow> string list \<Rightarrow> string" where
  "gauge_query series fltr agg scale names =
     (let terms = map (gauge_term series fltr agg) names;
          q = join_str '' or '' terms;
          q' = (if 1 < length terms then ''('' @ q @ '')'' else q)
      in case scale of Some k \<Rightarrow> (if k \<noteq> 0 then str_of_int k @ '' * '' @ q' else q') | None \<Rightarrow> q')"

text \<open>The query of one metric and how its series are aggregated; \<^const>\<open>None\<close> is the \<^verbatim>\<open>IndexError\<close> of a
  counter without a name.\<close>

definition build_query :: "bool \<Rightarrow> metric_spec \<Rightarrow> series_query option" where
  "build_query series d =
     (let fltr = (if series then pods_filter else pod_filter)
      in case mk_kind d of
           Hist \<Rightarrow> Some \<lparr>sq_query = hist_query series fltr (mk_names d), sq_unit = mk_unit d,
                        sq_aggregation = ''avg'', sq_gauge = False\<rparr>
         | Gauge agg scale \<Rightarrow> Some \<lparr>sq_query = gauge_query series fltr agg scale (mk_names d), sq_unit = mk_unit d,
                                  sq_aggregation = agg, sq_gauge = True\<rparr>
         | Counter \<Rightarrow> (case mk_names d of [] \<Rightarrow> None
                       | n # _ \<Rightarrow> Some \<lparr>sq_query = sum_rate series fltr n, sq_unit = mk_unit d,
                                       sq_aggregation = ''sum'', sq_gauge = False\<rparr>))"

definition build_serving_queries :: "metric_spec dict \<Rightarrow> bool \<Rightarrow> series_query dict option" where
  "build_serving_queries metrics series =
     those (map (\<lambda>(key, d). map_option (Pair key) (build_query series d)) metrics)"

definition substitute_pod_query :: "string \<Rightarrow> string \<Rightarrow> string \<Rightarrow> string" where
  "substitute_pod_query ns promql pod = replace_all ''{pod_name}'' pod (replace_all ''{namespace}'' ns promql)"

subsection \<open>Every selector is filtered\<close>

text \<open>A text all of whose selectors are the filter: nothing with a brace is left once the filters are taken
  out.\<close>

definition filtered :: "string \<Rightarrow> bool" where
  "filtered q \<longleftrightarrow> CHR ''{'' \<notin> set (replace_all pod_filter [] q)"

lemma pod_filter_Cons: "\<exists>r. pod_filter = CHR ''{'' # r"
  by (simp add: pod_filter_def dq_def)

lemma replace_all_skip:
  "old = c # r \<Longrightarrow> c \<notin> set a \<Longrightarrow> replace_all old new (a @ s) = a @ replace_all old new s"
  by (induction a) auto

lemma replace_all_hit: "old \<noteq> [] \<Longrightarrow> replace_all old new (old @ s) = new @ replace_all old new s"
  by (cases old) auto

lemma filtered_plain: "CHR ''{'' \<notin> set a \<Longrightarrow> filtered (a @ s) = filtered s"
  using pod_filter_Cons by (auto simp: filtered_def replace_all_skip)

lemma filtered_hit [simp]: "filtered (pod_filter @ s) = filtered s"
proof -
  have "pod_filter \<noteq> []" using pod_filter_Cons by auto
  then show ?thesis by (simp add: filtered_def replace_all_hit)
qed

lemma filtered_Nil [simp]: "filtered []"
  by (simp add: filtered_def)

text \<open>A part of a query that may stand before any other part.\<close>

definition part_ok :: "string \<Rightarrow> bool" where
  "part_ok x \<longleftrightarrow> (\<forall>s. filtered (x @ s) = filtered s)"

lemma part_ok_plain: "CHR ''{'' \<notin> set a \<Longrightarrow> part_ok a"
  by (simp add: part_ok_def filtered_plain)

lemma part_ok_intros [intro]:
  "part_ok pod_filter" "part_ok a \<Longrightarrow> part_ok b \<Longrightarrow> part_ok (a @ b)"
  by (simp_all add: part_ok_def)

lemma part_ok_join: "part_ok sep \<Longrightarrow> (\<And>x. x \<in> set xs \<Longrightarrow> part_ok x) \<Longrightarrow> part_ok (join_str sep xs)"
  by (induction sep xs rule: join_str.induct) (auto simp: part_ok_plain)

lemma part_ok_filtered: "part_ok x \<Longrightarrow> filtered x"
  using filtered_Nil unfolding part_ok_def by (metis append_Nil2)

lemma sum_rate_ok: "CHR ''{'' \<notin> set n \<Longrightarrow> part_ok f \<Longrightarrow> part_ok (sum_rate False f n)"
  unfolding sum_rate_def if_False by (intro part_ok_intros(2)) (simp_all add: part_ok_plain)

lemma hist_term_ok: "CHR ''{'' \<notin> set n \<Longrightarrow> part_ok (hist_term False pod_filter n)"
  unfolding hist_term_def by (intro part_ok_intros sum_rate_ok) (simp_all add: part_ok_plain)

lemma gauge_term_ok: "CHR ''{'' \<notin> set n \<Longrightarrow> CHR ''{'' \<notin> set agg \<Longrightarrow> part_ok (gauge_term False pod_filter agg n)"
  unfolding gauge_term_def if_False by (intro part_ok_intros) (simp_all add: part_ok_plain)

lemma hist_query_ok:
  assumes "\<And>n. n \<in> set names \<Longrightarrow> CHR ''{'' \<notin> set n"
  shows "part_ok (hist_query False pod_filter names)"
proof -
  have one: "part_ok (''('' @ hist_term False pod_filter n @ '')'')" if "n \<in> set names" for n
    using assms that by (intro part_ok_intros(2) hist_term_ok) (simp_all add: part_ok_plain)
  have "part_ok (join_str '' or '' (map (\<lambda>n. ''('' @ hist_term False pod_filter n @ '')'') names))"
    by (rule part_ok_join) (use one in \<open>auto simp: part_ok_plain\<close>)
  then show ?thesis
    using assms hist_term_ok by (auto simp: hist_query_def split: list.split)
qed

lemma str_of_int_no_brace: "CHR ''{'' \<notin> set (str_of_int k)"
proof -
  have "\<not> py_isdigit_ascii (CHR ''{'')" by code_simp
  then show ?thesis
    using str_of_nonneg_digits [of k] str_of_nonneg_digits [of "- k"] by (auto simp: str_of_int_def)
qed

lemma gauge_query_ok:
  assumes "\<And>n. n \<in> set names \<Longrightarrow> CHR ''{'' \<notin> set n" and "CHR ''{'' \<notin> set agg"
  shows "part_ok (gauge_query False pod_filter agg scale names)"
proof -
  have q: "part_ok (join_str '' or '' (map (gauge_term False pod_filter agg) names))"
    using assms by (intro part_ok_join) (auto simp: part_ok_plain gauge_term_ok)
  have p: "part_ok (''('' @ join_str '' or '' (map (gauge_term False pod_filter agg) names) @ '')'')"
    by (intro part_ok_intros(2) q) (simp_all add: part_ok_plain)
  have s: "part_ok (str_of_int k @ '' * '' @ x)" if "part_ok x" for k x
    by (intro part_ok_intros(2) that part_ok_plain) (simp_all add: str_of_int_no_brace)
  show ?thesis
    using q p s [OF q] s [OF p] unfolding gauge_query_def Let_def by (auto split: option.split)
qed

text \<open>No brace in the names and the aggregations of a table.\<close>

definition plain_spec :: "metric_spec \<Rightarrow> bool" where
  "plain_spec d \<longleftrightarrow> list_all (\<lambda>n. CHR ''{'' \<notin> set n) (mk_names d)
     \<and> (case mk_kind d of Gauge agg _ \<Rightarrow> CHR ''{'' \<notin> set agg | Counter \<Rightarrow> mk_names d \<noteq> [] | Hist \<Rightarrow> True)"

definition plain_table :: "metric_spec dict \<Rightarrow> bool" where
  "plain_table metrics \<longleftrightarrow> list_all (plain_spec \<circ> snd) metrics"

lemma build_query_ok:
  assumes d: "plain_spec d"
  shows "\<exists>q. build_query series d = Some q \<and> sq_unit q = mk_unit d \<and> (\<not> series \<longrightarrow> filtered (sq_query q))"
proof -
  have names: "\<And>n. n \<in> set (mk_names d) \<Longrightarrow> CHR ''{'' \<notin> set n" using d by (auto simp: plain_spec_def list_all_iff)
  show ?thesis
  proof (cases "mk_kind d")
    case Hist
    then show ?thesis using hist_query_ok [OF names] by (auto simp: build_query_def part_ok_filtered)
  next
    case (Gauge agg scale)
    then have "CHR ''{'' \<notin> set agg" using d by (simp add: plain_spec_def)
    from gauge_query_ok [OF names this] Gauge show ?thesis by (auto simp: build_query_def part_ok_filtered)
  next
    case Counter
    then obtain n ns where n: "mk_names d = n # ns" using d by (cases "mk_names d") (auto simp: plain_spec_def)
    then have "part_ok (sum_rate False pod_filter n)" using names by (intro sum_rate_ok part_ok_intros(1)) simp
    then show ?thesis using Counter n by (auto simp: build_query_def part_ok_filtered)
  qed
qed

lemma those_map_Some_all:
  "(\<And>x. x \<in> set xs \<Longrightarrow> \<exists>y. f x = Some y \<and> P x y) \<Longrightarrow> \<exists>ys. those (map f xs) = Some ys \<and> list_all2 P xs ys"
  by (induction xs) (auto, fastforce)



end
