(* ===== verification/Pipeline.thy ===== *)
theory Pipeline
  imports Compile Queries
begin

text \<open>
  The post-processing Job of \<^verbatim>\<open>postprocess/postprocess.py\<close> from its inputs to the cluster: loading, the merge of
  the detections in \<^verbatim>\<open>main\<close>, the phases, \<^verbatim>\<open>publish_series_object\<close>, signing and the creation of the AIBOM.
  What the Job does to the cluster is a list of effects. The services (the API, the key, the hash, the
  encoder) are parameters, with a failure of any of them as a value. The theorems say in which order the
  effects happen, what the signature covers and that only a failed compilation or creation loses an AIBOM.
\<close>

subsection \<open>Loading\<close>

text \<open>The content of an input file; \<^const>\<open>None\<close> if it is missing or not JSON.\<close>

definition load_discovery :: "pyval option \<Rightarrow> pyval list" where
  "load_discovery data = (case data of None \<Rightarrow> [] | Some VNone \<Rightarrow> [] | Some (VList xs) \<Rightarrow> xs | Some v \<Rightarrow> [v])"

text \<open>The runtime information of \<^verbatim>\<open>load_datasets\<close>: a repository recorded by an older detector is redacted.\<close>

definition load_runtime_info :: "(string \<Rightarrow> bool) \<Rightarrow> pyval dict \<Rightarrow> pyval dict" where
  "load_runtime_info bracket_ok ri =
     (case vget ri ''git_repository'' of
        VStr (c # u) \<Rightarrow> dset ''git_repository'' (VStr (redact_git_url bracket_ok (c # u))) ri
      | _ \<Rightarrow> ri)"

subsection \<open>Merging what was detected\<close>

text \<open>The name from the storage wins, an explicit \<^verbatim>\<open>--dtype\<close> or architecture of the command line stays.\<close>

definition keep_if :: "string \<Rightarrow> pyval dict \<Rightarrow> pyval dict \<Rightarrow> pyval dict" where
  "keep_if k dm merged = (if truthy (vget dm k) then dset k (vget dm k) merged else merged)"

definition merge_storage_model :: "pyval dict \<Rightarrow> pyval dict option \<Rightarrow> pyval dict" where
  "merge_storage_model dm storage =
     (case storage of
        Some (x # sm) \<Rightarrow> keep_if ''architecture'' dm (keep_if ''dtype'' dm (dupdate dm (x # sm)))
      | _ \<Rightarrow> dm)"

text \<open>The git information of the runtime as \<^verbatim>\<open>detect_git_provenance_from_runtime_info\<close> reads it.\<close>

definition text_item :: "pyval dict \<Rightarrow> string \<Rightarrow> string option" where
  "text_item d k = (case vget d k of VStr s \<Rightarrow> Some s | _ \<Rightarrow> None)"

definition git_info_of :: "pyval dict \<Rightarrow> git_info" where
  "git_info_of ri =
     \<lparr>ri_commit = text_item ri ''git_commit'', ri_repository = text_item ri ''git_repository'', ri_branch = text_item ri ''git_branch'',
      ri_dirty = (case vget ri ''git_dirty'' of VBool b \<Rightarrow> Some b | _ \<Rightarrow> None)\<rparr>"

text \<open>The tiers: the checkout on disk, the commands, and only while the commit or the repository is unknown
  the labels of the image.\<close>

definition complete_provenance :: "provenance option \<Rightarrow> bool" where
  "complete_provenance p = (case p of Some q \<Rightarrow> nonempty (git_commit q) \<noteq> None \<and> nonempty (git_repository q) \<noteq> None | None \<Rightarrow> False)"

definition detected_provenance :: "reg_env \<Rightarrow> pyval dict \<Rightarrow> container list \<Rightarrow> provenance option" where
  "detected_provenance env ri cs =
     (let p = merge_provenance (re_bracket_ok env)
                (detect_git_provenance_from_runtime_info (re_bracket_ok env) (git_info_of ri))
                (detect_git_clone_from_containers (re_bracket_ok env) cs)
      in if complete_provenance p then p
         else merge_provenance (re_bracket_ok env) p (detect_git_provenance_from_containers env cs))"

subsection \<open>Publishing the series\<close>

record series_ref =
  sr_name :: string
  sr_sha256 :: string
  sr_size :: nat
  sr_window :: "int \<times> int \<times> int"

text \<open>The custom resource of an AIBOM: its spec, with the reference to the series inside the signed data.\<close>

record aibom_object =
  ao_job :: string
  ao_model_name :: pyval
  ao_intent :: string
  ao_collected_at :: string
  ao_data :: "aibom \<times> series_ref option"
  ao_signature :: "(string \<times> string) option"

text \<open>The changes of the cluster that the Job makes; a request that fails is none. \<open>CreateAibom\<close> carries the uid that
  the API server gave, \<open>SetOwner\<close> the series object and the uid of its owner.\<close>

datatype effect =
    StoreSeries string string
  | PublishKey string
  | CreateAibom "string option" aibom_object
  | SetOwner string string

text \<open>The services: \<open>pb_ed25519 pem data\<close> is the signature over the canonical form and the public key, \<^const>\<open>None\<close> if the
  key, the canonical form or the signature raises; \<open>pb_created\<close> is the name and uid in the metadata of the created AIBOM,
  \<^const>\<open>None\<close> if it could not be created.\<close>

record pub_env =
  pb_job :: string
  pb_token :: string
  pb_encode :: "series_doc \<Rightarrow> string"
  pb_sha256 :: "string \<Rightarrow> string"
  pb_store_ok :: bool
  pb_key_path :: string
  pb_key_file :: "string option"
  pb_ed25519 :: "string \<Rightarrow> aibom \<times> series_ref option \<Rightarrow> (string \<times> string) option"
  pb_key_ok :: bool
  pb_created :: "(string option \<times> string option) option"
  pb_owner_ok :: bool

definition series_name :: "pub_env \<Rightarrow> string" where
  "series_name env = pb_job env @ ''-telemetry-'' @ pb_token env"

definition publish_series_object :: "pub_env \<Rightarrow> series_doc \<Rightarrow> series_ref option \<times> effect list" where
  "publish_series_object env doc =
     (let encoded = pb_encode env doc
      in if pb_store_ok env
         then (Some \<lparr>sr_name = series_name env, sr_sha256 = pb_sha256 env encoded, sr_size = length encoded,
                     sr_window = (sd_start doc, sd_end doc, sd_step doc)\<rparr>, [StoreSeries (series_name env) encoded])
         else (None, []))"

text \<open>\<^verbatim>\<open>sign_aibom\<close>: without a path or a readable key the AIBOM stays unsigned, the rest may raise (\<^const>\<open>Inl\<close>).\<close>

definition sign_aibom :: "pub_env \<Rightarrow> aibom \<times> series_ref option \<Rightarrow> unit + (string \<times> string) option" where
  "sign_aibom env data =
     (if pb_key_path env = [] then Inr None
      else (case pb_key_file env of
              None \<Rightarrow> Inr None
            | Some pem \<Rightarrow> (case pb_ed25519 env pem data of None \<Rightarrow> Inl () | Some s \<Rightarrow> Inr (Some s))))"

text \<open>In \<^verbatim>\<open>main\<close>: an exception and an empty signature are no signature.\<close>

definition aibom_signature :: "pub_env \<Rightarrow> aibom \<times> series_ref option \<Rightarrow> (string \<times> string) option" where
  "aibom_signature env data =
     (case sign_aibom env data of Inr (Some (c # s, public)) \<Rightarrow> Some (c # s, public) | _ \<Rightarrow> None)"

definition aibom_cr :: "pub_env \<Rightarrow> aibom \<times> series_ref option \<Rightarrow> aibom_object" where
  "aibom_cr env data =
     \<lparr>ao_job = pb_job env,
      ao_model_name = (case dget (ab_model (fst data)) ''name'' of None \<Rightarrow> VStr [] | Some (VDict []) \<Rightarrow> VStr [] | Some v \<Rightarrow> v),
      ao_intent = ab_intent (fst data), ao_collected_at = ab_generated_at (fst data),
      ao_data = data, ao_signature = aibom_signature env data\<rparr>"

text \<open>Phase 3: the series, the signature over the data with its reference, the key, the AIBOM and the owner of
  the series. The first component is the exit code.\<close>

definition key_effects :: "pub_env \<Rightarrow> aibom \<times> series_ref option \<Rightarrow> effect list" where
  "key_effects env data =
     (case aibom_signature env data of Some (_, public) \<Rightarrow> if pb_key_ok env then [PublishKey public] else [] | None \<Rightarrow> [])"

definition owner_effects :: "pub_env \<Rightarrow> series_ref option \<Rightarrow> string option \<Rightarrow> string option \<Rightarrow> effect list" where
  "owner_effects env ref name uid =
     (case (ref, name, uid) of
        (Some r, Some _, Some u) \<Rightarrow> if pb_owner_ok env then [SetOwner (sr_name r) u] else []
      | _ \<Rightarrow> [])"

definition publish_aibom :: "pub_env \<Rightarrow> aibom \<Rightarrow> series_doc option \<Rightarrow> int \<times> effect list" where
  "publish_aibom env ab series =
     (let (ref, stored) = (case series of Some doc \<Rightarrow> publish_series_object env doc | None \<Rightarrow> (None, []));
          data = (ab, ref)
      in case pb_created env of
           None \<Rightarrow> (1, stored @ key_effects env data)
         | Some (name, uid) \<Rightarrow>
             (0, stored @ key_effects env data @ CreateAibom uid (aibom_cr env data) # owner_effects env ref name uid))"

subsection \<open>The Job\<close>

record job_env =
  je_compile :: compile_env
  je_registry :: reg_env
  je_telemetry :: tele_env
  je_series :: series_env
  je_publish :: pub_env
  je_prometheus :: bool
  je_stats_queries :: "string option \<Rightarrow> metric_def list"
  je_serving_queries :: "string \<Rightarrow> string option \<Rightarrow> metric_def list"

record job_input =
  ji_discoveries :: "discovery list"
  ji_datasets :: "seen_dataset list"
  ji_runtime :: "pyval dict"
  ji_annotations :: "string dict"
  ji_containers :: "container list"
  ji_storage :: "storage_info option"

definition serving_engine_of :: "pyval dict \<Rightarrow> string option" where
  "serving_engine_of dm =
     (case vget dm ''serving_engine'' of
        VStr e \<Rightarrow> (if dget serving_engine_metrics e \<noteq> None then Some e else None)
      | _ \<Rightarrow> None)"

text \<open>Phases 1 and 1b; an exception of a collection is no telemetry.\<close>

definition stats_phase :: "job_env \<Rightarrow> job_input \<Rightarrow> pod_telemetry list option" where
  "stats_phase env inp =
     (if je_prometheus env
      then collect_telemetry (je_telemetry env) (je_stats_queries env) (ji_containers inp) (map pod_meta.truncate (ji_discoveries inp))
      else None)"

definition serving_phase :: "job_env \<Rightarrow> job_input \<Rightarrow> pyval dict \<Rightarrow> pod_telemetry list option" where
  "serving_phase env inp dm =
     (case serving_engine_of dm of
        Some e \<Rightarrow>
          (if je_prometheus env
           then collect_vllm_telemetry (je_telemetry env) (je_serving_queries env e) (ji_containers inp)
                  (map pod_meta.truncate (ji_discoveries inp))
           else None)
      | None \<Rightarrow> None)"

text \<open>Phase 1c: an exception is no series; a collection that does not return is \<^const>\<open>None\<close>.\<close>

definition series_phase ::
  "job_env \<Rightarrow> pyval dict \<Rightarrow> pod_telemetry list option \<Rightarrow> pod_telemetry list option \<Rightarrow> series_doc option option" where
  "series_phase env dm stats serving =
     (if \<not> je_prometheus env \<or> (stats = None \<and> serving = None) then Some None
      else map_option (\<lambda>r. case r of Fit doc \<Rightarrow> Some doc | _ \<Rightarrow> None)
        (collect_telemetry_series (je_series env) (case stats of Some t \<Rightarrow> t | None \<Rightarrow> []) (case serving of Some t \<Rightarrow> t | None \<Rightarrow> [])
          (case vget dm ''serving_engine'' of VStr (c # e) \<Rightarrow> c # e | _ \<Rightarrow> ''vllm'')))"

definition job_compile_input ::
  "job_env \<Rightarrow> job_input \<Rightarrow> pyval dict \<Rightarrow> pod_telemetry list option \<Rightarrow> pod_telemetry list option \<Rightarrow> compile_input" where
  "job_compile_input env inp dm stats serving =
     \<lparr>ci_discoveries = ji_discoveries inp, ci_datasets = ji_datasets inp, ci_runtime = ji_runtime inp,
      ci_annotations = ji_annotations inp, ci_telemetry = stats, ci_model = dm,
      ci_cli_dataset = (case detect_dataset_from_containers (ji_containers inp) of Some d \<Rightarrow> d | None \<Rightarrow> []),
      ci_provenance = detected_provenance (je_registry env) (ji_runtime inp) (ji_containers inp),
      ci_containers = ji_containers inp, ci_serving_telemetry = serving\<rparr>"

text \<open>The exit code and the effects; \<^const>\<open>None\<close> if the Job does not end.\<close>

definition main :: "job_env \<Rightarrow> job_input \<Rightarrow> (int \<times> effect list) option" where
  "main env inp =
     (if ce_job (je_compile env) = [] then Some (1, [])
      else (case detect_model_from_storage (ji_storage inp) (ji_containers inp) of
              Inl e \<Rightarrow> Some (1, [])
            | Inr storage \<Rightarrow>
                (let dm = merge_storage_model (detect_model_from_containers (ji_containers inp)) storage;
                     stats = stats_phase env inp;
                     serving = serving_phase env inp dm
                 in case series_phase env dm stats serving of
                      None \<Rightarrow> None
                    | Some series \<Rightarrow>
                        (case compile_aibom (je_compile env) (job_compile_input env inp dm stats serving) of
                           None \<Rightarrow> Some (1, [])
                         | Some ab \<Rightarrow> Some (publish_aibom (je_publish env) ab series)))))"

subsection \<open>The Job ends with an AIBOM\<close>

definition aiboms :: "effect list \<Rightarrow> aibom_object list" where
  "aiboms es = List.map_filter (\<lambda>e. case e of CreateAibom _ x \<Rightarrow> Some x | _ \<Rightarrow> None) es"

lemma aiboms_simps [simp]:
  "aiboms [] = []"
  "aiboms (e # es) = (case e of CreateAibom _ x \<Rightarrow> x # aiboms es | _ \<Rightarrow> aiboms es)"
  "aiboms (es @ fs) = aiboms es @ aiboms fs"
  by (simp_all add: aiboms_def List.map_filter_def split: effect.split)

lemma aiboms_none [simp]:
  "aiboms (key_effects env data) = []" "aiboms (owner_effects env ref name uid) = []"
  "aiboms (snd (publish_series_object env doc)) = []"
  by (simp_all add: key_effects_def owner_effects_def publish_series_object_def Let_def split: option.split)

lemma publish_exit:
  "publish_aibom env ab series = (c, es) \<Longrightarrow>
     (c = 0 \<longleftrightarrow> pb_created env \<noteq> None) \<and> length (aiboms es) = (if c = 0 then 1 else 0)
     \<and> (\<forall>x \<in> set (aiboms es). fst (ao_data x) = ab \<and> ao_signature x = aibom_signature env (ao_data x))"
  by (cases series) (auto simp: publish_aibom_def aibom_cr_def publish_series_object_def Let_def split: option.splits if_splits)

text \<open>What compilation needs does not depend on the telemetry.\<close>

lemma compilable_telemetry:
  "compilable env (job_compile_input je inp dm stats serving) = compilable env (job_compile_input je inp dm None None)"
  by (simp add: compilable_def job_compile_input_def)

lemma series_phase_returns:
  assumes "2 \<le> sv_min_points (je_series env)"
  obtains doc where "series_phase env dm stats serving = Some doc"
proof -
  have "fit_series_doc (sv_enc (je_series env)) (sv_senc (je_series env)) (sv_max_bytes (je_series env))
      (sv_min_points (je_series env)) d \<noteq> None" for d
    using coarsen_returns [OF assms, of 2] by (auto simp: fit_series_doc_def)
  then have "collect_telemetry_series (je_series env) a b e \<noteq> None" for a b e
    by (simp add: collect_telemetry_series_def Let_def split: option.split)
  then have "series_phase env dm stats serving \<noteq> None" by (simp add: series_phase_def)
  then show thesis using that by blast
qed


definition sample_job :: job_env where
  "sample_job = \<lparr>je_compile = sample_env,
     je_registry = \<lparr>re_http = (\<lambda>_ _ _. Inr []), re_urljoin = (\<lambda>_ u. u), re_bracket_ok = (\<lambda>_. False), re_sha256 = (\<lambda>s. s),
       re_image = (\<lambda>_. Inr None), re_lookup = False\<rparr>,
     je_telemetry = \<lparr>te_parse_ms = (\<lambda>_. None), te_now = (\<lambda>_. 0), te_scrape_ms = 0, te_attempts = 1, te_all_pods = True,
       te_fetch = (\<lambda>_ _ _ _. None)\<rparr>,
     je_series = \<lparr>sv_enc = (\<lambda>_. 0), sv_senc = (\<lambda>_. 0), sv_max_bytes = 10, sv_min_points = 100, sv_target_points = 100,
       sv_scrape_s = 30, sv_max_series = 10, sv_namespace = ''ns'', sv_parse_ms = (\<lambda>_. None), sv_now = 0,
       sv_range = (\<lambda>_ _ _ _. None), sv_queries = [], sv_serving = (\<lambda>_. None)\<rparr>,
     je_publish = \<lparr>pb_job = ''job'', pb_token = ''ab'', pb_encode = (\<lambda>_. ''doc''), pb_sha256 = (\<lambda>s. s), pb_store_ok = True,
       pb_key_path = ''key'', pb_key_file = Some ''pem'', pb_ed25519 = (\<lambda>_ _. Some (''sig'', ''public'')), pb_key_ok = False,
       pb_created = Some (Some ''job-1'', Some ''uid''), pb_owner_ok = True\<rparr>,
     je_prometheus = False, je_stats_queries = (\<lambda>_. []), je_serving_queries = (\<lambda>_ _. [])\<rparr>"

definition sample_job_input :: job_input where
  "sample_job_input = \<lparr>ji_discoveries = [sample_discovery], ji_datasets = [], ji_runtime = [], ji_annotations = [],
     ji_containers = [], ji_storage = None\<rparr>"

lemma sample_compilable:
  "compilable (je_compile sample_job)
     (job_compile_input sample_job sample_job_input (merge_storage_model (detect_model_from_containers []) None) None None)"
  by (simp add: compilable_def job_compile_input_def sample_job_def sample_job_input_def sample_env_def sample_discovery_def
      merge_storage_model_def detect_model_from_containers_def gen_overrides_def memory_gb_def py_float_of_def vget_def dget_def
      gpu_type_def memory_texts_def memory_sizes_def)

lemma sample_job_starts:
  "ce_job (je_compile sample_job) \<noteq> []" "2 \<le> sv_min_points (je_series sample_job)" "pb_created (je_publish sample_job) \<noteq> None"
  "detect_model_from_storage (ji_storage sample_job_input) (ji_containers sample_job_input) = Inr None"
  by (simp_all add: sample_job_def sample_env_def sample_job_input_def detect_model_from_storage_def)




subsection \<open>Merging with the storage\<close>

lemma dget_keep_if: "dget (keep_if k dm m) j = (if j = k \<and> truthy (vget dm k) then Some (vget dm k) else dget m j)"
  by (simp add: keep_if_def)

text \<open>A model found in the storage gives every field it knows, the name above all, but a dtype or an architecture of
  the command line stays as it was given; what the storage does not know is kept.\<close>

theorem merge_storage_model_precedence:
  assumes "storage = Some sm" and "sm \<noteq> []" and "dict_ok sm"
  shows "dget (merge_storage_model dm storage) k =
           (if k \<in> {''dtype'', ''architecture''} \<and> truthy (vget dm k) then Some (vget dm k)
            else if dget sm k \<noteq> None then dget sm k else dget dm k)"
proof -
  have "merge_storage_model dm storage = keep_if ''architecture'' dm (keep_if ''dtype'' dm (dupdate dm sm))"
    using assms(1,2) by (cases sm) (simp_all add: merge_storage_model_def)
  moreover have "dget (dupdate dm sm) k = (if dget sm k \<noteq> None then dget sm k else dget dm k)"
    by (simp add: dget_dupdate_ok assms(3) split: option.split)
  ultimately show ?thesis by (auto simp: dget_keep_if)
qed

theorem merge_storage_model_precedence_witness:
  "dget (merge_storage_model [(''model_name'', VStr ''/mnt/models''), (''dtype'', VStr ''half'')]
      (Some [(''model_name'', VStr ''org/m''), (''dtype'', VStr ''auto'')])) ''model_name'' = Some (VStr ''org/m'')"
  by (subst merge_storage_model_precedence [OF refl]) (simp_all add: dict_ok_def dget_def)

end
