(* ===== verification/Cluster.thy ===== *)
theory Cluster
  imports Pipeline
begin

text \<open>
  The objects that the post-processing Jobs of one namespace leave behind, when any number of Jobs publish at the same
  time and each may be killed between two requests (a killed Job never takes its next step; the retry is another Job with
  another token). A state is the cluster with the changes that the started Jobs have still to make, in the order of
  \<^verbatim>\<open>main\<close>. The invariant says that references and hashes are never dangling: the reason why \<^verbatim>\<open>main\<close> stores
  the series before it signs and creates the AIBOM, and sets the owner afterwards.
\<close>

subsection \<open>Objects\<close>

record cluster =
  cl_series :: "string dict"
  cl_key :: "string option"
  cl_aiboms :: "(string option \<times> aibom_object) list"
  cl_owners :: "(string \<times> string) list"

definition no_objects :: cluster where
  "no_objects = \<lparr>cl_series = [], cl_key = None, cl_aiboms = [], cl_owners = []\<rparr>"

fun apply_effect :: "effect \<Rightarrow> cluster \<Rightarrow> cluster" where
  "apply_effect (StoreSeries n s) c = c\<lparr>cl_series := dset n s (cl_series c)\<rparr>"
| "apply_effect (PublishKey k) c = c\<lparr>cl_key := Some k\<rparr>"
| "apply_effect (CreateAibom u x) c = c\<lparr>cl_aiboms := cl_aiboms c @ [(u, x)]\<rparr>"
| "apply_effect (SetOwner n u) c = c\<lparr>cl_owners := cl_owners c @ [(n, u)]\<rparr>"

text \<open>The names under which the pending changes store series.\<close>

definition stored_names :: "effect list \<Rightarrow> string set" where
  "stored_names es = {n. \<exists>s. StoreSeries n s \<in> set es}"

type_synonym job_system = "cluster \<times> effect list list"

text \<open>A Job starts publishing under a name that no stored or pending series has (its random token; the API server refuses
  a second object of the same name), or a Job makes its next change.\<close>

inductive cluster_step :: "(string \<Rightarrow> string) \<Rightarrow> (string \<Rightarrow> aibom \<times> series_ref option \<Rightarrow> (string \<times> string) option) \<Rightarrow>
    job_system \<Rightarrow> job_system \<Rightarrow> bool" for sha ed where
  start: "\<lbrakk>pb_sha256 env = sha; pb_ed25519 env = ed; dget (cl_series c) (series_name env) = None;
           \<forall>j \<in> set js. series_name env \<notin> stored_names j; publish_aibom env ab series = (code, es)\<rbrakk>
     \<Longrightarrow> cluster_step sha ed (c, js) (c, es # js)"
| act: "i < length js \<Longrightarrow> js ! i = e # es \<Longrightarrow> cluster_step sha ed (c, js) (apply_effect e c, js[i := es])"

inductive cluster_run :: "(string \<Rightarrow> string) \<Rightarrow> (string \<Rightarrow> aibom \<times> series_ref option \<Rightarrow> (string \<times> string) option) \<Rightarrow>
    job_system \<Rightarrow> bool" for sha ed where
  init: "cluster_run sha ed (no_objects, [])"
| step: "cluster_run sha ed s \<Longrightarrow> cluster_step sha ed s t \<Longrightarrow> cluster_run sha ed t"

subsection \<open>Integrity\<close>

definition ref_ok :: "(string \<Rightarrow> string) \<Rightarrow> series_ref \<Rightarrow> string \<Rightarrow> bool" where
  "ref_ok sha r s \<longleftrightarrow> sr_sha256 r = sha s \<and> sr_size r = length s"

definition signed_ok :: "(string \<Rightarrow> aibom \<times> series_ref option \<Rightarrow> (string \<times> string) option) \<Rightarrow> aibom_object \<Rightarrow> bool" where
  "signed_ok ed x \<longleftrightarrow> (case ao_signature x of None \<Rightarrow> True | Some s \<Rightarrow> \<exists>pem. ed pem (ao_data x) = Some s)"

definition owned_by :: "aibom_object \<Rightarrow> string \<Rightarrow> bool" where
  "owned_by x n \<longleftrightarrow> (\<exists>r. snd (ao_data x) = Some r \<and> sr_name r = n)"

text \<open>Every reference of an AIBOM resolves to a stored series with the recorded hash and size, every signature is one
  of the AIBOM's own data, and every owner is an AIBOM that refers to the series.\<close>

definition cluster_ok ::
  "(string \<Rightarrow> string) \<Rightarrow> (string \<Rightarrow> aibom \<times> series_ref option \<Rightarrow> (string \<times> string) option) \<Rightarrow> cluster \<Rightarrow> bool" where
  "cluster_ok sha ed c \<longleftrightarrow>
     (\<forall>u x. (u, x) \<in> set (cl_aiboms c) \<longrightarrow> signed_ok ed x
        \<and> (\<forall>r. snd (ao_data x) = Some r \<longrightarrow> (\<exists>s. dget (cl_series c) (sr_name r) = Some s \<and> ref_ok sha r s)))
     \<and> (\<forall>n u. (n, u) \<in> set (cl_owners c) \<longrightarrow> (\<exists>x. (Some u, x) \<in> set (cl_aiboms c) \<and> owned_by x n))"

text \<open>What the next change needs: a fresh name for a series, for an AIBOM its series in the cluster or in an earlier change
  of the same Job, for an owner its AIBOM likewise.\<close>

definition ready :: "(string \<Rightarrow> string) \<Rightarrow> (string \<Rightarrow> aibom \<times> series_ref option \<Rightarrow> (string \<times> string) option) \<Rightarrow>
    cluster \<Rightarrow> effect list \<Rightarrow> effect \<Rightarrow> bool" where
  "ready sha ed c before e \<longleftrightarrow>
     (case e of
        StoreSeries n s \<Rightarrow> dget (cl_series c) n = None \<and> n \<notin> stored_names before
      | PublishKey k \<Rightarrow> True
      | CreateAibom u x \<Rightarrow> signed_ok ed x \<and> (\<forall>r. snd (ao_data x) = Some r \<longrightarrow>
          (\<exists>s. (dget (cl_series c) (sr_name r) = Some s \<or> StoreSeries (sr_name r) s \<in> set before) \<and> ref_ok sha r s))
      | SetOwner n u \<Rightarrow> \<exists>x. ((Some u, x) \<in> set (cl_aiboms c) \<or> CreateAibom (Some u) x \<in> set before) \<and> owned_by x n)"

definition pending_ok :: "(string \<Rightarrow> string) \<Rightarrow> (string \<Rightarrow> aibom \<times> series_ref option \<Rightarrow> (string \<times> string) option) \<Rightarrow>
    cluster \<Rightarrow> effect list \<Rightarrow> bool" where
  "pending_ok sha ed c es \<longleftrightarrow> (\<forall>before e after. es = before @ e # after \<longrightarrow> ready sha ed c before e)"

definition system_ok ::
  "(string \<Rightarrow> string) \<Rightarrow> (string \<Rightarrow> aibom \<times> series_ref option \<Rightarrow> (string \<times> string) option) \<Rightarrow> job_system \<Rightarrow> bool" where
  "system_ok sha ed s \<longleftrightarrow>
     cluster_ok sha ed (fst s) \<and> (\<forall>j \<in> set (snd s). pending_ok sha ed (fst s) j)
     \<and> (\<forall>i k. i < k \<longrightarrow> k < length (snd s) \<longrightarrow> stored_names (snd s ! i) \<inter> stored_names (snd s ! k) = {})"

lemma stored_names_simps [simp]:
  "stored_names [] = {}"
  "stored_names (e # es) = (case e of StoreSeries n s \<Rightarrow> {n} | _ \<Rightarrow> {}) \<union> stored_names es"
  "stored_names (es @ fs) = stored_names es \<union> stored_names fs"
  by (auto simp: stored_names_def split: effect.splits)

lemma pending_ok_Nil [simp]: "pending_ok sha ed c []"
  by (simp add: pending_ok_def)

lemma apply_effect_ok:
  assumes "cluster_ok sha ed c" and "ready sha ed c [] e"
  shows "cluster_ok sha ed (apply_effect e c)"
proof (cases e)
  case (StoreSeries n s)
  then have "sr_name r \<noteq> n" if "dget (cl_series c) (sr_name r) = Some t" for r t
    using that assms(2) by (auto simp: ready_def)
  then show ?thesis using assms(1) StoreSeries unfolding cluster_ok_def by fastforce
next
  case (CreateAibom v y)
  then show ?thesis using assms unfolding cluster_ok_def ready_def by fastforce
qed (use assms in \<open>auto simp: cluster_ok_def ready_def\<close>)

text \<open>The own next change moves from the pending list to the cluster.\<close>

lemma ready_own:
  "ready sha ed c (e # before) f \<Longrightarrow> ready sha ed c [] e \<Longrightarrow> ready sha ed (apply_effect e c) before f"
  by (cases e; cases f) (auto simp: ready_def)

text \<open>A change of another Job takes nothing away, as long as it stores under another name.\<close>

lemma ready_other:
  assumes "ready sha ed c before f" and "ready sha ed c [] e" and "stored_names [e] \<inter> stored_names [f] = {}"
  shows "ready sha ed (apply_effect e c) before f"
  using assms by (cases e; cases f) (auto simp: ready_def)

lemma pending_own:
  assumes "pending_ok sha ed c (e # es)"
  shows "ready sha ed c [] e" and "pending_ok sha ed (apply_effect e c) es"
proof -
  show first: "ready sha ed c [] e" using assms by (simp add: pending_ok_def)
  have "ready sha ed c (e # before) f" if "es = before @ f # after" for before f after
    using assms that unfolding pending_ok_def by (metis append_Cons)
  then show "pending_ok sha ed (apply_effect e c) es" using ready_own first by (auto simp: pending_ok_def)
qed

lemma pending_other:
  assumes "pending_ok sha ed c j" and "ready sha ed c [] e" and "stored_names [e] \<inter> stored_names j = {}"
  shows "pending_ok sha ed (apply_effect e c) j"
  unfolding pending_ok_def
proof (intro allI impI)
  fix before f after
  assume j: "j = before @ f # after"
  then have "stored_names [e] \<inter> stored_names [f] = {}" using assms(3) by auto
  then show "ready sha ed (apply_effect e c) before f"
    using assms(1,2) j ready_other unfolding pending_ok_def by blast
qed

text \<open>The changes of a Job in the order of \<^verbatim>\<open>main\<close> are ready one after the other.\<close>

lemma signed_ok_cr: "signed_ok (pb_ed25519 env) (aibom_cr env data)"
  by (auto simp: signed_ok_def aibom_cr_def aibom_signature_def sign_aibom_def split: if_splits option.splits sum.splits list.splits)

lemma publish_pending:
  assumes "publish_aibom env ab series = (code, es)" and "dget (cl_series c) (series_name env) = None"
  shows "pending_ok (pb_sha256 env) (pb_ed25519 env) c es" and "stored_names es \<subseteq> {series_name env}"
proof -
  obtain ref stored where pub:
      "(case series of Some doc \<Rightarrow> publish_series_object env doc | None \<Rightarrow> (None, [])) = (ref, stored)" by fastforce
  have kd: "key_effects env (ab, ref) = [] \<or> (\<exists>k. key_effects env (ab, ref) = [PublishKey k])"
    by (auto simp: key_effects_def split: option.splits)
  have own: "owner_effects env ref name uid = []
      \<or> (\<exists>r u. ref = Some r \<and> uid = Some u \<and> owner_effects env ref name uid = [SetOwner (sr_name r) u])" for name uid
    by (auto simp: owner_effects_def split: option.splits)
  have st: "(ref = None \<and> stored = [])
      \<or> (\<exists>r s. ref = Some r \<and> stored = [StoreSeries (series_name env) s] \<and> sr_name r = series_name env \<and> ref_ok (pb_sha256 env) r s)"
    using pub by (auto simp: publish_series_object_def ref_ok_def Let_def split: option.splits if_splits)
  let ?cr = "aibom_cr env (ab, ref)"
  have data: "ao_data ?cr = (ab, ref)" by (simp add: aibom_cr_def)
  have shape: "es = stored @ key_effects env (ab, ref)
      \<or> (\<exists>name uid. es = stored @ key_effects env (ab, ref) @ CreateAibom uid ?cr # owner_effects env ref name uid)"
    using assms(1) pub by (auto simp: publish_aibom_def Let_def split: option.splits)
  then consider "es = stored @ key_effects env (ab, ref)"
    | name uid where "es = stored @ key_effects env (ab, ref) @ CreateAibom uid ?cr # owner_effects env ref name uid" by blast
  then show "pending_ok (pb_sha256 env) (pb_ed25519 env) c es"
  proof cases
    case 1
    then show ?thesis using kd st assms(2) by (auto simp: pending_ok_def ready_def Cons_eq_append_conv)
  next
    case 2
    then show ?thesis using kd own [of name uid] st assms(2) data signed_ok_cr [of env "(ab, ref)"]
      by (auto simp: pending_ok_def ready_def owned_by_def Cons_eq_append_conv conj_disj_distribR ex_disj_distrib)
  qed
  show "stored_names es \<subseteq> {series_name env}"
  proof -
    have "stored_names (owner_effects env ref name uid) = {}" for name uid using own [of name uid] by auto
    moreover have "stored_names (key_effects env (ab, ref)) = {}" "stored_names stored \<subseteq> {series_name env}" using kd st by auto
    ultimately show ?thesis using shape by auto
  qed
qed

lemma step_ok:
  assumes "cluster_step sha ed s t" and "system_ok sha ed s"
  shows "system_ok sha ed t"
  using assms
proof (cases rule: cluster_step.cases)
  case (start env c js ab series code es)
  note fresh = publish_pending [OF start(7,5)]
  have "stored_names es \<inter> stored_names (js ! k) = {}" if "k < length js" for k
    using fresh(2) start(6) that nth_mem by blast
  then show ?thesis using start fresh(1) assms(2) by (auto simp: system_ok_def nth_Cons split: nat.splits)
next
  case (act i js e es c)
  have own: "ready sha ed c [] e" "pending_ok sha ed (apply_effect e c) es"
    using pending_own assms(2) act nth_mem unfolding system_ok_def by fastforce+
  have other: "pending_ok sha ed (apply_effect e c) (js ! k)" if "k < length js" "k \<noteq> i" for k
  proof (rule pending_other [OF _ own(1)])
    show "pending_ok sha ed c (js ! k)" using assms(2) act(1) that by (simp add: system_ok_def)
    have "stored_names (js ! i) \<inter> stored_names (js ! k) = {}"
      using assms(2) act(1,3) that by (cases "i < k") (auto simp: system_ok_def nat_neq_iff Int_commute)
    then show "stored_names [e] \<inter> stored_names (js ! k) = {}" using act(4) by auto
  qed
  have sub: "stored_names (js[i := es] ! k) \<subseteq> stored_names (js ! k)" for k
    using act(3,4) by (cases "k = i") auto
  have "pending_ok sha ed (apply_effect e c) j" if mem: "j \<in> set (js[i := es])" for j
  proof -
    obtain k where "k < length js" "j = js[i := es] ! k" using mem by (auto simp: in_set_conv_nth)
    then show ?thesis using own(2) other [of k] act(3) by (cases "k = i") simp_all
  qed
  moreover have "stored_names (js[i := es] ! k) \<inter> stored_names (js[i := es] ! l) = {}" if "k < l" "l < length js" for k l
  proof -
    have "stored_names (js ! k) \<inter> stored_names (js ! l) = {}" using assms(2) act(1) that by (simp add: system_ok_def)
    then show ?thesis using sub [of k] sub [of l] by blast
  qed
  ultimately show ?thesis using assms(2) act(1,2) own(1) apply_effect_ok by (simp add: system_ok_def)
qed

text \<open>C1: However the Jobs of a namespace interleave and wherever each of them is killed, every series reference of an AIBOM
  resolves to a stored series with the signed hash and size, every signature is one over the AIBOM's data with that
  reference, and a series is only ever owned by an AIBOM that refers to it.\<close>

theorem cluster_integrity:
  assumes "cluster_run sha ed (c, js)"
  shows "cluster_ok sha ed c"
proof -
  have "system_ok sha ed s" if "cluster_run sha ed s" for s
    using that
  proof induction
    case init
    show ?case by (simp add: system_ok_def cluster_ok_def no_objects_def)
  qed (rule step_ok)
  with assms show ?thesis by (auto simp: system_ok_def)
qed

text \<open>One Job that stores a series, is signed, creates its AIBOM and sets the owner.\<close>

definition sample_pub :: pub_env where
  "sample_pub = (je_publish sample_job)\<lparr>pb_key_ok := True\<rparr>"

definition sample_series :: series_doc where
  "sample_series = \<lparr>sd_start = 0, sd_end = 60, sd_step = 30, sd_pods = [], sd_metrics = []\<rparr>"

definition sample_aibom :: aibom where
  "sample_aibom = \<lparr>ab_intent = ''inference'', ab_intent_via = None, ab_name = None, ab_description = None,
     ab_source = source_code_section (\<lambda>_. False) [] None, ab_pods = [], ab_duration = None, ab_status = None, ab_model = [],
     ab_dataset = None, ab_training = None, ab_fine_tuning = None, ab_inference = None, ab_environment = None,
     ab_utilization = None, ab_generated_at = ''t'', ab_dataset_detection = ''enabled''\<rparr>"

lemma act_head: "cluster_step sha ed (c, [e # es]) (apply_effect e c, [es])"
  using cluster_step.act [of 0 "[e # es]" e es] by simp

lemma acts: "cluster_run sha ed (c, [es]) \<Longrightarrow> cluster_run sha ed (fold apply_effect es c, [[]])"
proof (induction es arbitrary: c)
  case (Cons e es)
  from Cons.prems act_head have "cluster_run sha ed (apply_effect e c, [es])" by (rule cluster_run.step)
  from Cons.IH [OF this] show ?case by simp
qed simp

theorem cluster_integrity_witness:
  "cluster_ok (pb_sha256 sample_pub) (pb_ed25519 sample_pub)
     (fold apply_effect (snd (publish_aibom sample_pub sample_aibom (Some sample_series))) no_objects)"
proof -
  have "cluster_step (pb_sha256 sample_pub) (pb_ed25519 sample_pub) (no_objects, [])
      (no_objects, [snd (publish_aibom sample_pub sample_aibom (Some sample_series))])"
    by (rule cluster_step.start [where env = sample_pub and code = "fst (publish_aibom sample_pub sample_aibom (Some sample_series))"])
      (simp_all add: no_objects_def dget_def)
  then show ?thesis using cluster_integrity [OF acts] cluster_run.init cluster_run.step by blast
qed

text \<open>The run of the example is not empty: its AIBOM is signed, refers to the series and owns it.\<close>

lemma sample_run_effects:
  "map (\<lambda>e. case e of StoreSeries _ _ \<Rightarrow> 1 | PublishKey _ \<Rightarrow> 2 | CreateAibom _ _ \<Rightarrow> 3 | SetOwner _ _ \<Rightarrow> (4 :: nat))
     (snd (publish_aibom sample_pub sample_aibom (Some sample_series))) = [1, 2, 3, 4]"
  by (simp add: publish_aibom_def publish_series_object_def key_effects_def owner_effects_def aibom_signature_def sign_aibom_def
      sample_pub_def sample_job_def Let_def)

end
