(* ===== verification/K8sApi.thy ===== *)
theory K8sApi
  imports PyValue
begin

text \<open>
  The Kubernetes client \<^verbatim>\<open>scripts/aibom-scripts/k8s_api.py\<close>: names, reads that tolerate a missing object,
  and \<^verbatim>\<open>patch_configmap\<close>, which several containers call at once for one ConfigMap. A call is the sequence of
  its requests; the interleaving of the requests of any number of callers is a step relation, in which
  a request may also fail. Requests are atomic, as the API server makes them. The sequential call, as a
  function on the state of the server, is one run of the same client.
\<close>

subsection \<open>Names\<close>

definition max_job_name_length :: nat where
  "max_job_name_length = 63"

definition postprocess_suffix :: string where
  "postprocess_suffix = ''-aibom-postprocess''"

definition configmap_suffix :: string where
  "configmap_suffix = ''-data''"

definition workload_identity_suffix_len :: nat where
  "workload_identity_suffix_len = length ''-aibom-workload-identity''"

definition postprocess_job_name :: "string \<Rightarrow> string" where
  "postprocess_job_name trigger =
     rstrip_p (\<lambda>c. c = CHR ''-'') (take (max_job_name_length - workload_identity_suffix_len) trigger) @ postprocess_suffix"

text \<open>The two environment variables, empty if they are not set.\<close>

definition resolve_data_configmap_name :: "string \<Rightarrow> string \<Rightarrow> string" where
  "resolve_data_configmap_name configured pod =
     (if configured \<noteq> [] then configured
      else if pod = [] then [] else postprocess_job_name pod @ configmap_suffix)"

subsection \<open>Requests\<close>

text \<open>The result of a request: a raised HTTP status, any other exception, or the answer.\<close>

datatype 'a http_result = HttpError int | OtherError | Answer 'a

definition custom_path :: "string \<Rightarrow> string \<Rightarrow> string \<Rightarrow> string \<Rightarrow> string" where
  "custom_path ns grp version plural =
     ''/apis/'' @ grp @ ''/'' @ version @ ''/namespaces/'' @ ns @ ''/'' @ plural"

text \<open>\<^verbatim>\<open>create_custom_object\<close> and \<^verbatim>\<open>set_custom_object_owner\<close>: the request that \<^verbatim>\<open>_request\<close> sends.\<close>

record api_call =
  ac_method :: string
  ac_path :: string
  ac_body :: "pyval option"
  ac_content_type :: string

definition create_custom_object :: "string \<Rightarrow> string \<Rightarrow> string \<Rightarrow> string \<Rightarrow> pyval \<Rightarrow> api_call" where
  "create_custom_object ns grp version plural body =
     \<lparr>ac_method = ''POST'', ac_path = custom_path ns grp version plural, ac_body = Some body, ac_content_type = ''application/json''\<rparr>"

definition set_custom_object_owner :: "string \<Rightarrow> string \<Rightarrow> string \<Rightarrow> string \<Rightarrow> string \<Rightarrow> pyval \<Rightarrow> api_call" where
  "set_custom_object_owner ns grp version plural name owner =
     \<lparr>ac_method = ''PATCH'', ac_path = custom_path ns grp version plural @ ''/'' @ name,
      ac_body = Some (VDict [(''metadata'', VDict [(''ownerReferences'', VList [owner])])]),
      ac_content_type = ''application/merge-patch+json''\<rparr>"

definition get_or_none :: "int list \<Rightarrow> 'a http_result \<Rightarrow> 'a option http_result" where
  "get_or_none codes r =
     (case r of
        Answer a \<Rightarrow> Answer (Some a)
      | HttpError c \<Rightarrow> (if c \<in> set codes then Answer None else HttpError c)
      | OtherError \<Rightarrow> OtherError)"

definition get_custom_object ::
  "(string \<Rightarrow> 'a http_result) \<Rightarrow> string \<Rightarrow> string \<Rightarrow> string \<Rightarrow> string \<Rightarrow> string \<Rightarrow> 'a option http_result" where
  "get_custom_object get ns grp version plural name =
     get_or_none [404] (get (custom_path ns grp version plural @ ''/'' @ name))"

definition get_cluster_object ::
  "(string \<Rightarrow> 'a http_result) \<Rightarrow> string \<Rightarrow> string \<Rightarrow> string \<Rightarrow> string \<Rightarrow> 'a option http_result" where
  "get_cluster_object get grp version plural name =
     get_or_none [404, 403] (get (''/apis/'' @ grp @ ''/'' @ version @ ''/'' @ plural @ ''/'' @ name))"

subsection \<open>Merging into a ConfigMap\<close>

text \<open>The ConfigMap on the server (\<^const>\<open>None\<close>: not there), and its two requests: a merge patch, which fails
  with 404, and a creation, which fails with 409.\<close>

type_synonym config_map = "string dict option"

definition patch_request :: "string dict \<Rightarrow> config_map \<Rightarrow> unit http_result \<times> config_map" where
  "patch_request upd cm =
     (case cm of None \<Rightarrow> (HttpError 404, cm) | Some d \<Rightarrow> (Answer (), Some (dupdate d upd)))"

definition create_request :: "string dict \<Rightarrow> config_map \<Rightarrow> unit http_result \<times> config_map" where
  "create_request upd cm =
     (case cm of None \<Rightarrow> (Answer (), Some upd) | Some d \<Rightarrow> (HttpError 409, cm))"

text \<open>Where a call of \<^verbatim>\<open>patch_configmap\<close> is: before its first patch, its creation, its second patch, or
  returned or raised.\<close>

datatype call_pc = Patching | Creating | Repatching | Returned | Raised

definition after_patch :: "unit http_result \<Rightarrow> call_pc" where
  "after_patch r = (case r of Answer _ \<Rightarrow> Returned | HttpError c \<Rightarrow> if c \<noteq> 404 then Raised else Creating | OtherError \<Rightarrow> Raised)"

definition after_create :: "unit http_result \<Rightarrow> call_pc" where
  "after_create r = (case r of Answer _ \<Rightarrow> Returned | HttpError c \<Rightarrow> if c \<noteq> 409 then Raised else Repatching | OtherError \<Rightarrow> Raised)"

definition after_repatch :: "unit http_result \<Rightarrow> call_pc" where
  "after_repatch r = (case r of Answer _ \<Rightarrow> Returned | _ \<Rightarrow> Raised)"

text \<open>The next request of a call.\<close>

fun call_step :: "string dict \<Rightarrow> call_pc \<Rightarrow> config_map \<Rightarrow> call_pc \<times> config_map" where
  "call_step upd Patching cm = (let (r, cm') = patch_request upd cm in (after_patch r, cm'))"
| "call_step upd Creating cm = (let (r, cm') = create_request upd cm in (after_create r, cm'))"
| "call_step upd Repatching cm = (let (r, cm') = patch_request upd cm in (after_repatch r, cm'))"
| "call_step upd Returned cm = (Returned, cm)"
| "call_step upd Raised cm = (Raised, cm)"

text \<open>The whole call with nobody else at work, on a server that fails the requests that \<open>faults\<close> says: the
  result and the state after it. A failed request may or may not have been carried out (\<open>applied\<close>).\<close>

datatype fault = Ok | Fail bool

definition faulty_step :: "fault \<Rightarrow> string dict \<Rightarrow> call_pc \<Rightarrow> config_map \<Rightarrow> call_pc \<times> config_map" where
  "faulty_step f upd pc cm =
     (if pc = Returned \<or> pc = Raised then (pc, cm)
      else (case f of
              Ok \<Rightarrow> call_step upd pc cm
            | Fail applied \<Rightarrow> (Raised, if applied then snd (call_step upd pc cm) else cm)))"

definition patch_configmap :: "(nat \<Rightarrow> fault) \<Rightarrow> string dict \<Rightarrow> config_map \<Rightarrow> call_pc \<times> config_map" where
  "patch_configmap faults upd cm =
     (let (pc1, cm1) = faulty_step (faults 0) upd Patching cm;
          (pc2, cm2) = faulty_step (faults 1) upd pc1 cm1
      in faulty_step (faults 2) upd pc2 cm2)"

subsection \<open>Concurrent callers\<close>

record caller =
  kc_pc :: call_pc
  kc_updates :: "string dict"

record api_system =
  ks_map :: config_map
  ks_callers :: "caller list"

definition set_caller :: "nat \<Rightarrow> call_pc \<Rightarrow> config_map \<Rightarrow> api_system \<Rightarrow> api_system" where
  "set_caller i pc cm s = \<lparr>ks_map = cm, ks_callers = (ks_callers s)[i := (ks_callers s ! i)\<lparr>kc_pc := pc\<rparr>]\<rparr>"

definition active :: "call_pc \<Rightarrow> bool" where
  "active pc \<longleftrightarrow> pc \<noteq> Returned \<and> pc \<noteq> Raised"

text \<open>A step is one request of one caller, answered as the server is (\<open>ok\<close>), or failed by the network or the
  server (\<open>fault\<close>), after or without being carried out.\<close>

inductive api_step :: "bool \<Rightarrow> api_system \<Rightarrow> api_system \<Rightarrow> bool" where
  ok: "i < length (ks_callers s) \<Longrightarrow> active (kc_pc (ks_callers s ! i)) \<Longrightarrow>
       call_step (kc_updates (ks_callers s ! i)) (kc_pc (ks_callers s ! i)) (ks_map s) = (pc, cm) \<Longrightarrow>
       api_step faulty s (set_caller i pc cm s)"
| fault: "i < length (ks_callers s) \<Longrightarrow> active (kc_pc (ks_callers s ! i)) \<Longrightarrow>
       call_step (kc_updates (ks_callers s ! i)) (kc_pc (ks_callers s ! i)) (ks_map s) = (pc, cm) \<Longrightarrow>
       cm' = cm \<or> cm' = ks_map s \<Longrightarrow>
       api_step True s (set_caller i Raised cm' s)"

inductive_cases api_stepE: "api_step faulty s t"

inductive api_run :: "bool \<Rightarrow> api_system \<Rightarrow> api_system \<Rightarrow> bool" where
  refl: "api_run faulty s s"
| step: "api_run faulty s t \<Longrightarrow> api_step faulty t u \<Longrightarrow> api_run faulty s u"

text \<open>At the start every call is before its first request.\<close>

definition api_start :: "config_map \<Rightarrow> string dict list \<Rightarrow> api_system" where
  "api_start cm upds = \<lparr>ks_map = cm, ks_callers = map (\<lambda>u. \<lparr>kc_pc = Patching, kc_updates = u\<rparr>) upds\<rparr>"

subsection \<open>Names are valid and stable\<close>

lemma suffix_lengths [simp]:
  "length postprocess_suffix = 18" "length configmap_suffix = 5" "workload_identity_suffix_len = 24" "max_job_name_length = 63"
  by (simp_all add: postprocess_suffix_def configmap_suffix_def workload_identity_suffix_len_def max_job_name_length_def)

text \<open>The names derived from a pod name fit the 63 characters of a Kubernetes name, whatever the pod name,
  and depend on the first 39 characters of it only.\<close>

theorem configmap_name_bounds:
  "length (postprocess_job_name pod) \<le> 57
    \<and> (configured = [] \<longrightarrow> length (resolve_data_configmap_name configured pod) \<le> 62)
    \<and> postprocess_job_name (take 39 pod) = postprocess_job_name pod"
proof -
  have len: "length (rstrip_p p x) \<le> length x" for p and x :: string
    using length_dropWhile_le [of p "rev x"] by (simp add: rstrip_p_def)
  have "length (postprocess_job_name pod) \<le> 57"
    using len [of "\<lambda>c. c = CHR ''-''" "take 39 pod"] by (simp add: postprocess_job_name_def)
  then show ?thesis by (simp add: resolve_data_configmap_name_def) (simp add: postprocess_job_name_def)
qed

theorem configmap_name_bounds_witness:
  "length (resolve_data_configmap_name [] (replicate 100 CHR ''x'')) \<le> 62"
  using configmap_name_bounds [of "replicate 100 CHR ''x''" "[]"] by simp

subsection \<open>No update is lost\<close>

definition holds :: "string dict \<Rightarrow> config_map \<Rightarrow> bool" where
  "holds upd cm \<longleftrightarrow> (\<exists>d. cm = Some d \<and> (\<forall>k v. dget upd k = Some v \<longrightarrow> dget d k = Some v))"

definition keeps_others :: "string set \<Rightarrow> config_map \<Rightarrow> config_map \<Rightarrow> bool" where
  "keeps_others ks cm cm' \<longleftrightarrow> (\<forall>d. cm = Some d \<longrightarrow> (\<exists>d'. cm' = Some d' \<and> (\<forall>k. k \<notin> ks \<longrightarrow> dget d' k = dget d k)))"

lemma keeps_others_refl [simp]: "keeps_others ks cm cm"
  by (simp add: keeps_others_def)

lemma keeps_others_trans: "keeps_others ks a b \<Longrightarrow> keeps_others ks b c \<Longrightarrow> keeps_others ks a c"
  by (fastforce simp: keeps_others_def)

lemma keeps_others_mono: "keeps_others ks a b \<Longrightarrow> ks \<subseteq> ks' \<Longrightarrow> keeps_others ks' a b"
  by (fastforce simp: keeps_others_def)

lemmas request_defs = patch_request_def create_request_def after_patch_def after_create_def after_repatch_def

lemma call_step_keeps:
  assumes "call_step upd pc cm = (pc', cm')" "dict_ok upd"
  shows "keeps_others (dkeys upd) cm cm'"
  using assms
  by (cases pc; cases cm) (auto simp: request_defs keeps_others_def dget_dupdate_ok dget_None_iff [symmetric] split: option.splits)

lemma call_step_returned:
  assumes "call_step upd pc cm = (Returned, cm')" "dict_ok upd" "active pc"
  shows "holds upd cm'"
  using assms
  by (cases pc; cases cm) (auto simp: request_defs holds_def active_def dget_dupdate_ok)

lemma call_step_creates:
  "call_step upd pc cm = (Repatching, cm') \<Longrightarrow> active pc \<Longrightarrow> cm' \<noteq> None"
  by (cases pc; cases cm) (auto simp: request_defs active_def)

lemma call_step_no_raise:
  "call_step upd pc cm = (pc', cm') \<Longrightarrow> active pc \<Longrightarrow> (pc = Repatching \<longrightarrow> cm \<noteq> None) \<Longrightarrow> pc' \<noteq> Raised"
  by (cases pc; cases cm) (auto simp: request_defs active_def)

lemma holds_keeps:
  assumes "holds u cm" "keeps_others ks cm cm'" "dkeys u \<inter> ks = {}"
  shows "holds u cm'"
proof -
  obtain d where d: "cm = Some d" "\<And>k v. dget u k = Some v \<Longrightarrow> dget d k = Some v" using assms(1) by (auto simp: holds_def)
  then obtain d' where d': "cm' = Some d'" "\<And>k. k \<notin> ks \<Longrightarrow> dget d' k = dget d k"
    using assms(2) by (auto simp: keeps_others_def)
  have "k \<notin> ks" if "dget u k = Some v" for k v
    using that assms(3) dget_None_iff [of u k] by auto
  then show ?thesis using d(2) d' by (auto simp: holds_def)
qed

text \<open>The updates that the callers bring do not overlap.\<close>

definition separate :: "string dict list \<Rightarrow> bool" where
  "separate upds \<longleftrightarrow> list_all dict_ok upds
     \<and> (\<forall>i < length upds. \<forall>j < length upds. i \<noteq> j \<longrightarrow> dkeys (upds ! i) \<inter> dkeys (upds ! j) = {})"

definition all_keys :: "string dict list \<Rightarrow> string set" where
  "all_keys upds = \<Union> (dkeys ` set upds)"

definition api_inv :: "config_map \<Rightarrow> string dict list \<Rightarrow> api_system \<Rightarrow> bool" where
  "api_inv cm0 upds s \<longleftrightarrow>
     map kc_updates (ks_callers s) = upds \<and> keeps_others (all_keys upds) cm0 (ks_map s)
     \<and> (\<forall>i < length upds. (kc_pc (ks_callers s ! i) = Returned \<longrightarrow> holds (upds ! i) (ks_map s))
          \<and> (kc_pc (ks_callers s ! i) = Repatching \<longrightarrow> ks_map s \<noteq> None))"

lemma api_inv_update:
  assumes inv: "api_inv cm0 upds s" and sep: "separate upds" and i: "i < length upds"
    and keeps: "keeps_others (dkeys (upds ! i)) (ks_map s) cm"
    and ret: "pc = Returned \<Longrightarrow> holds (upds ! i) cm" and rep: "pc = Repatching \<Longrightarrow> cm \<noteq> None"
  shows "api_inv cm0 upds (set_caller i pc cm s)"
proof -
  have upd: "map kc_updates (ks_callers s) = upds" using inv by (simp add: api_inv_def)
  then have len: "length (ks_callers s) = length upds" by auto
  have "map kc_updates (ks_callers (set_caller i pc cm s)) = upds"
  proof -
    have "map kc_updates (ks_callers (set_caller i pc cm s)) = (map kc_updates (ks_callers s))[i := kc_updates (ks_callers s ! i)]"
      by (simp add: set_caller_def map_update)
    also have "kc_updates (ks_callers s ! i) = map kc_updates (ks_callers s) ! i" using i len by simp
    finally show ?thesis using upd by simp
  qed
  moreover have "keeps_others (all_keys upds) cm0 cm"
  proof (rule keeps_others_trans [OF _ keeps_others_mono [OF keeps]])
    show "keeps_others (all_keys upds) cm0 (ks_map s)" using inv by (simp add: api_inv_def)
    show "dkeys (upds ! i) \<subseteq> all_keys upds" using nth_mem [OF i] by (auto simp: all_keys_def)
  qed
  moreover have "(kc_pc (ks_callers (set_caller i pc cm s) ! j) = Returned \<longrightarrow> holds (upds ! j) cm)
      \<and> (kc_pc (ks_callers (set_caller i pc cm s) ! j) = Repatching \<longrightarrow> cm \<noteq> None)" if j: "j < length upds" for j
  proof (cases "j = i")
    case True
    then show ?thesis using ret rep i len by (auto simp: set_caller_def)
  next
    case False
    then have "dkeys (upds ! j) \<inter> dkeys (upds ! i) = {}" using sep i j by (simp add: separate_def)
    then have "holds (upds ! j) (ks_map s) \<Longrightarrow> holds (upds ! j) cm" using holds_keeps [OF _ keeps] by blast
    moreover have "ks_map s \<noteq> None \<Longrightarrow> cm \<noteq> None" using keeps by (auto simp: keeps_others_def)
    ultimately show ?thesis using inv j False by (simp add: api_inv_def set_caller_def)
  qed
  ultimately show ?thesis by (simp add: api_inv_def) (simp add: set_caller_def)
qed

lemma caller_updates:
  "api_inv cm0 upds s \<Longrightarrow> i < length (ks_callers s) \<Longrightarrow> i < length upds \<and> kc_updates (ks_callers s ! i) = upds ! i"
  by (auto simp: api_inv_def)

lemma api_step_inv:
  assumes "api_step faulty s t" "api_inv cm0 upds s" "separate upds"
  shows "api_inv cm0 upds t"
  using assms(1)
proof (cases rule: api_step.cases)
  case (ok i pc cm)
  note u = caller_updates [OF assms(2) ok(2)]
  have d: "dict_ok (upds ! i)" using assms(3) u by (simp add: separate_def list_all_length)
  note st = ok(4) [unfolded u [THEN conjunct2]]
  show ?thesis unfolding ok(1)
  proof (rule api_inv_update [OF assms(2,3) u [THEN conjunct1] call_step_keeps [OF st d]])
    show "pc = Returned \<Longrightarrow> holds (upds ! i) cm" using call_step_returned st d ok(3) by blast
    show "pc = Repatching \<Longrightarrow> cm \<noteq> None" using call_step_creates [of "upds ! i"] st ok(3) by blast
  qed
next
  case (fault i pc cm cm')
  note u = caller_updates [OF assms(2) fault(3)]
  have d: "dict_ok (upds ! i)" using assms(3) u by (simp add: separate_def list_all_length)
  note st = fault(5) [unfolded u [THEN conjunct2]]
  have "keeps_others (dkeys (upds ! i)) (ks_map s) cm'" using fault(6) call_step_keeps [OF st d] by auto
  then show ?thesis unfolding fault(2) by (rule api_inv_update [OF assms(2,3) u [THEN conjunct1]]) simp_all
qed

lemma api_start_inv: "api_inv cm upds (api_start cm upds)"
  by (simp add: api_inv_def api_start_def comp_def)

lemma api_run_inv:
  "api_run faulty s t \<Longrightarrow> api_inv cm0 upds s \<Longrightarrow> separate upds \<Longrightarrow> api_inv cm0 upds t"
  by (induction rule: api_run.induct) (auto intro: api_step_inv)

text \<open>C7: Callers that merge separate keys into one ConfigMap at the same time lose nothing. In every
  interleaving of their requests, with any requests failing, once a call has returned its keys are in the
  ConfigMap with its values, whoever created the ConfigMap, and keys that no caller brings are as they
  were.\<close>

theorem patch_configmap_no_lost_update:
  assumes "separate upds" and "api_run faulty (api_start cm upds) s"
    and "i < length upds" and "kc_pc (ks_callers s ! i) = Returned"
  shows "holds (upds ! i) (ks_map s) \<and> keeps_others (all_keys upds) cm (ks_map s)"
  using api_run_inv [OF assms(2) api_start_inv assms(1)] assms(3,4) by (simp add: api_inv_def)

theorem patch_configmap_no_lost_update_witness:
  "\<exists>s. api_run False (api_start None [[(''a'', ''1'')]]) s \<and> holds [(''a'', ''1'')] (ks_map s)"
proof -
  let ?s0 = "api_start None [[(''a'', ''1'')]]"
  let ?s1 = "set_caller 0 Creating None ?s0"
  let ?s2 = "set_caller 0 Returned (Some [(''a'', ''1'')]) ?s1"
  have 1: "api_step False ?s0 ?s1"
    by (rule api_step.ok) (simp_all add: api_start_def active_def request_defs)
  have 2: "api_step False ?s1 ?s2"
    by (rule api_step.ok) (simp_all add: set_caller_def api_start_def active_def request_defs)
  have run: "api_run False ?s0 ?s2"
    using api_run.step [OF api_run.step [OF api_run.refl 1] 2] .
  have "separate [[(''a'', ''1'')]]" by (simp add: separate_def dict_ok_def)
  from patch_configmap_no_lost_update [OF this run, of 0] run show ?thesis
    by (auto simp: set_caller_def api_start_def)
qed

subsection \<open>Every call returns\<close>

definition rank :: "call_pc \<Rightarrow> nat" where
  "rank pc = (case pc of Patching \<Rightarrow> 3 | Creating \<Rightarrow> 2 | Repatching \<Rightarrow> 1 | _ \<Rightarrow> 0)"

definition pending :: "api_system \<Rightarrow> nat" where
  "pending s = sum_list (map (rank \<circ> kc_pc) (ks_callers s))"

lemma rank_step: "call_step upd pc cm = (pc', cm') \<Longrightarrow> active pc \<Longrightarrow> rank pc' < rank pc"
  by (cases pc; cases cm) (auto simp: request_defs active_def rank_def)

lemma rank_active: "active pc \<Longrightarrow> rank Raised < rank pc"
  by (cases pc) (auto simp: active_def rank_def)

lemma sum_list_update_less: "i < length xs \<Longrightarrow> (f y :: nat) < f (xs ! i) \<Longrightarrow> sum_list (map f (xs[i := y])) < sum_list (map f xs)"
  by (induction xs arbitrary: i) (auto split: nat.splits simp: nth_Cons)

lemma api_step_pending: "api_step faulty s t \<Longrightarrow> pending t < pending s"
  by (erule api_stepE) (auto simp: pending_def set_caller_def intro!: sum_list_update_less dest: rank_step rank_active)

lemma api_step_no_raise:
  assumes "api_step False s t" "api_inv cm0 upds s" "\<forall>c \<in> set (ks_callers s). kc_pc c \<noteq> Raised"
  shows "\<forall>c \<in> set (ks_callers t). kc_pc c \<noteq> Raised"
  using assms(1)
proof (cases rule: api_step.cases)
  case (ok i pc cm)
  have "kc_pc (ks_callers s ! i) = Repatching \<longrightarrow> ks_map s \<noteq> None"
    using assms(2) caller_updates [OF assms(2) ok(2)] unfolding api_inv_def by blast
  then have pc: "pc \<noteq> Raised" using call_step_no_raise [OF ok(4,3)] by blast
  have "set (ks_callers t) \<subseteq> insert ((ks_callers s ! i)\<lparr>kc_pc := pc\<rparr>) (set (ks_callers s))"
    unfolding ok(1) by (simp add: set_caller_def set_update_subset_insert)
  then show ?thesis using assms(3) pc by auto
qed simp

lemma api_run_no_raise:
  "api_run faulty s t \<Longrightarrow> \<not> faulty \<Longrightarrow> api_inv cm0 upds s \<Longrightarrow> separate upds \<Longrightarrow>
     \<forall>c \<in> set (ks_callers s). kc_pc c \<noteq> Raised \<Longrightarrow> \<forall>c \<in> set (ks_callers t). kc_pc c \<noteq> Raised"
proof (induction rule: api_run.induct)
  case (step faulty s t u)
  have "api_step False t u" using step.hyps(2) step.prems(1) by simp
  then show ?case using api_run_inv [OF step.hyps(1) step.prems(2,3)] step.IH [OF step.prems] by (rule api_step_no_raise)
qed simp

lemma api_progress:
  assumes "c \<in> set (ks_callers s)" "active (kc_pc c)"
  shows "\<exists>t. api_step faulty s t"
proof -
  obtain i where i: "i < length (ks_callers s)" "ks_callers s ! i = c" using assms(1) by (auto simp: in_set_conv_nth)
  obtain pc cm where "call_step (kc_updates c) (kc_pc c) (ks_map s) = (pc, cm)" by fastforce
  with i assms(2) show ?thesis using api_step.ok [of i s pc cm faulty] by auto
qed

text \<open>C39: Every call of \<^verbatim>\<open>patch_configmap\<close> ends, after at most three requests, whatever the others do; and
  where no request fails, no call raises, also if it lost the race to create the ConfigMap: when nothing
  can happen any more, every call has returned and the ConfigMap holds all updates.\<close>

theorem patch_configmap_all_return:
  assumes "separate upds" and "api_run False (api_start cm upds) s"
  shows "(\<forall>c \<in> set (ks_callers s). kc_pc c \<noteq> Raised)
    \<and> ((\<nexists>t. api_step False s t) \<longrightarrow> (\<forall>i < length upds. kc_pc (ks_callers s ! i) = Returned \<and> holds (upds ! i) (ks_map s)))
    \<and> wfP (\<lambda>t s. api_step faulty s t)"
proof (intro conjI impI)
  show raised: "\<forall>c \<in> set (ks_callers s). kc_pc c \<noteq> Raised"
    by (rule api_run_no_raise [OF assms(2) _ api_start_inv assms(1)]) (auto simp: api_start_def)
  show "wfP (\<lambda>t s. api_step faulty s t)"
    by (rule wfp_if_convertible_to_nat [of _ pending]) (rule api_step_pending)
  have inv: "api_inv cm upds s" by (rule api_run_inv [OF assms(2) api_start_inv assms(1)])
  assume "\<nexists>t. api_step False s t"
  then have "\<not> active (kc_pc c)" if "c \<in> set (ks_callers s)" for c using api_progress that by blast
  then have "kc_pc c = Returned" if "c \<in> set (ks_callers s)" for c using raised that by (auto simp: active_def)
  then show "\<forall>i < length upds. kc_pc (ks_callers s ! i) = Returned \<and> holds (upds ! i) (ks_map s)"
    using inv by (auto simp: api_inv_def)
qed

theorem patch_configmap_all_return_witness:
  "wfP (\<lambda>t s. api_step True s t)
   \<and> list_all (\<lambda>c. kc_pc c \<noteq> Raised) (ks_callers (api_start None [[(''a'', ''1'')], [(''b'', ''2'')]]))"
proof -
  have "separate [[(''a'', ''1'')], [(''b'', ''2'')]]" by (auto simp: separate_def dict_ok_def dkeys_def less_Suc_eq)
  from patch_configmap_all_return [OF this api_run.refl] show ?thesis by (simp add: list_all_iff)
qed

subsection \<open>The store as its clients see it\<close>

text \<open>What the publishing scripts rely on: a merge that is reported as done is readable key by key, a merge
  never changes other keys, and one that is reported as failed was carried out as a whole or not at all.\<close>

locale config_store =
  fixes put :: "'f \<Rightarrow> string dict \<Rightarrow> 'w \<Rightarrow> bool \<times> 'w" and get :: "'w \<Rightarrow> string \<Rightarrow> string option"
  assumes put_done: "put f upd w = (True, w') \<Longrightarrow> dict_ok upd \<Longrightarrow> dget upd k = Some v \<Longrightarrow> get w' k = Some v"
    and put_other: "put f upd w = (b, w') \<Longrightarrow> dict_ok upd \<Longrightarrow> dget upd k = None \<Longrightarrow> get w' k = get w k"
    and put_atomic: "put f upd w = (b, w') \<Longrightarrow> dict_ok upd \<Longrightarrow> w' = w \<or> (\<forall>k v. dget upd k = Some v \<longrightarrow> get w' k = Some v)"
begin

lemma put_signed:
  assumes "put f [(k, v), (s, g)] w = (True, w')" and "k \<noteq> s"
  shows "get w' k = Some v \<and> get w' s = Some g"
proof -
  have "dict_ok [(k, v), (s, g)]" using assms(2) by (simp add: dict_ok_def)
  from put_done [OF assms(1) this, of k v] put_done [OF assms(1) this, of s g] assms(2)
  show ?thesis by (simp add: dget_def)
qed

lemma put_signed_atomic:
  assumes "put f [(k, v), (s, g)] w = (b, w')" and "k \<noteq> s"
  shows "w' = w \<or> get w' k = Some v \<and> get w' s = Some g"
proof -
  have "dict_ok [(k, v), (s, g)]" using assms(2) by (simp add: dict_ok_def)
  from put_atomic [OF assms(1) this] assms(2) show ?thesis by (auto simp: dget_def)
qed

lemma put_one_atomic: "put f [(k, v)] w = (b, w') \<Longrightarrow> w' = w \<or> get w' k = Some v"
  using put_atomic [of f "[(k, v)]" w b w'] by (auto simp: dict_ok_def dget_def)

lemma put_one: "put f [(k, v)] w = (True, w') \<Longrightarrow> get w' k = Some v"
  using put_done [of f "[(k, v)]" w w' k v] by (simp add: dict_ok_def dget_def)

end

definition store_put :: "(nat \<Rightarrow> fault) \<Rightarrow> string dict \<Rightarrow> config_map \<Rightarrow> bool \<times> config_map" where
  "store_put faults upd cm = (let (pc, cm') = patch_configmap faults upd cm in (pc = Returned, cm'))"

definition store_get :: "config_map \<Rightarrow> string \<Rightarrow> string option" where
  "store_get cm k = Option.bind cm (\<lambda>d. dget d k)"

lemma faulty_step_returned:
  assumes "faulty_step f upd pc cm = (Returned, cm')" "dict_ok upd" "pc = Returned \<longrightarrow> holds upd cm"
  shows "holds upd cm'"
proof (cases "active pc")
  case True
  then have "call_step upd pc cm = (Returned, cm')"
    using assms(1) by (cases f) (auto simp: faulty_step_def active_def)
  then show ?thesis using True assms(2) by (blast intro: call_step_returned)
qed (use assms in \<open>auto simp: faulty_step_def active_def\<close>)

lemma call_step_get_other:
  "call_step upd pc cm = (pc', cm') \<Longrightarrow> dict_ok upd \<Longrightarrow> dget upd k = None \<Longrightarrow> store_get cm' k = store_get cm k"
  by (cases pc; cases cm) (auto simp: request_defs store_get_def dget_dupdate_ok)

lemma faulty_step_get_other:
  assumes "faulty_step f upd pc cm = (pc', cm')" "dict_ok upd" "dget upd k = None"
  shows "store_get cm' k = store_get cm k"
proof -
  have "cm' = cm \<or> cm' = snd (call_step upd pc cm)"
    using assms(1) by (cases f) (auto simp: faulty_step_def split: if_splits)
  moreover have "store_get (snd (call_step upd pc cm)) k = store_get cm k"
    using call_step_get_other [of upd pc cm "fst (call_step upd pc cm)" "snd (call_step upd pc cm)" k] assms(2,3) by simp
  ultimately show ?thesis by auto
qed

lemma call_step_atomic:
  "call_step upd pc cm = (pc', cm') \<Longrightarrow> dict_ok upd \<Longrightarrow> cm' = cm \<or> pc' = Returned \<and> holds upd cm'"
  by (cases pc; cases cm) (auto simp: request_defs holds_def dget_dupdate_ok)

lemma faulty_step_atomic:
  assumes "faulty_step f upd pc cm = (pc', cm')" "dict_ok upd"
  shows "cm' = cm \<or> \<not> active pc' \<and> holds upd cm'"
  using assms call_step_atomic [of upd pc cm "fst (call_step upd pc cm)" "snd (call_step upd pc cm)"]
  by (cases f) (auto simp: faulty_step_def active_def split: if_splits)

lemma faulty_step_stays: "faulty_step f upd pc cm = (pc', cm') \<Longrightarrow> \<not> active pc \<Longrightarrow> pc' = pc \<and> cm' = cm"
  by (auto simp: faulty_step_def active_def split: if_splits)

interpretation cms: config_store store_put store_get
proof
  fix f upd w w' k v
  assume put: "store_put f upd w = (True, w')" and ok: "dict_ok upd" and k: "dget upd k = Some v"
  obtain pc1 cm1 where 1: "faulty_step (f 0) upd Patching w = (pc1, cm1)" by fastforce
  obtain pc2 cm2 where 2: "faulty_step (f 1) upd pc1 cm1 = (pc2, cm2)" by fastforce
  have 3: "faulty_step (f 2) upd pc2 cm2 = (Returned, w')"
    using put 1 2 by (auto simp: store_put_def patch_configmap_def split: prod.splits)
  have "pc1 = Returned \<longrightarrow> holds upd cm1" using faulty_step_returned [OF _ ok] 1 by auto
  then have "pc2 = Returned \<longrightarrow> holds upd cm2" using faulty_step_returned [OF _ ok] 2 by auto
  then have "holds upd w'" using faulty_step_returned [OF 3 ok] by blast
  then show "store_get w' k = Some v" using k by (auto simp: holds_def store_get_def)
next
  fix f upd w b w' k
  assume "store_put f upd w = (b, w')" "dict_ok upd" "dget upd k = None"
  then show "store_get w' k = store_get w k"
    by (auto simp: store_put_def patch_configmap_def faulty_step_get_other split: prod.splits)
next
  fix f upd w b w'
  assume put: "store_put f upd w = (b, w')" and ok: "dict_ok upd"
  obtain pc1 cm1 where 1: "faulty_step (f 0) upd Patching w = (pc1, cm1)" by fastforce
  obtain pc2 cm2 where 2: "faulty_step (f 1) upd pc1 cm1 = (pc2, cm2)" by fastforce
  obtain pc3 where 3: "faulty_step (f 2) upd pc2 cm2 = (pc3, w')"
    using put 1 2 by (auto simp: store_put_def patch_configmap_def split: prod.splits)
  have "w' = w \<or> holds upd w'"
    using faulty_step_atomic [OF 1 ok] faulty_step_atomic [OF 2 ok] faulty_step_atomic [OF 3 ok]
      faulty_step_stays [OF 2] faulty_step_stays [OF 3] by blast
  then show "w' = w \<or> (\<forall>k v. dget upd k = Some v \<longrightarrow> store_get w' k = Some v)" by (auto simp: holds_def store_get_def)
qed

lemma store_put_ok:
  assumes "\<And>i. f i = Ok"
  shows "fst (store_put f upd cm)"
  by (cases cm) (simp_all add: store_put_def patch_configmap_def faulty_step_def assms request_defs)

end
