(* ===== verification/Sidecar.thy ===== *)
theory Sidecar
  imports K8sApi PyValue
begin

text \<open>
  The data set sidecar \<^verbatim>\<open>scripts/aibom-scripts/dataset_sidecar.py\<close>: it polls the detector's output file, signs
  its content and merges it into the pod's ConfigMap, and does so once more, with retries, when the pod
  ends. The file is observed at successive times; it may change between any two of them, also between
  the look at its time stamp and the reading of its content. The encoder and the keyed hash are parameters.
  The theorem is the purpose of the script: the last version of the file is what the ConfigMap holds in
  the end, if one of the final attempts gets through.
\<close>

subsection \<open>State and operations\<close>

text \<open>A version of the output file: its time stamp and its content, if it is valid JSON.\<close>

record out_file =
  of_mtime :: int
  of_json :: "pyval option"

record side_env =
  se_pod :: string
  se_namespace :: string
  se_configmap :: string
  se_key :: "string option"
  se_dumps :: "pyval \<Rightarrow> string"
  se_hmac :: "string \<Rightarrow> string \<Rightarrow> string"

record side_state =
  ss_last :: "int option"
  ss_map :: config_map

definition sign_payload :: "side_env \<Rightarrow> string \<Rightarrow> string option" where
  "sign_payload env payload = map_option (\<lambda>k. se_hmac env k payload) (nonempty (map_option (strip_p py_isspace) (se_key env)))"

definition read_output_file :: "out_file option \<Rightarrow> pyval option" where
  "read_output_file f = Option.bind f of_json"

definition data_key :: "side_env \<Rightarrow> string" where
  "data_key env = ''dataset-'' @ se_pod env @ ''.json''"

definition sig_key :: "side_env \<Rightarrow> string" where
  "sig_key env = ''dataset-'' @ se_pod env @ ''.sig''"

definition data_updates :: "side_env \<Rightarrow> pyval \<Rightarrow> string dict" where
  "data_updates env v =
     (let payload = se_dumps env v
      in (data_key env, payload) # (case nonempty (sign_payload env payload) of Some g \<Rightarrow> [(sig_key env, g)] | None \<Rightarrow> []))"

text \<open>One pass: \<open>at_stat\<close> and \<open>at_read\<close> are what is found at the two looks at the file.\<close>

definition run_once ::
  "side_env \<Rightarrow> out_file option \<Rightarrow> out_file option \<Rightarrow> (nat \<Rightarrow> fault) \<Rightarrow> side_state \<Rightarrow> side_state" where
  "run_once env at_stat at_read faults st =
     (case at_stat of
        None \<Rightarrow> st
      | Some f \<Rightarrow>
          (if Some (of_mtime f) = ss_last st then st
           else (case read_output_file at_read of
                   None \<Rightarrow> st
                 | Some v \<Rightarrow>
                     (if se_pod env = [] \<or> se_namespace env = [] \<or> se_configmap env = []
                      then st\<lparr>ss_last := Some (of_mtime f)\<rparr>
                      else (let (stored, cm) = store_put faults (data_updates env v) (ss_map st)
                            in if stored then \<lparr>ss_last = Some (of_mtime f), ss_map = cm\<rparr> else st\<lparr>ss_map := cm\<rparr>)))))"

definition final_publish_attempts :: nat where
  "final_publish_attempts = 4"

text \<open>The final passes, from time \<open>t\<close> on: each looks at the file three times.\<close>

fun publish_final ::
  "side_env \<Rightarrow> (nat \<Rightarrow> out_file option) \<Rightarrow> (nat \<Rightarrow> nat \<Rightarrow> fault) \<Rightarrow> nat \<Rightarrow> nat \<Rightarrow> side_state \<Rightarrow> side_state" where
  "publish_final env obs faults 0 t st = st"
| "publish_final env obs faults (Suc n) t st =
     (let st' = run_once env (obs t) (obs (t + 1)) (faults t) st
      in case obs (t + 2) of
           None \<Rightarrow> st'
         | Some f \<Rightarrow> (if Some (of_mtime f) = ss_last st' then st'
                     else publish_final env obs faults n (t + 3) st'))"

text \<open>The polling loop for \<open>n\<close> passes, until the shutdown event is set, and the whole script.\<close>

fun poll :: "side_env \<Rightarrow> (nat \<Rightarrow> out_file option) \<Rightarrow> (nat \<Rightarrow> nat \<Rightarrow> fault) \<Rightarrow> nat \<Rightarrow> nat \<Rightarrow> side_state \<Rightarrow> side_state" where
  "poll env obs faults 0 t st = st"
| "poll env obs faults (Suc n) t st =
     poll env obs faults n (t + 2) (run_once env (obs t) (obs (t + 1)) (faults t) st)"

definition sidecar_main ::
  "side_env \<Rightarrow> (nat \<Rightarrow> out_file option) \<Rightarrow> (nat \<Rightarrow> nat \<Rightarrow> fault) \<Rightarrow> nat \<Rightarrow> config_map \<Rightarrow> side_state" where
  "sidecar_main env obs faults n cm =
     publish_final env obs faults final_publish_attempts (2 * n) (poll env obs faults n 0 \<lparr>ss_last = None, ss_map = cm\<rparr>)"

subsection \<open>What has been published\<close>

text \<open>The file is replaced as a whole: it does not go away, its time stamp does not go back, and a time
  stamp belongs to one version.\<close>

definition file_history :: "(nat \<Rightarrow> out_file option) \<Rightarrow> bool" where
  "file_history obs \<longleftrightarrow>
     (\<forall>s t f. s \<le> t \<and> obs s = Some f \<longrightarrow> (\<exists>g. obs t = Some g \<and> of_mtime f \<le> of_mtime g \<and> (of_mtime f = of_mtime g \<longrightarrow> f = g)))"

text \<open>The ConfigMap holds the payload of a value and, if there is a key, its signature.\<close>

definition published :: "side_env \<Rightarrow> pyval \<Rightarrow> config_map \<Rightarrow> bool" where
  "published env v cm \<longleftrightarrow>
     store_get cm (data_key env) = Some (se_dumps env v)
     \<and> (\<forall>g. nonempty (sign_payload env (se_dumps env v)) = Some g \<longrightarrow> store_get cm (sig_key env) = Some g)"

lemma keys_differ [simp]: "data_key env \<noteq> sig_key env"
  by (simp add: data_key_def sig_key_def)

lemma put_published:
  assumes "store_put faults (data_updates env v) cm = (True, cm')"
  shows "published env v cm'"
proof (cases "nonempty (sign_payload env (se_dumps env v))")
  case None
  then show ?thesis using assms cms.put_one by (simp add: data_updates_def published_def)
next
  case (Some g)
  then show ?thesis
    using assms cms.put_signed [of faults "data_key env" "se_dumps env v" "sig_key env" g cm cm']
    by (simp add: data_updates_def published_def)
qed

text \<open>What is recorded as published at time \<open>t\<close> is a version that was seen, or a later one.\<close>

definition side_inv :: "side_env \<Rightarrow> (nat \<Rightarrow> out_file option) \<Rightarrow> nat \<Rightarrow> side_state \<Rightarrow> bool" where
  "side_inv env obs t st \<longleftrightarrow>
     (\<forall>m. ss_last st = Some m \<longrightarrow>
        (\<exists>s < t. \<exists>f v. obs s = Some f \<and> m \<le> of_mtime f \<and> of_json f = Some v \<and> published env v (ss_map st)))"

definition named :: "side_env \<Rightarrow> bool" where
  "named env \<longleftrightarrow> se_pod env \<noteq> [] \<and> se_namespace env \<noteq> [] \<and> se_configmap env \<noteq> []"

lemma put_published_atomic:
  assumes "store_put faults (data_updates env v) cm = (b, cm')"
  shows "cm' = cm \<or> published env v cm'"
proof (cases "nonempty (sign_payload env (se_dumps env v))")
  case None
  then show ?thesis using assms cms.put_one_atomic by (auto simp: data_updates_def published_def)
next
  case (Some g)
  then show ?thesis
    using assms cms.put_signed_atomic [of faults "data_key env" "se_dumps env v" "sig_key env" g cm b cm']
    by (auto simp: data_updates_def published_def)
qed

lemma side_inv_mono: "side_inv env obs t st \<Longrightarrow> t \<le> u \<Longrightarrow> side_inv env obs u st"
  unfolding side_inv_def by (meson less_le_trans)

lemma file_historyD:
  "file_history obs \<Longrightarrow> s \<le> t \<Longrightarrow> obs s = Some f \<Longrightarrow> obs t = Some g \<Longrightarrow> of_mtime f \<le> of_mtime g \<and> (of_mtime f = of_mtime g \<longrightarrow> f = g)"
  unfolding file_history_def by (metis option.inject)

text \<open>The three outcomes of a pass of a sidecar whose names are set.\<close>

lemma run_once_cases:
  assumes "named env"
  obtains (same) "run_once env at_stat at_read faults st = st"
  | (wrote) f g v b cm where "at_stat = Some f" "at_read = Some g" "of_json g = Some v" "ss_last st \<noteq> Some (of_mtime f)"
      "store_put faults (data_updates env v) (ss_map st) = (b, cm)"
      "run_once env at_stat at_read faults st = (if b then \<lparr>ss_last = Some (of_mtime f), ss_map = cm\<rparr> else st\<lparr>ss_map := cm\<rparr>)"
proof (cases "\<exists>f v. at_stat = Some f \<and> ss_last st \<noteq> Some (of_mtime f) \<and> read_output_file at_read = Some v")
  case True
  then obtain f v where f: "at_stat = Some f" "ss_last st \<noteq> Some (of_mtime f)" "read_output_file at_read = Some v" by blast
  then obtain g where g: "at_read = Some g" "of_json g = Some v" by (cases at_read) (auto simp: read_output_file_def)
  obtain b cm where "store_put faults (data_updates env v) (ss_map st) = (b, cm)" by fastforce
  with f g assms show ?thesis by (intro wrote) (auto simp: run_once_def named_def)
next
  case False
  have "run_once env at_stat at_read faults st = st"
  proof (cases at_stat)
    case (Some f)
    with False show ?thesis by (cases "read_output_file at_read") (auto simp: run_once_def)
  qed (simp add: run_once_def)
  then show ?thesis by (rule same)
qed

lemma run_once_inv:
  assumes "side_inv env obs t st" "file_history obs" "named env"
  shows "side_inv env obs (t + 2) (run_once env (obs t) (obs (t + 1)) faults st)"
  using assms(3)
proof (cases rule: run_once_cases [where at_stat = "obs t" and at_read = "obs (t + 1)" and faults = faults and st = st])
  case same
  then show ?thesis using side_inv_mono [OF assms(1), of "t + 2"] by simp
next
  case (wrote f g v b cm)
  have fg: "of_mtime f \<le> of_mtime g" using file_historyD [OF assms(2) _ wrote(1,2)] by simp
  have new: "\<exists>s < t + 2. \<exists>h w. obs s = Some h \<and> m \<le> of_mtime h \<and> of_json h = Some w \<and> published env w cm"
    if "m \<le> of_mtime g" "published env v cm" for m
    using that wrote(2,3) by (intro exI [of _ "t + 1"]) auto
  show ?thesis
  proof (cases b)
    case True
    then show ?thesis using wrote(5,6) put_published new fg by (simp add: side_inv_def)
  next
    case False
    have "\<exists>s < t + 2. \<exists>h w. obs s = Some h \<and> m \<le> of_mtime h \<and> of_json h = Some w \<and> published env w cm"
      if m: "ss_last st = Some m" for m
    proof -
      obtain s h w where h: "s < t" "obs s = Some h" "m \<le> of_mtime h" "of_json h = Some w" "published env w (ss_map st)"
        using assms(1) m by (auto simp: side_inv_def)
      have "of_mtime h \<le> of_mtime g" using file_historyD [OF assms(2) _ h(2) wrote(2)] h(1) by simp
      then have m': "m \<le> of_mtime g" using h(3) by simp
      from put_published_atomic [OF wrote(5)] show ?thesis
      proof
        assume "cm = ss_map st"
        then show ?thesis using h by (intro exI [of _ s]) auto
      next
        assume "published env v cm"
        then show ?thesis by (rule new [OF m'])
      qed
    qed
    then show ?thesis using False wrote(6) by (simp add: side_inv_def)
  qed
qed

lemma poll_inv:
  "side_inv env obs t st \<Longrightarrow> file_history obs \<Longrightarrow> named env \<Longrightarrow> side_inv env obs (t + 2 * n) (poll env obs faults n t st)"
proof (induction n arbitrary: t st)
  case (Suc n)
  from Suc.IH [OF run_once_inv [OF Suc.prems] Suc.prems(2,3)] show ?case by simp
qed simp

lemma publish_final_ok:
  assumes "side_inv env obs t st" "file_history obs" "named env" "of_json f = Some v"
    and "\<And>u. t \<le> u \<Longrightarrow> obs u = Some f" and "a < n" "\<And>r. faults (t + 3 * a) r = Ok"
  shows "published env v (ss_map (publish_final env obs faults n t st))"
  using assms
proof (induction n arbitrary: t st a)
  case (Suc n)
  have obs: "obs t = Some f" "obs (t + 1) = Some f" "obs (t + 2) = Some f" using Suc.prems(5) by simp_all
  define st' where "st' = run_once env (obs t) (obs (t + 1)) (faults t) st"
  have inv: "side_inv env obs (t + 2) st'" unfolding st'_def by (rule run_once_inv [OF Suc.prems(1,2,3)])
  have pub: "published env v (ss_map st')" if last: "ss_last st' = Some (of_mtime f)"
  proof -
    obtain s h w where h: "s < t + 2" "obs s = Some h" "of_mtime f \<le> of_mtime h" "of_json h = Some w" "published env w (ss_map st')"
      using inv last by (auto simp: side_inv_def)
    have "h = f" using file_historyD [OF Suc.prems(2) _ h(2) obs(3)] h(1,3) by force
    then show ?thesis using h(4,5) Suc.prems(4) by simp
  qed
  have step: "publish_final env obs faults (Suc n) t st =
      (if Some (of_mtime f) = ss_last st' then st' else publish_final env obs faults n (t + 3) st')"
    using obs(3) by (simp add: st'_def Let_def)
  show ?case
  proof (cases "ss_last st' = Some (of_mtime f)")
    case True
    then show ?thesis using pub by (simp only: step) simp
  next
    case False
    have "a \<noteq> 0"
    proof
      assume "a = 0"
      then have "fst (store_put (faults t) (data_updates env v) (ss_map st))" using Suc.prems(7) by (intro store_put_ok) simp
      then have "ss_last st' = Some (of_mtime f)"
        using obs Suc.prems(3,4)
        by (auto simp: st'_def run_once_def read_output_file_def named_def split: prod.splits)
      with False show False by simp
    qed
    then obtain a' where a': "a = Suc a'" by (cases a) auto
    have "published env v (ss_map (publish_final env obs faults n (t + 3) st'))"
    proof (rule Suc.IH [of "t + 3" st' a'])
      show "side_inv env obs (t + 3) st'" using side_inv_mono [OF inv] by simp
      show "faults (t + 3 + 3 * a') r = Ok" for r using Suc.prems(7) [of r] a' by (simp add: algebra_simps)
    qed (use Suc.prems a' in simp_all)
    then show ?thesis using False by (simp only: step) (simp add: eq_commute)
  qed
qed simp

lemma last_version_published:
  assumes "file_history obs" and "named env"
    and "\<And>u. 2 * n \<le> u \<Longrightarrow> obs u = Some f" and "of_json f = Some v"
    and "a < final_publish_attempts" and "\<And>r. faults (2 * n + 3 * a) r = Ok"
  shows "published env v (ss_map (sidecar_main env obs faults n cm))"
proof -
  have "side_inv env obs (0 + 2 * n) (poll env obs faults n 0 \<lparr>ss_last = None, ss_map = cm\<rparr>)"
    by (rule poll_inv [OF _ assms(1,2)]) (simp add: side_inv_def)
  then have "side_inv env obs (2 * n) (poll env obs faults n 0 \<lparr>ss_last = None, ss_map = cm\<rparr>)" by simp
  then show ?thesis unfolding sidecar_main_def
    by (rule publish_final_ok [where a = a]) (use assms in auto)
qed



end
