(* ===== verification/Snapshot.thy ===== *)
theory Snapshot
  imports Compile Sidecar
begin

text \<open>
  The discovery init container \<^verbatim>\<open>scripts/aibom-scripts/generate_snapshot.py\<close>: stages that never raise, the
  commands of the snapshot, the storage of the owning InferenceService, the metadata of a model directory
  and the signed entries it merges into the pod's ConfigMap. Commands, files and the API are parameters. The
  theorems say that the discovery entry is published whatever the other stages do, that the snapshot has
  every field the compilation reads, and what a failed memory command leads to.
\<close>

subsection \<open>Stages and commands\<close>

text \<open>What a stage does: it returns, raises, or runs into its deadline.\<close>

datatype 'a stage = Returns 'a | Raises | Hangs

definition run_stage :: "'a stage \<Rightarrow> 'a option" where
  "run_stage s = (case s of Returns x \<Rightarrow> Some x | Raises \<Rightarrow> None | Hangs \<Rightarrow> None)"

text \<open>A finished command with its return code and output, or an exception (a timeout, a missing shell).\<close>

datatype cmd_result = Finished int string | CmdRaises

definition run_cmd :: "cmd_result \<Rightarrow> string" where
  "run_cmd r = (case r of Finished code out \<Rightarrow> (if code = 0 then py_strip out else ''Not available'') | CmdRaises \<Rightarrow> ''Not available'')"

text \<open>In the command texts below an at sign stands for a double quote, a tilde for a backslash and a backquote
  for a single quote; no command contains one of the three.\<close>

definition sh :: "string \<Rightarrow> string" where
  "sh s = map (\<lambda>c. if c = CHR ''@'' then CHR 0x22 else if c = CHR ''~'' then CHR 0x5C else if c = CHR 0x60 then CHR 0x27 else c) s"

definition system_commands :: "string dict" where
  "system_commands =
    [(''cpu_model'', sh ''grep `model name` /proc/cpuinfo | head -1 | cut -d: -f2 | xargs''),
     (''cpu_count'', sh ''grep -c ^processor /proc/cpuinfo''),
     (''cpu_cores_per_socket'', sh ''lscpu | grep `Core(s) per socket` | awk `{print $NF}` 2>/dev/null || echo `N/A`''),
     (''cpu_threads_per_core'', sh ''lscpu | grep `Thread(s) per core` | awk `{print $NF}` 2>/dev/null || echo `N/A`''),
     (''cpu_architecture'', sh ''uname -m''),
     (''cpu_current_freq_mhz'', sh ''cat /sys/devices/system/cpu/cpu0/cpufreq/scaling_cur_freq 2>/dev/null | awk `{print $1/1000}` || echo `N/A`''),
     (''cpu_max_freq_mhz'', sh ''cat /sys/devices/system/cpu/cpu0/cpufreq/cpuinfo_max_freq 2>/dev/null | awk `{print $1/1000}` || echo `N/A`''),
     (''cpu_min_freq_mhz'', sh ''cat /sys/devices/system/cpu/cpu0/cpufreq/cpuinfo_min_freq 2>/dev/null | awk `{print $1/1000}` || echo `N/A`''),
     (''cache_l1d'', sh ''lscpu | grep `L1d cache` | head -1 | sed -E `s/^[^:]*: *//; s/ *~(.*//` 2>/dev/null || echo `N/A`''),
     (''cache_l1i'', sh ''lscpu | grep `L1i cache` | head -1 | sed -E `s/^[^:]*: *//; s/ *~(.*//` 2>/dev/null || echo `N/A`''),
     (''cache_l2'', sh ''lscpu | grep `L2 cache` | head -1 | sed -E `s/^[^:]*: *//; s/ *~(.*//` 2>/dev/null || echo `N/A`''),
     (''cache_l3'', sh ''lscpu | grep `L3 cache` | head -1 | sed -E `s/^[^:]*: *//; s/ *~(.*//` 2>/dev/null || echo `N/A`''),
     (''memory_total_gb'', sh ''grep MemTotal /proc/meminfo | awk `{printf @%.2f@, $2/1024/1024}`''),
     (''memory_available_gb'', sh ''grep MemAvailable /proc/meminfo | awk `{printf @%.2f@, $2/1024/1024}`''),
     (''memory_free_gb'', sh ''grep MemFree /proc/meminfo | awk `{printf @%.2f@, $2/1024/1024}`''),
     (''numa_node_count'', sh ''ls -d /sys/devices/system/node/node* 2>/dev/null | wc -l''),
     (''kernel_version'', sh ''uname -r''),
     (''uptime_seconds'', sh ''cat /proc/uptime | awk `{print $1}`'')]"

definition gpu_commands :: "string dict" where
  "gpu_commands =
    [(''gpu_count'', sh ''nvidia-smi --query-gpu=name --format=csv,noheader 2>/dev/null | wc -l''),
     (''gpu_models'', sh ''nvidia-smi --query-gpu=name --format=csv,noheader 2>/dev/null''),
     (''gpu_memory_per_device_mb'', sh ''nvidia-smi --query-gpu=memory.total --format=csv,noheader,nounits 2>/dev/null''),
     (''gpu_driver_version'', sh ''nvidia-smi --query-gpu=driver_version --format=csv,noheader 2>/dev/null | head -1''),
     (''cuda_version'', sh ''nvidia-smi | grep `CUDA Version` | awk `{print $9}` 2>/dev/null || echo `N/A`'')]"

definition network_commands :: "string dict" where
  "network_commands =
    [(''interface_names'', sh ''ls /sys/class/net 2>/dev/null | grep -v lo | tr `~n` `, ` | sed `s/,$//`''),
     (''rdma_devices'', sh ''ls /sys/class/infiniband 2>/dev/null | tr `~n` `, ` | sed `s/,$//` || echo `None`''),
     (''rdma_device_count'', sh ''ls /sys/class/infiniband 2>/dev/null | wc -l''),
     (''primary_mtu'', sh ''cat /sys/class/net/eth0/mtu 2>/dev/null || echo `N/A`''),
     (''tcp_rmem'', sh ''cat /proc/sys/net/ipv4/tcp_rmem 2>/dev/null || echo `N/A`''),
     (''tcp_wmem'', sh ''cat /proc/sys/net/ipv4/tcp_wmem 2>/dev/null || echo `N/A`''),
     (''tcp_congestion_control'', sh ''cat /proc/sys/net/ipv4/tcp_congestion_control 2>/dev/null || echo `N/A`'')]"

definition storage_commands :: "string dict" where
  "storage_commands =
    [(''block_devices'', sh ''lsblk -nd -o NAME,SIZE 2>/dev/null | grep -v loop''),
     (''nvme_count'', sh ''ls /dev/nvme* 2>/dev/null | grep -c nvme0n || echo `0`''),
     (''tmpfs_size'', sh ''df -h /tmp 2>/dev/null | tail -1 | awk `{print $2}`''),
     (''tmpfs_avail'', sh ''df -h /tmp 2>/dev/null | tail -1 | awk `{print $4}`''),
     (''io_scheduler'', sh ''cat /sys/block/sda/queue/scheduler 2>/dev/null | grep -o `~[.*~]` | tr -d `[]` || echo `N/A`'')]"

definition performance_config_commands :: "string dict" where
  "performance_config_commands =
    [(''cpu_governor'', sh ''cat /sys/devices/system/cpu/cpu0/cpufreq/scaling_governor 2>/dev/null || echo `N/A`''),
     (''numa_balancing'', sh ''cat /proc/sys/kernel/numa_balancing 2>/dev/null || echo `N/A`''),
     (''transparent_hugepages'', sh ''cat /sys/kernel/mm/transparent_hugepage/enabled 2>/dev/null | grep -o `~[.*~]` | tr -d `[]` || echo `N/A`''),
     (''swappiness'', sh ''cat /proc/sys/vm/swappiness 2>/dev/null || echo `N/A`''),
     (''dirty_ratio'', sh ''cat /proc/sys/vm/dirty_ratio 2>/dev/null || echo `N/A`''),
     (''dirty_background_ratio'', sh ''cat /proc/sys/vm/dirty_background_ratio 2>/dev/null || echo `N/A`''),
     (''max_map_count'', sh ''cat /proc/sys/vm/max_map_count 2>/dev/null || echo `N/A`''),
     (''file_max'', sh ''cat /proc/sys/fs/file-max 2>/dev/null || echo `N/A`'')]"

definition process_limits_commands :: "string dict" where
  "process_limits_commands =
    [(''max_user_processes'', sh ''ulimit -u 2>/dev/null || echo `N/A`''),
     (''max_open_files'', sh ''ulimit -n 2>/dev/null || echo `N/A`''),
     (''max_stack_size_kb'', sh ''ulimit -s 2>/dev/null || echo `N/A`''),
     (''max_memory_size_kb'', sh ''ulimit -m 2>/dev/null || echo `N/A`''),
     (''cgroup_cpu_quota'', sh ''cat /sys/fs/cgroup/cpu/cpu.cfs_quota_us 2>/dev/null || echo `N/A`''),
     (''cgroup_cpu_period'', sh ''cat /sys/fs/cgroup/cpu/cpu.cfs_period_us 2>/dev/null || echo `N/A`''),
     (''cgroup_memory_limit_bytes'', sh ''cat /sys/fs/cgroup/memory/memory.limit_in_bytes 2>/dev/null || echo `N/A`'')]"

definition run_all :: "(string \<Rightarrow> cmd_result) \<Rightarrow> string dict \<Rightarrow> pyval dict" where
  "run_all shell cmds = map (\<lambda>(k, c). (k, VStr (run_cmd (shell c)))) cmds"

text \<open>\<^verbatim>\<open>os.environ.get(name, "unknown")\<close>\<close>

definition env_or_unknown :: "(string \<Rightarrow> string option) \<Rightarrow> string \<Rightarrow> string option" where
  "env_or_unknown environ name = Some (case environ name of Some v \<Rightarrow> v | None \<Rightarrow> ''unknown'')"

definition snapshot :: "(string \<Rightarrow> cmd_result) \<Rightarrow> (string \<Rightarrow> string option) \<Rightarrow> string \<Rightarrow> discovery" where
  "snapshot shell environ now =
     \<lparr>pm_uid = env_or_unknown environ ''POD_UID'', pm_name = env_or_unknown environ ''POD_NAME'', pm_start_time = Some now,
      pm_gpu_count = vget (run_all shell gpu_commands) ''gpu_count'',
      pl_namespace = env_or_unknown environ ''POD_NAMESPACE'', pl_ip = env_or_unknown environ ''POD_IP'',
      pl_node = env_or_unknown environ ''NODE_NAME'',
      dc_gpu = run_all shell gpu_commands, dc_system = run_all shell system_commands,
      dc_network = run_all shell network_commands, dc_storage = run_all shell storage_commands,
      dc_performance = run_all shell performance_config_commands\<rparr>"

subsection \<open>InferenceService storage\<close>

text \<open>\<^verbatim>\<open>(v.get(k) or {})\<close>; \<^const>\<open>None\<close> is the \<^verbatim>\<open>AttributeError\<close> of a value that is not an object.\<close>

definition sub_object :: "string \<Rightarrow> pyval \<Rightarrow> pyval option" where
  "sub_object k v = (case v of VDict d \<Rightarrow> Some (vor (vget d k) (VDict [])) | _ \<Rightarrow> None)"

definition item :: "string \<Rightarrow> pyval \<Rightarrow> pyval option" where
  "item k v = (case v of VDict d \<Rightarrow> Some (vget d k) | _ \<Rightarrow> None)"

definition storage_result :: "string \<Rightarrow> pyval \<Rightarrow> pyval \<Rightarrow> pyval \<Rightarrow> pyval dict option" where
  "storage_result isvc_name pth key uri =
     (if \<not> truthy pth \<and> \<not> truthy uri then None
      else Some (set_if ''storage_uri'' uri (set_if ''storage_key'' key (set_if ''storage_path'' pth
             [(''inference_service'', VStr isvc_name)]))))"

text \<open>\<open>get\<close> is the answer of the API: an exception, no object, or the object.\<close>

definition resolve_inference_service_storage ::
  "bool \<Rightarrow> string \<Rightarrow> string \<Rightarrow> pyval option http_result \<Rightarrow> pyval dict option stage" where
  "resolve_inference_service_storage have_api ns isvc_name get =
     (if \<not> have_api \<or> ns = [] \<or> isvc_name = [] then Returns None
      else (case get of
              Answer (Some isvc) \<Rightarrow>
                (if \<not> truthy isvc then Returns None
                 else (case Option.bind (Option.bind (sub_object ''spec'' isvc) (sub_object ''predictor'')) (sub_object ''model'') of
                         None \<Rightarrow> Raises
                       | Some model \<Rightarrow>
                           (case (sub_object ''storage'' model, item ''storageUri'' model) of
                              (Some storage, Some uri) \<Rightarrow>
                                (case (item ''path'' storage, item ''key'' storage) of
                                   (Some pth, Some key) \<Rightarrow> Returns (storage_result isvc_name pth key uri)
                                 | _ \<Rightarrow> Raises)
                            | _ \<Rightarrow> Raises)))
            | _ \<Rightarrow> Returns None))"

subsection \<open>Model files\<close>

text \<open>\<^verbatim>\<open>re.compile(r"^[0-9a-f]{40}$")\<close> on a stripped line.\<close>

definition is_hex40 :: "string \<Rightarrow> bool" where
  "is_hex40 s \<longleftrightarrow> length s = 40 \<and> list_all (\<lambda>c. py_isdigit_ascii c \<or> (97 \<le> ch_code c \<and> ch_code c \<le> 102)) s"

definition first_line :: "string option \<Rightarrow> string" where
  "first_line text = py_strip (fst (partition_c CHR 0x0A (case text of Some t \<Rightarrow> t | None \<Rightarrow> [])))"

text \<open>The metadata files in the order of their names; \<open>read\<close> is \<^verbatim>\<open>_read_small_file\<close>.\<close>

definition snapshot_revision :: "(string \<Rightarrow> string option) \<Rightarrow> string list \<Rightarrow> string option" where
  "snapshot_revision read names =
     first_some (\<lambda>n. if suffix ''.metadata'' n \<and> is_hex40 (first_line (read n)) then Some (first_line (read n)) else None) (sort names)"

definition config_fields :: "string option \<Rightarrow> pyval dict \<Rightarrow> pyval dict" where
  "config_fields text out =
     (case Option.bind (nonempty text) json_loads of
        Some (VDict config) \<Rightarrow>
          (let out1 = foldl (\<lambda>acc k. if vget config k \<noteq> VNone then dset k (vget config k) acc else acc) out
                        [''architectures'', ''model_type'', ''max_position_embeddings'']
           in case vor (vget config ''torch_dtype'') (vget config ''dtype'') of VStr s \<Rightarrow> dset ''dtype'' (VStr s) out1 | _ \<Rightarrow> out1)
      | _ \<Rightarrow> out)"

text \<open>\<^verbatim>\<open>isinstance(total, int)\<close> holds of a Boolean too.\<close>

definition index_fields :: "string option \<Rightarrow> pyval dict \<Rightarrow> pyval dict" where
  "index_fields text out =
     (case Option.bind (Option.bind (nonempty text) json_loads) (\<lambda>v. Option.bind (sub_object ''metadata'' v) (item ''total_size'')) of
        Some (VInt n) \<Rightarrow> dset ''total_size_bytes'' (VInt n) out
      | Some (VBool b) \<Rightarrow> dset ''total_size_bytes'' (VBool b) out
      | _ \<Rightarrow> out)"

text \<open>The README: \<^verbatim>\<open>^\<close> and \<^verbatim>\<open>$\<close> under \<^verbatim>\<open>re.M\<close> are a look-behind and a look-ahead for a newline; the word characters are
  the ASCII ones.\<close>

definition line_char :: "char \<Rightarrow> bool" where
  "line_char c \<longleftrightarrow> c \<noteq> CHR 0x0A"

definition repo_char :: "char \<Rightarrow> bool" where
  "repo_char c \<longleftrightarrow> is_alnum_ascii c \<or> c \<in> set ''_.-''"

text \<open>\<^verbatim>\<open>^---\s*\n(.*?)\n---\s*(?:\n|$)\<close> with \<^verbatim>\<open>re.S\<close>\<close>

definition front_matter_re :: regex where
  "front_matter_re = rseq [rlit ''---'', RStar py_isspace, rlit [CHR 0x0A], RGroup 1 (RLazy (\<lambda>_. True)), rlit [CHR 0x0A],
     rlit ''---'', RStar py_isspace, RAlt (rlit [CHR 0x0A]) REos]"

text \<open>\<^verbatim>\<open>^base_model:[ \t]*([^\s\[#][^\n#]*?)[ \t]*$\<close>\<close>

definition base_model_re :: regex where
  "base_model_re = rseq [RNotBehind line_char, rlit ''base_model:'', RStar (one_of [CHR '' '', CHR 0x09]),
     RGroup 1 (RSeq (RCls (\<lambda>c. \<not> py_isspace c \<and> c \<noteq> CHR ''['' \<and> c \<noteq> CHR ''#'')) (RLazy (none_of [CHR 0x0A, CHR ''#'']))),
     RStar (one_of [CHR '' '', CHR 0x09]), RNotAhead line_char]"

text \<open>\<^verbatim>\<open>^license_link:\s*\S*huggingface\.co/([\w.-]+)/([\w.-]+)/\<close> and \<^verbatim>\<open>^#\s+(.+?)\s*$\<close>\<close>

definition license_link_re :: regex where
  "license_link_re = rseq [RNotBehind line_char, rlit ''license_link:'', RStar py_isspace, RStar (\<lambda>c. \<not> py_isspace c),
     rlit ''huggingface.co/'', RGroup 1 (RPlus repo_char), rlit ''/'', RGroup 2 (RPlus repo_char), rlit ''/'']"

definition title_re :: regex where
  "title_re = rseq [RNotBehind line_char, rlit ''#'', RPlus py_isspace, RGroup 1 (RSeq (RCls line_char) (RLazy line_char)),
     RStar py_isspace, RNotAhead line_char]"

definition readme_repo_id :: "string \<Rightarrow> string \<Rightarrow> string option" where
  "readme_repo_id front body =
     (case (re_search license_link_re front, re_search title_re body) of
        (Some link, Some title) \<Rightarrow>
          (case (group 1 link, group 2 link, group 1 title) of
             (Some org, Some name, Some t) \<Rightarrow>
               (if py_lower name = py_lower (py_strip t) then Some (org @ ''/'' @ name) else None)
           | _ \<Rightarrow> None)
      | _ \<Rightarrow> None)"

definition readme_fields :: "string option \<Rightarrow> pyval dict" where
  "readme_fields text =
     (case nonempty text of
        None \<Rightarrow> []
      | Some readme \<Rightarrow>
          (let (front, body) = (case re_match front_matter_re readme of
                                  Some m \<Rightarrow> (case group 1 m of Some f \<Rightarrow> f | None \<Rightarrow> [], fst (snd m))
                                | None \<Rightarrow> ([], readme));
               out = (case Option.bind (re_search base_model_re front) (group 1) of
                        Some b \<Rightarrow> [(''base_model'', VStr (strip_p (one_of [CHR 0x27, CHR 0x22]) b))]
                      | None \<Rightarrow> [])
           in case readme_repo_id front body of Some r \<Rightarrow> dset ''repo_id'' (VStr r) out | None \<Rightarrow> out))"

text \<open>\<^verbatim>\<open>_read_small_file\<close>: a file is what is there, if it is a regular file, with \<^const>\<open>None\<close> for an \<^verbatim>\<open>OSError\<close>.\<close>

definition model_file_max_bytes :: nat where
  "model_file_max_bytes = 5 * 1024 * 1024"

definition read_small_file :: "(string \<Rightarrow> string option option) \<Rightarrow> nat \<Rightarrow> string \<Rightarrow> string option" where
  "read_small_file files limit p = (case files p of Some (Some t) \<Rightarrow> Some (take limit t) | _ \<Rightarrow> None)"

text \<open>\<open>meta\<close> are the names in the download metadata directory, if it can be listed.\<close>

definition read_model_source_files ::
  "bool \<Rightarrow> (string \<Rightarrow> string option option) \<Rightarrow> string list option \<Rightarrow> string \<Rightarrow> pyval dict option" where
  "read_model_source_files is_dir files meta dir =
     (if dir = [] \<or> \<not> is_dir then None
      else (let o0 = readme_fields (read_small_file files (64 * 1024) (path_join dir ''README.md''));
                meta_dir = path_join (path_join (path_join dir ''.cache'') ''huggingface'') ''download'';
                o1 = (case Option.bind meta (snapshot_revision (\<lambda>n. read_small_file files 1024 (path_join meta_dir n))) of
                        Some r \<Rightarrow> dset ''revision'' (VStr r) o0 | None \<Rightarrow> o0);
                o2 = index_fields (read_small_file files model_file_max_bytes (path_join dir ''model.safetensors.index.json''))
                       (config_fields (read_small_file files model_file_max_bytes (path_join dir ''config.json'')) o1)
            in if o2 = [] then None else Some o2))"

text \<open>A repository is only named if the link and the title agree on it, whatever else the README says.\<close>

lemma readme_repo_id_agrees:
  assumes "readme_repo_id front body = Some r"
  obtains link title org name t where "re_search license_link_re front = Some link" and "re_search title_re body = Some title"
    and "group 1 title = Some t" and "r = org @ ''/'' @ name" and "py_lower name = py_lower (py_strip t)"
  using assms by (auto simp: readme_repo_id_def split: option.splits if_splits)

lemma readme_example:
  "readme_fields (Some (''---'' @ [CHR 0x0A] @ ''base_model: meta/base '' @ [CHR 0x0A]
      @ ''license_link: https://huggingface.co/Org/Model-7B/blob/LICENSE'' @ [CHR 0x0A] @ ''---'' @ [CHR 0x0A] @ ''# Model-7b'' @ [CHR 0x0A]))
    = [(''base_model'', VStr ''meta/base''), (''repo_id'', VStr ''Org/Model-7B'')]"
  by code_simp

subsection \<open>Publishing\<close>

definition entry_key :: "string \<Rightarrow> string \<Rightarrow> string \<Rightarrow> string" where
  "entry_key kind pod ext = kind @ ''-'' @ pod @ ext"

text \<open>The script's own \<^verbatim>\<open>sign_payload\<close>, with the key for discovery and storage.\<close>

definition discovery_signature :: "side_env \<Rightarrow> string \<Rightarrow> string option" where
  "discovery_signature env payload =
     (case se_key env of
        None \<Rightarrow> None
      | Some k \<Rightarrow> (let key = strip_p py_isspace k in if key = [] then None else Some (se_hmac env key payload)))"

lemma discovery_signature_eq [simp]: "discovery_signature env payload = sign_payload env payload"
  by (simp add: discovery_signature_def sign_payload_def nonempty_def Let_def split: option.split list.split)

definition signed_entry :: "side_env \<Rightarrow> string \<Rightarrow> pyval \<Rightarrow> string dict" where
  "signed_entry env kind v =
     (let payload = se_dumps env v
      in (entry_key kind (se_pod env) ''.json'', payload)
         # (case nonempty (discovery_signature env payload) of Some g \<Rightarrow> [(entry_key kind (se_pod env) ''.sig'', g)] | None \<Rightarrow> []))"

text \<open>The storage entry from the two stages.\<close>

definition storage_info_of :: "pyval dict option \<Rightarrow> pyval dict option \<Rightarrow> pyval dict" where
  "storage_info_of storage files =
     (case files of
        Some (m # ms) \<Rightarrow> dset ''model_files'' (VDict (m # ms)) (case storage of Some d \<Rightarrow> d | None \<Rightarrow> [])
      | _ \<Rightarrow> (case storage of Some d \<Rightarrow> d | None \<Rightarrow> []))"

definition snapshot_updates :: "side_env \<Rightarrow> pyval \<Rightarrow> pyval dict \<Rightarrow> string dict" where
  "snapshot_updates env snap storage =
     signed_entry env ''discovery'' snap @ (if storage = [] then [] else signed_entry env ''storage'' (VDict storage))"

text \<open>The end of the script: both stages, then the merge, which is a stage too.\<close>

definition publish_snapshot ::
  "side_env \<Rightarrow> bool \<Rightarrow> pyval \<Rightarrow> pyval dict option stage \<Rightarrow> pyval dict option stage \<Rightarrow> (nat \<Rightarrow> fault) \<Rightarrow> config_map \<Rightarrow> config_map" where
  "publish_snapshot env have_api snap storage files faults cm =
     (let info = storage_info_of (Option.bind (run_stage storage) id) (Option.bind (run_stage files) id)
      in if have_api \<and> named env then snd (store_put faults (snapshot_updates env snap info) cm) else cm)"

subsection \<open>The discovery entry is always published\<close>

lemma entry_keys_distinct [simp]:
  "entry_key ''discovery'' pod x \<noteq> entry_key ''storage'' pod y" "entry_key ''storage'' pod x \<noteq> entry_key ''discovery'' pod y"
  "entry_key k pod ''.json'' \<noteq> entry_key k pod ''.sig''" "entry_key k pod ''.sig'' \<noteq> entry_key k pod ''.json''"
  by (simp_all add: entry_key_def)

lemma snapshot_updates_ok: "dict_ok (snapshot_updates env snap info)"
  by (simp add: dict_ok_def snapshot_updates_def signed_entry_def Let_def split: option.split)

definition entry_published :: "side_env \<Rightarrow> string \<Rightarrow> pyval \<Rightarrow> config_map \<Rightarrow> bool" where
  "entry_published env kind v cm \<longleftrightarrow>
     store_get cm (entry_key kind (se_pod env) ''.json'') = Some (se_dumps env v)
     \<and> (\<forall>g. nonempty (sign_payload env (se_dumps env v)) = Some g \<longrightarrow> store_get cm (entry_key kind (se_pod env) ''.sig'') = Some g)"

text \<open>C14: Whatever the stages do, raise or hang, the discovery entry reaches the ConfigMap with its signature
  if the API answers, and so does the storage entry if one of its two stages found something.\<close>

theorem snapshot_published:
  assumes "named env" and "\<And>r. faults r = Ok"
  shows "entry_published env ''discovery'' snap (publish_snapshot env True snap storage files faults cm)
    \<and> (storage_info_of (Option.bind (run_stage storage) id) (Option.bind (run_stage files) id) \<noteq> [] \<longrightarrow>
         entry_published env ''storage'' (VDict (storage_info_of (Option.bind (run_stage storage) id) (Option.bind (run_stage files) id)))
           (publish_snapshot env True snap storage files faults cm))"
proof -
  define info where "info = storage_info_of (Option.bind (run_stage storage) id) (Option.bind (run_stage files) id)"
  obtain cm' where cm': "store_put faults (snapshot_updates env snap info) cm = (True, cm')"
    using store_put_ok [of faults "snapshot_updates env snap info" cm] assms(2)
    by (cases "store_put faults (snapshot_updates env snap info) cm") auto
  have "publish_snapshot env True snap storage files faults cm = cm'"
    using assms(1) cm' by (simp add: publish_snapshot_def info_def [symmetric])
  moreover have get: "store_get cm' k = Some v" if "dget (snapshot_updates env snap info) k = Some v" for k v
    using cms.put_done [OF cm' snapshot_updates_ok that] .
  have "entry_published env ''discovery'' snap cm'"
    by (auto simp: entry_published_def snapshot_updates_def signed_entry_def Let_def dget_def intro!: get)
  moreover have "entry_published env ''storage'' (VDict info) cm'" if "info \<noteq> []"
    using that by (auto simp: entry_published_def snapshot_updates_def signed_entry_def Let_def dget_def intro!: get split: option.split)
  ultimately show ?thesis by (simp add: info_def)
qed

theorem snapshot_published_witness:
  "entry_published \<lparr>se_pod = ''p'', se_namespace = ''n'', se_configmap = ''c'', se_key = Some ''k'', se_dumps = (\<lambda>_. ''{}''), se_hmac = (\<lambda>k p. k @ p)\<rparr>
     ''discovery'' (VDict [])
     (publish_snapshot \<lparr>se_pod = ''p'', se_namespace = ''n'', se_configmap = ''c'', se_key = Some ''k'', se_dumps = (\<lambda>_. ''{}''), se_hmac = (\<lambda>k p. k @ p)\<rparr>
        True (VDict []) Hangs Raises (\<lambda>_. Ok) None)"
proof -
  let ?env = "\<lparr>se_pod = ''p'', se_namespace = ''n'', se_configmap = ''c'', se_key = Some ''k'', se_dumps = (\<lambda>_ :: pyval. ''{}''),
    se_hmac = (\<lambda>k p. k @ p)\<rparr>"
  have "named ?env" by (simp add: named_def)
  from snapshot_published [OF this, of "\<lambda>_. Ok"] show ?thesis by simp
qed

subsection \<open>The snapshot feeds the compilation\<close>

lemma dget_run_all: "dget (run_all shell cmds) k = map_option (\<lambda>c. VStr (run_cmd (shell c))) (dget cmds k)"
  by (induction cmds) (auto simp: run_all_def dget_def)

text \<open>The snapshot has every field of every section that the compilation reads, whatever the commands
  return: the values of the environment that are taken from it are the texts of the commands.\<close>

theorem snapshot_has_fields:
  "list_all (\<lambda>(name, sec, keys). list_all (\<lambda>k. \<exists>s. vget (sec (snapshot shell environ now)) k = VStr s) keys) discovery_details_keys
   \<and> list_all (\<lambda>k. \<exists>s. vget (dc_system (snapshot shell environ now)) k = VStr s)
       [''cpu_model'', ''cpu_count'', ''numa_node_count'', ''kernel_version'', ''memory_total_gb'']
   \<and> list_all (\<lambda>k. \<exists>s. vget (dc_gpu (snapshot shell environ now)) k = VStr s)
       [''gpu_models'', ''gpu_count'', ''cuda_version'', ''gpu_driver_version'', ''gpu_memory_per_device_mb'']"
proof -
  have has: "\<exists>s. vget (run_all shell cmds) k = VStr s" if "dget cmds k \<noteq> None" for cmds k
    using that by (auto simp: vget_def dget_run_all)
  have all: "list_all (\<lambda>k. \<exists>s. vget (run_all shell cmds) k = VStr s) ks" if "list_all (\<lambda>k. dget cmds k \<noteq> None) ks" for cmds ks
    using that has by (simp add: list_all_iff)
  have keys:
    "list_all (\<lambda>k. dget system_commands k \<noteq> None) [''cpu_architecture'', ''cpu_cores_per_socket'', ''cpu_threads_per_core'', ''cache_l3'']"
    "list_all (\<lambda>k. dget network_commands k \<noteq> None) [''rdma_devices'', ''rdma_device_count'', ''primary_mtu'']"
    "list_all (\<lambda>k. dget storage_commands k \<noteq> None) [''block_devices'']"
    "list_all (\<lambda>k. dget performance_config_commands k \<noteq> None) [''cpu_governor'', ''numa_balancing'', ''transparent_hugepages'', ''max_map_count'']"
    "list_all (\<lambda>k. dget system_commands k \<noteq> None) [''cpu_model'', ''cpu_count'', ''numa_node_count'', ''kernel_version'', ''memory_total_gb'']"
    "list_all (\<lambda>k. dget gpu_commands k \<noteq> None) [''gpu_models'', ''gpu_count'', ''cuda_version'', ''gpu_driver_version'', ''gpu_memory_per_device_mb'']"
    by code_simp+
  note sec = keys [THEN all]
  show ?thesis unfolding discovery_details_keys_def
    using sec by (simp only: snapshot_def discovery.simps list.pred_inject prod.case simp_thms)
qed

text \<open>If the command that reads the memory size fails or times out in the first pod, no AIBOM is compiled
  for the workload.\<close>

theorem failed_memory_command_fatal:
  assumes "run_cmd (shell (sh ''grep MemTotal /proc/meminfo | awk `{printf @%.2f@, $2/1024/1024}`'')) = ''Not available''"
    and "ci_discoveries inp = snapshot shell environ now # ds"
  shows "compile_aibom env inp = None"
proof -
  have "dget system_commands ''memory_total_gb'' = Some (sh ''grep MemTotal /proc/meminfo | awk `{printf @%.2f@, $2/1024/1024}`'')"
    by code_simp
  then have "vget (dc_system (snapshot shell environ now)) ''memory_total_gb'' = VStr ''Not available''"
    using assms(1) by (simp add: snapshot_def vget_def dget_run_all)
  then show ?thesis by (rule compile_fails_memory [OF assms(2)])
qed

theorem failed_memory_command_fatal_witness:
  "compile_aibom sample_env (sample_input\<lparr>ci_discoveries := [snapshot (\<lambda>_. CmdRaises) (\<lambda>_. None) ''now'']\<rparr>) = None"
  by (rule failed_memory_command_fatal [where shell = "\<lambda>_. CmdRaises" and environ = "\<lambda>_. None" and now = "''now''" and ds = "[]"])
     (simp_all add: run_cmd_def)

end
