(* ===== verification/DetectorOutput.thy ===== *)
theory DetectorOutput
  imports Command "HOL-Library.List_Lexorder" "HOL-Library.Char_ord"
begin

text \<open>
  The output file of \<^verbatim>\<open>scripts/aibom-scripts/runtime_detector.py\<close>, which every Python process of a pod writes: the merge
  of what a process detected into what others wrote (\<^verbatim>\<open>_merge_output\<close>), the write under a lock with write-then-rename
  (\<^verbatim>\<open>_flush\<close>) as a step relation over any number of processes that may be killed at any time, the debounced timer
  (\<^verbatim>\<open>_notify_change\<close>) and the arguments that every flush captures again.
\<close>

subsection \<open>Merging\<close>

type_synonym entry = "pyval dict"

text \<open>\<^verbatim>\<open>json.dumps(..., sort_keys=True)\<close> is the same text exactly for values that are equal up to the order of keys, so the
  identity is the list of values in canonical order.\<close>

primrec canon :: "pyval \<Rightarrow> pyval" where
  "canon VNone = VNone"
| "canon (VBool b) = VBool b"
| "canon (VInt i) = VInt i"
| "canon (VFloat x) = VFloat x"
| "canon (VStr s) = VStr s"
| "canon (VList xs) = VList (map canon xs)"
| "canon (VDict d) = VDict (sort_key fst (map (map_prod id canon) d))"

definition dataset_identity_keys :: "string list" where
  "dataset_identity_keys =
     [''dataset_name'', ''source'', ''config_name'', ''split'', ''revision'', ''data_files'', ''data_dir'', ''root'', ''path'']"

definition dataset_identity :: "entry \<Rightarrow> pyval list" where
  "dataset_identity e = map (\<lambda>k. canon (vget e k)) dataset_identity_keys"

definition seen_via :: "entry \<Rightarrow> pyval list" where
  "seen_via e = (case vget e ''seen_via'' of VList xs \<Rightarrow> xs | _ \<Rightarrow> [])"

definition merge_entry :: "entry \<Rightarrow> entry \<Rightarrow> entry" where
  "merge_entry old e =
     (let seen = seen_via old @ filter (\<lambda>v. v \<notin> set (seen_via old)) (seen_via e); m = dupdate old e
      in if seen \<noteq> [] then dset ''seen_via'' (VList seen) m else m)"

text \<open>\<^verbatim>\<open>by_key\<close>: the position of the entry for an identity, the last one in what others wrote.\<close>

type_synonym merge_state = "entry list \<times> (pyval list \<Rightarrow> nat option)"

definition by_key :: "entry list \<Rightarrow> pyval list \<Rightarrow> nat option" where
  "by_key es = map_of (rev (zip (map dataset_identity es) [0..<length es]))"

definition merge_step :: "merge_state \<Rightarrow> entry \<Rightarrow> merge_state" where
  "merge_step s e =
     (case snd s (dataset_identity e) of
        None \<Rightarrow> (fst s @ [e], (snd s)(dataset_identity e \<mapsto> length (fst s)))
      | Some i \<Rightarrow> ((fst s)[i := merge_entry (fst s ! i) e], snd s))"

definition merge_datasets :: "entry list \<Rightarrow> entry list \<Rightarrow> entry list" where
  "merge_datasets existing data = fst (foldl merge_step (existing, by_key existing) data)"

definition is_git_key :: "string \<Rightarrow> bool" where
  "is_git_key k \<longleftrightarrow> prefix ''git_'' k"

definition merge_info :: "pyval dict \<Rightarrow> pyval dict \<Rightarrow> pyval dict" where
  "merge_info existing info =
     dupdate (if list_ex (is_git_key \<circ> fst) info then filter (\<lambda>(k, _). \<not> is_git_key k) existing else existing) info"

record document =
  doc_datasets :: "entry list"
  doc_info :: "pyval dict"

definition merge_output :: "document \<Rightarrow> entry list \<Rightarrow> pyval dict \<Rightarrow> document" where
  "merge_output existing data info =
     \<lparr>doc_datasets = merge_datasets (doc_datasets existing) data, doc_info = merge_info (doc_info existing) info\<rparr>"

subsection \<open>What a merge keeps\<close>

lemma seen_via_not_identity: "''seen_via'' \<notin> set dataset_identity_keys"
  by (simp add: dataset_identity_keys_def)

lemma vget_dupdate: "dict_ok e \<Longrightarrow> vget (dupdate d e) k = (case dget e k of Some v \<Rightarrow> v | None \<Rightarrow> vget d k)"
  by (simp add: vget_def dget_dupdate_ok split: option.split)

lemma identity_merge_entry:
  assumes "dict_ok e" and "dataset_identity e = dataset_identity old"
  shows "dataset_identity (merge_entry old e) = dataset_identity old"
proof -
  have "canon (vget (merge_entry old e) k) = canon (vget old k)" if k: "k \<in> set dataset_identity_keys" for k
  proof -
    have "k \<noteq> ''seen_via''" using k seen_via_not_identity by blast
    then have "vget (merge_entry old e) k = vget (dupdate old e) k" by (simp add: merge_entry_def Let_def)
    moreover have "canon (vget e k) = canon (vget old k)" using assms(2) k by (auto simp: dataset_identity_def)
    ultimately show ?thesis by (cases "dget e k") (simp_all add: vget_dupdate [OF assms(1)] vget_def [of e])
  qed
  then show ?thesis by (simp add: dataset_identity_def)
qed

text \<open>The index of identities is right: every entry has one, and it points to an entry of that identity.\<close>

definition index_ok :: "merge_state \<Rightarrow> bool" where
  "index_ok s \<longleftrightarrow> (\<forall>i < length (fst s). snd s (dataset_identity (fst s ! i)) \<noteq> None)
     \<and> (\<forall>k i. snd s k = Some i \<longrightarrow> i < length (fst s) \<and> dataset_identity (fst s ! i) = k)"

lemma by_key_ok: "index_ok (es, by_key es)"
proof -
  have "set (rev (zip (map dataset_identity es) [0..<length es])) = {(dataset_identity (es ! i), i) | i. i < length es}"
    by (force simp: set_zip)
  then show ?thesis
    by (auto simp: index_ok_def by_key_def map_of_eq_None_iff image_iff dest!: map_of_SomeD)
qed

lemma merge_step_ok:
  assumes "index_ok s" and "dict_ok e"
  shows "index_ok (merge_step s e)"
    and "map dataset_identity (fst (merge_step s e)) =
      map dataset_identity (fst s) @ (if dataset_identity e \<in> dataset_identity ` set (fst s) then [] else [dataset_identity e])"
proof -
  have known: "snd s (dataset_identity e) \<noteq> None \<longleftrightarrow> dataset_identity e \<in> dataset_identity ` set (fst s)"
  proof
    assume "snd s (dataset_identity e) \<noteq> None"
    then obtain i where "snd s (dataset_identity e) = Some i" by blast
    then have "i < length (fst s)" "dataset_identity e = dataset_identity (fst s ! i)" using assms(1) by (simp_all add: index_ok_def)
    then show "dataset_identity e \<in> dataset_identity ` set (fst s)" using nth_mem by blast
  next
    assume "dataset_identity e \<in> dataset_identity ` set (fst s)"
    then obtain i where "i < length (fst s)" "dataset_identity e = dataset_identity (fst s ! i)" by (auto simp: in_set_conv_nth)
    then show "snd s (dataset_identity e) \<noteq> None" using assms(1) by (simp add: index_ok_def)
  qed
  have "index_ok (merge_step s e) \<and> map dataset_identity (fst (merge_step s e)) =
      map dataset_identity (fst s) @ (if dataset_identity e \<in> dataset_identity ` set (fst s) then [] else [dataset_identity e])"
  proof (cases "snd s (dataset_identity e)")
    case None
    then show ?thesis using assms(1) known
      by (auto simp: merge_step_def index_ok_def nth_append less_Suc_eq)
  next
    case (Some i)
    then have i: "i < length (fst s)" "dataset_identity (fst s ! i) = dataset_identity e" using assms(1) by (auto simp: index_ok_def)
    let ?l = "(fst s)[i := merge_entry (fst s ! i) e]"
    have id: "dataset_identity (?l ! j) = dataset_identity (fst s ! j)" if "j < length (fst s)" for j
      using identity_merge_entry [of e "fst s ! i"] assms(2) i that by (cases "j = i") simp_all
    then have "map dataset_identity ?l = map dataset_identity (fst s)" by (intro nth_equalityI) simp_all
    moreover have "index_ok (?l, snd s)" using assms(1) id by (auto simp: index_ok_def)
    ultimately show ?thesis using Some known by (simp add: merge_step_def)
  qed
  then show "index_ok (merge_step s e)" and "map dataset_identity (fst (merge_step s e)) =
      map dataset_identity (fst s) @ (if dataset_identity e \<in> dataset_identity ` set (fst s) then [] else [dataset_identity e])"
    by blast+
qed

definition identities :: "entry list \<Rightarrow> pyval list set" where
  "identities es = dataset_identity ` set es"

lemma merge_fold_ids:
  assumes "index_ok s" and "list_all dict_ok data"
  shows "\<exists>new. map dataset_identity (fst (foldl merge_step s data)) = map dataset_identity (fst s) @ new
    \<and> set new = identities data - identities (fst s) \<and> distinct new"
  using assms
proof (induction data arbitrary: s)
  case (Cons e data)
  let ?s = "merge_step s e"
  have ok: "dict_ok e" using Cons.prems(2) by simp
  note step = merge_step_ok [OF Cons.prems(1) ok]
  obtain new where new: "map dataset_identity (fst (foldl merge_step ?s data)) = map dataset_identity (fst ?s) @ new"
    "set new = identities data - identities (fst ?s)" "distinct new" using Cons.IH [OF step(1)] Cons.prems(2) by auto
  have ids: "identities (fst ?s) = insert (dataset_identity e) (identities (fst s))"
    using arg_cong [OF step(2), of set] by (auto simp: identities_def)
  show ?case
  proof (cases "dataset_identity e \<in> identities (fst s)")
    case True
    then have "set new = identities (e # data) - identities (fst s)" using new(2) ids by (auto simp: identities_def)
    then show ?thesis using new(1,3) step(2) True by (auto simp: identities_def)
  next
    case False
    then have "set (dataset_identity e # new) = identities (e # data) - identities (fst s)" "distinct (dataset_identity e # new)"
      using new(2,3) ids by (auto simp: identities_def)
    then show ?thesis using new(1) step(2) False by (auto simp: identities_def intro!: exI [of _ "dataset_identity e # new"])
  qed
qed (simp add: identities_def)

lemma merge_datasets_ids: "list_all dict_ok data \<Longrightarrow> identities (merge_datasets ex data) = identities ex \<union> identities data"
  using merge_fold_ids [OF by_key_ok, of data ex] unfolding merge_datasets_def identities_def
  by (metis (no_types, lifting) Diff_partition Un_Diff_cancel fst_conv list.set_map set_append)

text \<open>C34: Merging what a process detected into the file of the others loses no data set and records none twice: the entries of
  the others keep their places and identities, and exactly the identities that were not there are added, once each.\<close>

theorem merge_output_no_loss:
  assumes "list_all dict_ok data"
  shows "\<exists>new. map dataset_identity (doc_datasets (merge_output existing data info)) = map dataset_identity (doc_datasets existing) @ new
    \<and> set new = dataset_identity ` set data - dataset_identity ` set (doc_datasets existing) \<and> distinct new"
  using merge_fold_ids [OF by_key_ok assms, of "doc_datasets existing"]
  by (simp add: merge_output_def merge_datasets_def identities_def)

theorem merge_output_no_loss_witness:
  "\<exists>new. map dataset_identity (doc_datasets (merge_output \<lparr>doc_datasets = [[(''dataset_name'', VStr ''a'')]], doc_info = []\<rparr>
        [[(''dataset_name'', VStr ''b'')], [(''dataset_name'', VStr ''b''), (''batch_size'', VInt 8)]] []))
      = map dataset_identity [[(''dataset_name'', VStr ''a'')]] @ new"
proof -
  have "list_all dict_ok [[(''dataset_name'', VStr ''b'')], [(''dataset_name'', VStr ''b''), (''batch_size'', VInt 8)]]"
    by (simp add: dict_ok_def)
  from merge_output_no_loss [OF this, of "\<lparr>doc_datasets = [[(''dataset_name'', VStr ''a'')]], doc_info = []\<rparr>" "[]"]
  show ?thesis by auto
qed

lemma dget_filter_git: "dget (filter (\<lambda>(k, _). \<not> is_git_key k) d) k = (if is_git_key k then None else dget d k)"
  by (induction d) (auto simp: dget_def)

lemma list_ex_git: "list_ex (is_git_key \<circ> fst) info \<longleftrightarrow> (\<exists>k. is_git_key k \<and> dget info k \<noteq> None)"
  by (auto simp: list_ex_iff dget_def map_of_eq_None_iff image_iff)

text \<open>The git keys in the file are always one observation of one process: a process that captured any replaces them all,
  and one that captured none leaves them as they are. Every other key keeps its last writer's value.\<close>

theorem merge_info_git_group:
  assumes "dict_ok info"
  shows "dget (doc_info (merge_output existing data info)) k =
    (if dget info k \<noteq> None then dget info k
     else if is_git_key k \<and> (\<exists>j. is_git_key j \<and> dget info j \<noteq> None) then None
     else dget (doc_info existing) k)"
  using list_ex_git [of info]
  by (auto simp: merge_output_def merge_info_def dget_dupdate_ok [OF assms] dget_filter_git split: option.split)

theorem merge_info_git_group_witness:
  "dget (doc_info (merge_output \<lparr>doc_datasets = [], doc_info = [(''git_branch'', VStr ''old''), (''epochs'', VInt 3)]\<rparr> []
      [(''git_commit'', VStr ''c'')])) ''git_branch'' = None"
  by (subst merge_info_git_group) (auto simp: dict_ok_def dget_def is_git_key_def)

subsection \<open>Writing the file\<close>

text \<open>Files on the shared volume: the output and the temporary file of a process id. Processes of different containers may
  have the same id.\<close>

datatype 'd content = Absent | Truncated | Complete 'd

datatype flush_path = OutputFile | TmpFile nat

definition read_file :: "'d \<Rightarrow> 'd content \<Rightarrow> 'd" where
  "read_file blank c = (case c of Complete d \<Rightarrow> d | _ \<Rightarrow> blank)"

text \<open>Where a process is in \<^verbatim>\<open>_flush\<close>: with the snapshot of its own detections, and with the merged document that it
  writes.\<close>

datatype ('s, 'd) flush_pc =
    Idle | Snapped 's | Locked 's | Writing 's 'd | Written 's 'd | Renamed 's | Dead

record ('s, 'd) flush_proc =
  fp_pid :: nat
  fp_data :: 's
  fp_pc :: "('s, 'd) flush_pc"

record ('s, 'd) flush_system =
  fs_procs :: "('s, 'd) flush_proc list"
  fs_lock :: "nat option"
  fs_files :: "flush_path \<Rightarrow> 'd content"
  fs_flushed :: "'s list"

definition set_pc :: "nat \<Rightarrow> ('s, 'd) flush_pc \<Rightarrow> ('s, 'd) flush_system \<Rightarrow> ('s, 'd) flush_system" where
  "set_pc i pc s = s\<lparr>fs_procs := (fs_procs s)[i := (fs_procs s ! i)\<lparr>fp_pc := pc\<rparr>]\<rparr>"

definition tmp_of :: "nat \<Rightarrow> ('s, 'd) flush_system \<Rightarrow> flush_path" where
  "tmp_of i s = TmpFile (fp_pid (fs_procs s ! i))"

text \<open>The steps of \<^verbatim>\<open>_flush\<close> of process \<open>i\<close>: the snapshot, the lock or giving up on it, truncating the temporary file,
  the complete dump, the rename, the release. \<open>detect\<close> is a hook that changes what the process has detected; an
  exception (\<open>fail\<close>) releases the lock, and so does the kernel when the process is killed. \<open>fs_flushed\<close> collects the
  snapshots whose rename has happened.\<close>

inductive flush_step :: "('d \<Rightarrow> 's \<Rightarrow> 'd) \<Rightarrow> 'd \<Rightarrow> ('s \<Rightarrow> bool) \<Rightarrow> ('s, 'd) flush_system \<Rightarrow> ('s, 'd) flush_system \<Rightarrow> bool"
  for merge blank good where
  detect: "\<lbrakk>i < length (fs_procs s); good x\<rbrakk> \<Longrightarrow>
      flush_step merge blank good s (s\<lparr>fs_procs := (fs_procs s)[i := (fs_procs s ! i)\<lparr>fp_data := x\<rparr>]\<rparr>)"
| snap: "\<lbrakk>i < length (fs_procs s); fp_pc (fs_procs s ! i) = Idle\<rbrakk> \<Longrightarrow>
      flush_step merge blank good s (set_pc i (Snapped (fp_data (fs_procs s ! i))) s)"
| acquire: "\<lbrakk>i < length (fs_procs s); fp_pc (fs_procs s ! i) = Snapped x; fs_lock s = None\<rbrakk> \<Longrightarrow>
      flush_step merge blank good s (set_pc i (Locked x) (s\<lparr>fs_lock := Some i\<rparr>))"
| give_up: "\<lbrakk>i < length (fs_procs s); fp_pc (fs_procs s ! i) = Snapped x\<rbrakk> \<Longrightarrow>
      flush_step merge blank good s (set_pc i Idle s)"
| open_tmp: "\<lbrakk>i < length (fs_procs s); fp_pc (fs_procs s ! i) = Locked x\<rbrakk> \<Longrightarrow>
      flush_step merge blank good s
        (set_pc i (Writing x (merge (read_file blank (fs_files s OutputFile)) x)) (s\<lparr>fs_files := (fs_files s)(tmp_of i s := Truncated)\<rparr>))"
| dump: "\<lbrakk>i < length (fs_procs s); fp_pc (fs_procs s ! i) = Writing x d\<rbrakk> \<Longrightarrow>
      flush_step merge blank good s (set_pc i (Written x d) (s\<lparr>fs_files := (fs_files s)(tmp_of i s := Complete d)\<rparr>))"
| rename: "\<lbrakk>i < length (fs_procs s); fp_pc (fs_procs s ! i) = Written x d\<rbrakk> \<Longrightarrow>
      flush_step merge blank good s (set_pc i (Renamed x)
        (s\<lparr>fs_files := (fs_files s)(OutputFile := fs_files s (tmp_of i s), tmp_of i s := Absent), fs_flushed := x # fs_flushed s\<rparr>))"
| release: "\<lbrakk>i < length (fs_procs s); fp_pc (fs_procs s ! i) = Renamed x\<rbrakk> \<Longrightarrow>
      flush_step merge blank good s (set_pc i Idle (s\<lparr>fs_lock := None\<rparr>))"
| fail: "\<lbrakk>i < length (fs_procs s); fs_lock s = Some i; fp_pc (fs_procs s ! i) \<noteq> Dead\<rbrakk> \<Longrightarrow>
      flush_step merge blank good s (set_pc i Idle (s\<lparr>fs_lock := None\<rparr>))"
| kill: "i < length (fs_procs s) \<Longrightarrow>
      flush_step merge blank good s (set_pc i Dead (s\<lparr>fs_lock := if fs_lock s = Some i then None else fs_lock s\<rparr>))"

inductive_cases flush_stepE: "flush_step merge blank good s t"

inductive flush_run :: "('d \<Rightarrow> 's \<Rightarrow> 'd) \<Rightarrow> 'd \<Rightarrow> ('s \<Rightarrow> bool) \<Rightarrow> ('s, 'd) flush_system \<Rightarrow> bool" for merge blank good where
  start: "\<lbrakk>\<forall>p \<in> set ps. fp_pc p = Idle \<and> good (fp_data p); files OutputFile \<noteq> Truncated\<rbrakk> \<Longrightarrow>
      flush_run merge blank good \<lparr>fs_procs = ps, fs_lock = None, fs_files = files, fs_flushed = []\<rparr>"
| step: "flush_run merge blank good s \<Longrightarrow> flush_step merge blank good s t \<Longrightarrow> flush_run merge blank good t"

text \<open>A process between taking and releasing the lock.\<close>

definition locking :: "('s, 'd) flush_pc \<Rightarrow> bool" where
  "locking pc \<longleftrightarrow> (case pc of Locked _ \<Rightarrow> True | Writing _ _ \<Rightarrow> True | Written _ _ \<Rightarrow> True | Renamed _ \<Rightarrow> True | _ \<Rightarrow> False)"

text \<open>What the protocol needs of a merge: the keys of the file grow by those of the snapshot.\<close>

locale merging =
  fixes merge :: "'d \<Rightarrow> 's \<Rightarrow> 'd" and blank :: 'd and good :: "'s \<Rightarrow> bool" and doc_keys :: "'d \<Rightarrow> 'k set" and snap_keys :: "'s \<Rightarrow> 'k set"
  assumes merge_keys: "good x \<Longrightarrow> doc_keys (merge d x) = doc_keys d \<union> snap_keys x"
begin

definition proc_ok :: "nat option \<Rightarrow> (flush_path \<Rightarrow> 'd content) \<Rightarrow> nat \<Rightarrow> ('s, 'd) flush_proc \<Rightarrow> bool" where
  "proc_ok lock files i p \<longleftrightarrow> (locking (fp_pc p) \<longleftrightarrow> lock = Some i) \<and> good (fp_data p) \<and>
     (case fp_pc p of
        Snapped x \<Rightarrow> good x
      | Locked x \<Rightarrow> good x
      | Writing x d \<Rightarrow> good x \<and> d = merge (read_file blank (files OutputFile)) x
      | Written x d \<Rightarrow> good x \<and> d = merge (read_file blank (files OutputFile)) x \<and> files (TmpFile (fp_pid p)) = Complete d
      | _ \<Rightarrow> True)"

definition flush_inv :: "('s, 'd) flush_system \<Rightarrow> bool" where
  "flush_inv s \<longleftrightarrow> fs_files s OutputFile \<noteq> Truncated
     \<and> (\<forall>x \<in> set (fs_flushed s). snap_keys x \<subseteq> doc_keys (read_file blank (fs_files s OutputFile)))
     \<and> (\<forall>i < length (fs_procs s). proc_ok (fs_lock s) (fs_files s) i (fs_procs s ! i))"

text \<open>A process without the lock depends on no file.\<close>

lemma proc_ok_other: "proc_ok lock files j p \<Longrightarrow> lock \<noteq> Some j \<Longrightarrow> lock' \<noteq> Some j \<Longrightarrow> proc_ok lock' files' j p"
  by (auto simp: proc_ok_def locking_def split: flush_pc.splits)

lemma flush_inv_update:
  assumes "flush_inv s" and "i < length (fs_procs s)" and "proc_ok lock files i p"
    and "files OutputFile \<noteq> Truncated"
    and "\<forall>x \<in> set flushed. snap_keys x \<subseteq> doc_keys (read_file blank (files OutputFile))"
    and "(lock = fs_lock s \<and> files = fs_files s) \<or> fs_lock s \<in> {None, Some i} \<and> lock \<in> {None, Some i}"
  shows "flush_inv \<lparr>fs_procs = (fs_procs s)[i := p], fs_lock = lock, fs_files = files, fs_flushed = flushed\<rparr>"
proof -
  have "proc_ok lock files j ((fs_procs s)[i := p] ! j)" if "j < length (fs_procs s)" for j
  proof (cases "j = i")
    case False
    have old: "proc_ok (fs_lock s) (fs_files s) j (fs_procs s ! j)" using assms(1) that by (simp add: flush_inv_def)
    show ?thesis
      using assms(6)
    proof
      assume "lock = fs_lock s \<and> files = fs_files s"
      then show ?thesis using old False by simp
    next
      assume "fs_lock s \<in> {None, Some i} \<and> lock \<in> {None, Some i}"
      then show ?thesis using proc_ok_other [OF old] False by auto
    qed
  qed (use assms(2,3) in simp)
  then show ?thesis using assms(4,5) by (simp add: flush_inv_def)
qed

lemma flush_inv_at: "flush_inv s \<Longrightarrow> i < length (fs_procs s) \<Longrightarrow> proc_ok (fs_lock s) (fs_files s) i (fs_procs s ! i)"
  by (simp add: flush_inv_def)

lemma holder: "flush_inv s \<Longrightarrow> i < length (fs_procs s) \<Longrightarrow> locking (fp_pc (fs_procs s ! i)) \<Longrightarrow> fs_lock s = Some i"
  using flush_inv_at by (simp add: proc_ok_def)

text \<open>One process changes its place, the lock and the files.\<close>

lemma flush_inv_set_pc:
  assumes "flush_inv s" and "i < length (fs_procs s)" and "proc_ok lock files i ((fs_procs s ! i)\<lparr>fp_pc := pc\<rparr>)"
    and "files OutputFile \<noteq> Truncated"
    and "\<forall>x \<in> set flushed. snap_keys x \<subseteq> doc_keys (read_file blank (files OutputFile))"
    and "(lock = fs_lock s \<and> files = fs_files s) \<or> fs_lock s \<in> {None, Some i} \<and> lock \<in> {None, Some i}"
  shows "flush_inv (set_pc i pc (s\<lparr>fs_lock := lock, fs_files := files, fs_flushed := flushed\<rparr>))"
  using flush_inv_update [OF assms] by (cases s) (simp add: set_pc_def)

lemma flush_inv_out:
  "flush_inv s \<Longrightarrow> fs_files s OutputFile \<noteq> Truncated"
  "flush_inv s \<Longrightarrow> \<forall>x \<in> set (fs_flushed s). snap_keys x \<subseteq> doc_keys (read_file blank (fs_files s OutputFile))"
  by (simp_all add: flush_inv_def)

lemma step_inv: "flush_step merge blank good s t \<Longrightarrow> flush_inv s \<Longrightarrow> flush_inv t"
proof (induction rule: flush_step.induct)
  case (detect i s x)
  then have "proc_ok (fs_lock s) (fs_files s) i ((fs_procs s ! i)\<lparr>fp_data := x\<rparr>)"
    using flush_inv_at [of s i] by (simp add: proc_ok_def split: flush_pc.splits)
  then show ?case
    using flush_inv_update [of s i "fs_lock s" "fs_files s" "(fs_procs s ! i)\<lparr>fp_data := x\<rparr>" "fs_flushed s"]
      flush_inv_out [of s] detect by (cases s) simp
next
  case (snap i s)
  then have "proc_ok (fs_lock s) (fs_files s) i ((fs_procs s ! i)\<lparr>fp_pc := Snapped (fp_data (fs_procs s ! i))\<rparr>)"
    using flush_inv_at [of s i] by (simp add: proc_ok_def locking_def tmp_of_def)
  then show ?case
    using flush_inv_set_pc [of s i "fs_lock s" "fs_files s" "Snapped (fp_data (fs_procs s ! i))" "fs_flushed s"]
      flush_inv_out [of s] snap
    by (cases s) (simp add: tmp_of_def locking_def)
next
  case (acquire i s x)
  then have "proc_ok (Some i) (fs_files s) i ((fs_procs s ! i)\<lparr>fp_pc := Locked x\<rparr>)"
    using flush_inv_at [of s i] by (simp add: proc_ok_def locking_def tmp_of_def)
  then show ?case
    using flush_inv_set_pc [of s i "Some i" "fs_files s" "Locked x" "fs_flushed s"]
      flush_inv_out [of s] acquire
    by (cases s) (simp add: tmp_of_def locking_def)
next
  case (give_up i s x)
  then have "proc_ok (fs_lock s) (fs_files s) i ((fs_procs s ! i)\<lparr>fp_pc := Idle\<rparr>)"
    using flush_inv_at [of s i] by (simp add: proc_ok_def locking_def tmp_of_def)
  then show ?case
    using flush_inv_set_pc [of s i "fs_lock s" "fs_files s" "Idle" "fs_flushed s"]
      flush_inv_out [of s] give_up
    by (cases s) (simp add: tmp_of_def locking_def)
next
  case (open_tmp i s x)
  then have "proc_ok (fs_lock s) ((fs_files s)(tmp_of i s := Truncated)) i ((fs_procs s ! i)\<lparr>fp_pc := Writing x (merge (read_file blank (fs_files s OutputFile)) x)\<rparr>)"
    using flush_inv_at [of s i] by (simp add: proc_ok_def locking_def tmp_of_def)
  then show ?case
    using flush_inv_set_pc [of s i "fs_lock s" "(fs_files s)(tmp_of i s := Truncated)" "Writing x (merge (read_file blank (fs_files s OutputFile)) x)" "fs_flushed s"]
      flush_inv_out [of s] open_tmp holder [of s i]
    by (cases s) (simp add: tmp_of_def locking_def)
next
  case (dump i s x d)
  then have "proc_ok (fs_lock s) ((fs_files s)(tmp_of i s := Complete d)) i ((fs_procs s ! i)\<lparr>fp_pc := Written x d\<rparr>)"
    using flush_inv_at [of s i] by (simp add: proc_ok_def locking_def tmp_of_def)
  then show ?case
    using flush_inv_set_pc [of s i "fs_lock s" "(fs_files s)(tmp_of i s := Complete d)" "Written x d" "fs_flushed s"]
      flush_inv_out [of s] dump holder [of s i]
    by (cases s) (simp add: tmp_of_def locking_def)
next
  case (rename i s x d)
  let ?files = "(fs_files s)(OutputFile := fs_files s (tmp_of i s), tmp_of i s := Absent)"
  have d: "fs_files s (tmp_of i s) = Complete d" "good x" "d = merge (read_file blank (fs_files s OutputFile)) x"
    using flush_inv_at [OF rename(3,1)] rename(2) by (simp_all add: proc_ok_def tmp_of_def)
  then have "doc_keys d = doc_keys (read_file blank (fs_files s OutputFile)) \<union> snap_keys x" by (simp add: merge_keys)
  then have kept: "\<forall>y \<in> set (x # fs_flushed s). snap_keys y \<subseteq> doc_keys (read_file blank (?files OutputFile))"
    using flush_inv_out(2) [OF rename(3)] d(1) by (auto simp: read_file_def tmp_of_def)
  have "proc_ok (fs_lock s) ?files i ((fs_procs s ! i)\<lparr>fp_pc := Renamed x\<rparr>)"
    using flush_inv_at [OF rename(3,1)] rename(2) by (simp add: proc_ok_def locking_def)
  then show ?case
    using flush_inv_set_pc [of s i "fs_lock s" ?files "Renamed x" "x # fs_flushed s"] kept holder [OF rename(3,1)] rename d(1)
    by (cases s) (simp add: tmp_of_def locking_def)
next
  case (release i s x)
  then have "proc_ok (None) (fs_files s) i ((fs_procs s ! i)\<lparr>fp_pc := Idle\<rparr>)"
    using flush_inv_at [of s i] by (simp add: proc_ok_def locking_def tmp_of_def)
  then show ?case
    using flush_inv_set_pc [of s i "None" "fs_files s" "Idle" "fs_flushed s"]
      flush_inv_out [of s] release holder [of s i]
    by (cases s) (simp add: tmp_of_def locking_def)
next
  case (fail i s)
  then have "proc_ok (None) (fs_files s) i ((fs_procs s ! i)\<lparr>fp_pc := Idle\<rparr>)"
    using flush_inv_at [of s i] by (simp add: proc_ok_def locking_def tmp_of_def)
  then show ?case
    using flush_inv_set_pc [of s i "None" "fs_files s" "Idle" "fs_flushed s"]
      flush_inv_out [of s] fail holder [of s i]
    by (cases s) (simp add: tmp_of_def locking_def)
next
  case (kill i s)
  then have "proc_ok (if fs_lock s = Some i then None else fs_lock s) (fs_files s) i ((fs_procs s ! i)\<lparr>fp_pc := Dead\<rparr>)"
    using flush_inv_at [of s i] by (simp add: proc_ok_def locking_def tmp_of_def)
  then show ?case
    using flush_inv_set_pc [of s i "if fs_lock s = Some i then None else fs_lock s" "fs_files s" "Dead" "fs_flushed s"]
      flush_inv_out [of s] kill
    by (cases s) (simp add: tmp_of_def locking_def)
qed

lemma run_inv: "flush_run merge blank good s \<Longrightarrow> flush_inv s"
proof (induction rule: flush_run.induct)
  case (start ps files)
  then show ?case by (auto simp: flush_inv_def proc_ok_def locking_def)
qed (rule step_inv)

lemma run_complete: "flush_run merge blank good s \<Longrightarrow> fs_files s OutputFile \<noteq> Truncated"
  by (rule flush_inv_out(1) [OF run_inv])

lemma run_kept: "flush_run merge blank good s \<Longrightarrow> x \<in> set (fs_flushed s) \<Longrightarrow>
    snap_keys x \<subseteq> doc_keys (read_file blank (fs_files s OutputFile))"
  using flush_inv_out(2) [OF run_inv] by blast

lemma run_exclusive:
  assumes "flush_run merge blank good s" and "i < length (fs_procs s)" "j < length (fs_procs s)"
    and "locking (fp_pc (fs_procs s ! i))" "locking (fp_pc (fs_procs s ! j))"
  shows "i = j"
  using holder [OF run_inv [OF assms(1)], of i] holder [OF run_inv [OF assms(1)], of j] assms(2-) by simp

end

text \<open>The merge of the detector, on snapshots whose entries and information are dictionaries.\<close>

type_synonym snapshot = "entry list \<times> pyval dict"

definition merge_snapshot :: "document \<Rightarrow> snapshot \<Rightarrow> document" where
  "merge_snapshot d x = merge_output d (fst x) (snd x)"

definition snapshot_ok :: "snapshot \<Rightarrow> bool" where
  "snapshot_ok x \<longleftrightarrow> list_all dict_ok (fst x) \<and> dict_ok (snd x)"

definition no_document :: document where
  "no_document = \<lparr>doc_datasets = [], doc_info = []\<rparr>"

interpretation detector: merging merge_snapshot no_document snapshot_ok "\<lambda>d. identities (doc_datasets d)" "\<lambda>x. identities (fst x)"
  by unfold_locales (simp add: merge_snapshot_def merge_output_def snapshot_ok_def merge_datasets_ids)

text \<open>C5: However many processes flush at the same time and wherever they are killed, the output file is never truncated or half
  written, at most one process is between taking and releasing the lock, and no data set of a flush that has
  happened is ever missing from the file again, even if processes of different containers share a process id.\<close>

theorem flush_never_loses:
  assumes "flush_run merge_snapshot no_document snapshot_ok s"
  shows "fs_files s OutputFile \<noteq> Truncated
    \<and> (\<forall>i < length (fs_procs s). \<forall>j < length (fs_procs s).
         locking (fp_pc (fs_procs s ! i)) \<and> locking (fp_pc (fs_procs s ! j)) \<longrightarrow> i = j)
    \<and> (\<forall>x \<in> set (fs_flushed s). \<forall>e \<in> set (fst x).
         \<exists>d. fs_files s OutputFile = Complete d \<and> dataset_identity e \<in> dataset_identity ` set (doc_datasets d))"
proof (intro conjI ballI)
  show "fs_files s OutputFile \<noteq> Truncated" by (rule detector.run_complete [OF assms])
  show "\<forall>i < length (fs_procs s). \<forall>j < length (fs_procs s).
      locking (fp_pc (fs_procs s ! i)) \<and> locking (fp_pc (fs_procs s ! j)) \<longrightarrow> i = j"
    using detector.run_exclusive [OF assms] by blast
  fix x e
  assume "x \<in> set (fs_flushed s)" and "e \<in> set (fst x)"
  then have "dataset_identity e \<in> identities (doc_datasets (read_file no_document (fs_files s OutputFile)))"
    using detector.run_kept [OF assms, of x] by (auto simp: identities_def)
  then show "\<exists>d. fs_files s OutputFile = Complete d \<and> dataset_identity e \<in> dataset_identity ` set (doc_datasets d)"
    by (cases "fs_files s OutputFile") (auto simp: read_file_def no_document_def identities_def)
qed

text \<open>One flush of one process.\<close>

definition one_flush :: "snapshot \<Rightarrow> (snapshot, document) flush_system" where
  "one_flush x = \<lparr>fs_procs = [\<lparr>fp_pid = 7, fp_data = x, fp_pc = Renamed x\<rparr>], fs_lock = Some 0,
     fs_files = (\<lambda>_. Absent)(TmpFile 7 := Truncated, TmpFile 7 := Complete (merge_snapshot no_document x),
       OutputFile := Complete (merge_snapshot no_document x), TmpFile 7 := Absent), fs_flushed = [x]\<rparr>"

lemma one_flush_run:
  assumes "good x"
  shows "flush_run merge_snapshot no_document good (one_flush x)"
proof -
  define s0 :: "(snapshot, document) flush_system" where
    "s0 = \<lparr>fs_procs = [\<lparr>fp_pid = 7, fp_data = x, fp_pc = Idle\<rparr>], fs_lock = None, fs_files = (\<lambda>_. Absent), fs_flushed = []\<rparr>"
  have "flush_run merge_snapshot no_document good s0"
    unfolding s0_def by (rule flush_run.start) (simp_all add: assms)
  note r = flush_run.step [OF this flush_step.snap [of 0]]
  note r = flush_run.step [OF r flush_step.acquire [of 0 _ x]]
  note r = flush_run.step [OF r flush_step.open_tmp [of 0 _ x]]
  note r = flush_run.step [OF r flush_step.dump [of 0 _ x "merge_snapshot no_document x"]]
  note r = flush_run.step [OF r flush_step.rename [of 0 _ x "merge_snapshot no_document x"]]
  show ?thesis using r by (simp add: s0_def set_pc_def tmp_of_def read_file_def one_flush_def)
qed

definition sample_snapshot :: snapshot where
  "sample_snapshot = ([[(''dataset_name'', VStr ''mnist'')]], [(''epochs'', VInt 3)])"

lemma sample_snapshot_ok: "snapshot_ok sample_snapshot"
  by (simp add: snapshot_ok_def sample_snapshot_def dict_ok_def)

theorem flush_never_loses_witness:
  "\<exists>d. fs_files (one_flush sample_snapshot) OutputFile = Complete d
     \<and> dataset_identity [(''dataset_name'', VStr ''mnist'')] \<in> dataset_identity ` set (doc_datasets d)"
  using flush_never_loses [OF one_flush_run [of snapshot_ok, OF sample_snapshot_ok]] by (simp add: one_flush_def sample_snapshot_def)

subsection \<open>The debounced flush\<close>

text \<open>Changes are counted. A hook changes the data and then calls \<^verbatim>\<open>_notify_change\<close>, which starts a timer unless one is pending;
  the timer first forgets itself (\<^verbatim>\<open>_debounced_flush\<close>) and then flushes, which takes its snapshot. Any number of threads
  are between a change and its notification, and several timers may have fired without having flushed.\<close>

record debounce =
  db_changes :: nat
  db_flushed :: nat
  db_notifying :: nat
  db_timer :: bool
  db_firing :: nat

inductive debounce_step :: "debounce \<Rightarrow> debounce \<Rightarrow> bool" where
  notify: "0 < db_notifying s \<Longrightarrow> debounce_step s (s\<lparr>db_notifying := db_notifying s - 1, db_timer := True\<rparr>)"
| fire: "db_timer s \<Longrightarrow> debounce_step s (s\<lparr>db_timer := False, db_firing := db_firing s + 1\<rparr>)"
| flushes: "0 < db_firing s \<Longrightarrow> debounce_step s (s\<lparr>db_firing := db_firing s - 1, db_flushed := db_changes s\<rparr>)"

text \<open>A run of the process: steps of the timer, and changes at any time.\<close>

inductive debounce_run :: "debounce \<Rightarrow> bool" where
  enabled: "debounce_run \<lparr>db_changes = 0, db_flushed = 0, db_notifying = 0, db_timer = False, db_firing = 0\<rparr>"
| change: "debounce_run s \<Longrightarrow> debounce_run (s\<lparr>db_changes := db_changes s + 1, db_notifying := db_notifying s + 1\<rparr>)"
| step: "debounce_run s \<Longrightarrow> debounce_step s t \<Longrightarrow> debounce_run t"

definition debounce_rank :: "debounce \<Rightarrow> nat" where
  "debounce_rank s = 3 * db_notifying s + (if db_timer s then 2 else 0) + db_firing s"

lemma debounce_decreases: "debounce_step s t \<Longrightarrow> debounce_rank t < debounce_rank s"
  by (induction rule: debounce_step.induct) (auto simp: debounce_rank_def)

lemma debounce_covered: "debounce_run s \<Longrightarrow> db_flushed s = db_changes s \<or> 0 < db_notifying s \<or> db_timer s \<or> 0 < db_firing s"
proof (induction rule: debounce_run.induct)
  case (step s t)
  from step(2,3) show ?case by (induction rule: debounce_step.induct) auto
qed simp_all



subsection \<open>Arguments of the training process\<close>

text \<open>\<^verbatim>\<open>_arg_map\<close>. The conversions are \<^verbatim>\<open>_int_or_float\<close>, \<^verbatim>\<open>int\<close> and \<^verbatim>\<open>float\<close>; \<^const>\<open>None\<close> is the exception that skips one argument.\<close>

definition training_arg_map :: "(string \<times> string \<times> (string \<Rightarrow> pyval option)) list" where
  "training_arg_map =
    (let epochs = (''epochs'', int_or_float); batch = (''batch_size'', map_option VInt \<circ> py_int); lr = (''learning_rate'', map_option VFloat \<circ> py_float)
     in [(''--epochs'', epochs), (''--num-epochs'', epochs), (''--num_epochs'', epochs), (''--num-train-epochs'', epochs),
         (''--num_train_epochs'', epochs), (''--batch-size'', batch), (''--batch_size'', batch),
         (''--per-device-train-batch-size'', batch), (''--per_device_train_batch_size'', batch),
         (''--lr'', lr), (''--learning-rate'', lr), (''--learning_rate'', lr)])"

text \<open>What one argument sets, given the arguments after it.\<close>

definition arg_setting :: "string \<Rightarrow> string list \<Rightarrow> (string \<times> pyval) option" where
  "arg_setting arg rest =
     (let (key, _, val) = partition_c CHR ''='' arg;
          v = (if val = [] then (case rest of [] \<Rightarrow> [] | a # _ \<Rightarrow> a) else val)
      in case map_of training_arg_map key of
           None \<Rightarrow> None
         | Some (name, conv) \<Rightarrow> if v = [] then None else map_option (Pair name) (conv v))"

fun arg_settings :: "string list \<Rightarrow> (string \<times> pyval) list" where
  "arg_settings [] = []"
| "arg_settings (a # as) = (case arg_setting a as of Some s \<Rightarrow> s # arg_settings as | None \<Rightarrow> arg_settings as)"

text \<open>Python's equality on what the conversions return: numbers by value, and not-a-number is unequal to itself.\<close>

fun py_num_eq :: "pyval \<Rightarrow> pyval \<Rightarrow> bool" where
  "py_num_eq (VFloat NaN) v = False"
| "py_num_eq v (VFloat NaN) = False"
| "py_num_eq (VInt i) (VFloat (Num x)) = (x = Fin (of_int i))"
| "py_num_eq (VFloat (Num x)) (VInt i) = (x = Fin (of_int i))"
| "py_num_eq v w = (v = w)"

text \<open>\<^verbatim>\<open>_NotifyingDict.__setitem__\<close>: the dictionary and whether it notified.\<close>

definition notifying_set :: "string \<times> pyval \<Rightarrow> pyval dict \<times> bool \<Rightarrow> pyval dict \<times> bool" where
  "notifying_set kv s =
     (let changed = (case dget (fst s) (fst kv) of None \<Rightarrow> True | Some old \<Rightarrow> \<not> py_num_eq old (snd kv))
      in (dset (fst kv) (snd kv) (fst s), snd s \<or> changed))"

definition capture_training_args :: "string list \<Rightarrow> pyval dict \<Rightarrow> pyval dict \<times> bool" where
  "capture_training_args argv info = fold notifying_set (arg_settings argv) (info, False)"

lemma fold_set_get:
  "(k \<in> fst ` set ss \<longrightarrow> (\<exists>w. (k, w) \<in> set ss \<and> dget (fst (fold notifying_set ss s)) k = Some w))
   \<and> (k \<notin> fst ` set ss \<longrightarrow> dget (fst (fold notifying_set ss s)) k = dget (fst s) k)"
proof (induction ss arbitrary: s)
  case (Cons kv ss)
  have set: "dget (fst (notifying_set kv s)) k = (if k = fst kv then Some (snd kv) else dget (fst s) k)"
    by (simp add: notifying_set_def Let_def)
  show ?case
  proof (cases "k \<in> fst ` set ss")
    case True
    then show ?thesis using Cons.IH [of "notifying_set kv s"] by auto
  next
    case False
    then show ?thesis using Cons.IH [of "notifying_set kv s"] set by (cases kv) auto
  qed
qed simp

definition settled :: "(string \<times> pyval) list \<Rightarrow> bool" where
  "settled ss \<longleftrightarrow> list_all (\<lambda>(k, v). list_all (\<lambda>(j, w). j = k \<longrightarrow> py_num_eq w v) ss) ss"

lemma quiet_fold:
  assumes "\<forall>kv \<in> set ss. \<forall>w. (fst kv, w) \<in> set all \<longrightarrow> py_num_eq w (snd kv)" and "set ss \<subseteq> set all"
    and "\<forall>k \<in> fst ` set all. \<exists>w. (k, w) \<in> set all \<and> dget d k = Some w"
  shows "snd (fold notifying_set ss (d, b)) = b"
  using assms
proof (induction ss arbitrary: d b)
  case (Cons kv ss)
  obtain w where w: "(fst kv, w) \<in> set all" "dget d (fst kv) = Some w" using Cons.prems(2,3) by (cases kv) force
  then have "py_num_eq w (snd kv)" using Cons.prems(1) by simp
  then have step: "notifying_set kv (d, b) = (dset (fst kv) (snd kv) d, b)" using w(2) by (simp add: notifying_set_def)
  have "\<forall>k \<in> fst ` set all. \<exists>w. (k, w) \<in> set all \<and> dget (dset (fst kv) (snd kv) d) k = Some w"
    using Cons.prems(2,3) by (cases kv) auto
  then show ?case using Cons.IH Cons.prems(1,2) step by simp
qed simp

text \<open>Capturing the arguments again, as every flush does, notifies of no change, so a flush does not schedule another one,
  provided the command line gives each argument one value that is a number.\<close>

theorem capture_settles:
  assumes "settled (arg_settings argv)"
  shows "\<not> snd (capture_training_args argv (fst (capture_training_args argv info)))"
proof -
  let ?ss = "arg_settings argv" and ?d = "fst (capture_training_args argv info)"
  have "\<forall>k \<in> fst ` set ?ss. \<exists>w. (k, w) \<in> set ?ss \<and> dget ?d k = Some w"
    unfolding capture_training_args_def using fold_set_get [of _ ?ss "(info, False)"] by blast
  moreover have "\<forall>kv \<in> set ?ss. \<forall>w. (fst kv, w) \<in> set ?ss \<longrightarrow> py_num_eq w (snd kv)"
    using assms by (fastforce simp: settled_def list_all_iff)
  ultimately show ?thesis unfolding capture_training_args_def [of argv ?d] using quiet_fold [of ?ss ?ss ?d False] by simp
qed

theorem capture_settles_witness:
  "\<not> snd (capture_training_args [''train.py'', ''--batch-size'', ''8'', ''--batch_size=8'']
      (fst (capture_training_args [''train.py'', ''--batch-size'', ''8'', ''--batch_size=8''] [])))"
  by (rule capture_settles) code_simp

text \<open>Two spellings of one argument with different values: every flush notifies of a change and so schedules the next flush,
  every two seconds until the process ends.\<close>

lemma capture_never_settles:
  "snd (capture_training_args [''train.py'', ''--batch-size'', ''32'', ''--per_device_train_batch_size'', ''8'']
      (fst (capture_training_args [''train.py'', ''--batch-size'', ''32'', ''--per_device_train_batch_size'', ''8''] info)))"
proof -
  have ss: "arg_settings [''train.py'', ''--batch-size'', ''32'', ''--per_device_train_batch_size'', ''8'']
      = [(''batch_size'', VInt 32), (''batch_size'', VInt 8)]"
    by code_simp
  show ?thesis unfolding capture_training_args_def ss by (simp add: notifying_set_def)
qed

end
