(* ===== verification/DetectorGit.thy ===== *)
theory DetectorGit
  imports GitClone
begin

text \<open>
  The git provenance that \<^verbatim>\<open>scripts/aibom-scripts/runtime_detector.py\<close> reads from the \<^verbatim>\<open>.git\<close> directory of a
  workload, without the git binary: the walk up to the repository, linked worktrees, symbolic references, packed
  references, the remote in the configuration file (with the part of Python's \<^verbatim>\<open>configparser\<close> that it uses) and the
  state of the working tree. Files are a parameter; reading one may raise, which the caller turns into no provenance.
\<close>

subsection \<open>Files\<close>

text \<open>\<open>df_file p\<close> is \<^const>\<open>None\<close> if \<open>p\<close> is no regular file, else its text or the exception of reading it; \<open>df_status\<close> is the
  exit code and output of \<^verbatim>\<open>git status\<close>, \<^const>\<open>None\<close> if it could not run or timed out.\<close>

record detector_fs =
  df_isdir :: "string \<Rightarrow> bool"
  df_file :: "string \<Rightarrow> (unit + string) option"
  df_cwd :: string
  df_main :: "string option"
  df_argv :: "string list"
  df_status :: "string \<Rightarrow> (int \<times> string) option"
  df_bracket_ok :: "string \<Rightarrow> bool"

definition py_lines :: "string \<Rightarrow> string list" where
  "py_lines t = (let ls = split_c CHR 0x0A t in if last ls = [] then butlast ls else ls)"

text \<open>\<^verbatim>\<open>os.path.abspath\<close> and \<^verbatim>\<open>os.path.dirname\<close>.\<close>

definition abspath :: "detector_fs \<Rightarrow> string \<Rightarrow> string" where
  "abspath fs p = normpath (if prefix ''/'' p then p else path_join (df_cwd fs) p)"

definition dirname :: "string \<Rightarrow> string" where
  "dirname p =
     (let head = rev (dropWhile (\<lambda>c. c \<noteq> CHR ''/'') (rev p))
      in if list_all (\<lambda>c. c = CHR ''/'') head then head else rstrip_p (\<lambda>c. c = CHR ''/'') head)"

subsection \<open>Finding the repository\<close>

text \<open>One level of the walk: \<^verbatim>\<open>.git\<close> is a directory, or a file that names one, or there is none.\<close>

datatype dot_git = NoGit | GitAt string | BadGit | GitRaises

definition dot_git_at :: "detector_fs \<Rightarrow> string \<Rightarrow> dot_git" where
  "dot_git_at fs p =
     (let dot = path_join p ''.git''
      in if df_isdir fs dot then GitAt dot
         else (case df_file fs dot of
                 None \<Rightarrow> NoGit
               | Some (Inl _) \<Rightarrow> GitRaises
               | Some (Inr text) \<Rightarrow>
                   (let content = py_strip text
                    in if prefix ''gitdir:'' content
                       then GitAt (normpath (path_join p (py_strip (drop 7 content))))
                       else BadGit)))"

fun find_git_dir_loop :: "detector_fs \<Rightarrow> nat \<Rightarrow> string \<Rightarrow> unit + (string \<times> string) option" where
  "find_git_dir_loop fs 0 p = Inr None"
| "find_git_dir_loop fs (Suc n) p =
     (case dot_git_at fs p of
        GitAt g \<Rightarrow> Inr (Some (p, g))
      | BadGit \<Rightarrow> Inr None
      | GitRaises \<Rightarrow> Inl ()
      | NoGit \<Rightarrow> (if dirname p = p then Inr None else find_git_dir_loop fs n (dirname p)))"

definition find_git_dir :: "detector_fs \<Rightarrow> string option \<Rightarrow> unit + (string \<times> string) option" where
  "find_git_dir fs start = find_git_dir_loop fs 20 (abspath fs (case start of Some (c # s) \<Rightarrow> c # s | _ \<Rightarrow> df_cwd fs))"

text \<open>The repository of the running script, else the one around the working directory.\<close>

definition script_repo :: "detector_fs \<Rightarrow> string option \<Rightarrow> unit + (string \<times> string) option" where
  "script_repo fs script =
     (case script of
        Some (c # s) \<Rightarrow>
          (if df_file fs (c # s) \<noteq> None then find_git_dir fs (Some (dirname (abspath fs (c # s)))) else Inr None)
      | _ \<Rightarrow> Inr None)"

definition find_repo :: "detector_fs \<Rightarrow> unit + (string \<times> string) option" where
  "find_repo fs =
     (case script_repo fs (df_main fs) of
        Inl e \<Rightarrow> Inl e
      | Inr (Some r) \<Rightarrow> Inr (Some r)
      | Inr None \<Rightarrow>
          (case script_repo fs (case df_argv fs of [] \<Rightarrow> None | a # _ \<Rightarrow> Some a) of
             Inl e \<Rightarrow> Inl e
           | Inr (Some r) \<Rightarrow> Inr (Some r)
           | Inr None \<Rightarrow> find_git_dir fs None))"

definition git_common_dir :: "detector_fs \<Rightarrow> string \<Rightarrow> unit + string" where
  "git_common_dir fs g =
     (case df_file fs (path_join g ''commondir'') of
        None \<Rightarrow> Inr g
      | Some (Inl e) \<Rightarrow> Inl e
      | Some (Inr t) \<Rightarrow> Inr (normpath (path_join g (py_strip t))))"

subsection \<open>References\<close>

definition is_sha :: "string \<Rightarrow> bool" where
  "is_sha v \<longleftrightarrow> (length v = 40 \<or> length v = 64) \<and> list_all (\<lambda>c. py_isdigit_ascii c \<or> (97 \<le> ch_code c \<and> ch_code c \<le> 102)) v"

definition ref_path :: "string \<Rightarrow> string" where
  "ref_path r = py_strip (drop 4 r)"

text \<open>The first line of \<^verbatim>\<open>packed-refs\<close> with two words, the second of them the name.\<close>

definition packed_line :: "string \<Rightarrow> string \<Rightarrow> string option" where
  "packed_line name line = (case py_split (py_strip line) of [v, n] \<Rightarrow> (if n = name then Some v else None) | _ \<Rightarrow> None)"

definition packed_ref :: "detector_fs \<Rightarrow> string \<Rightarrow> string \<Rightarrow> unit + string option" where
  "packed_ref fs g name =
     (case df_file fs (path_join g ''packed-refs'') of
        None \<Rightarrow> Inr None
      | Some (Inl e) \<Rightarrow> Inl e
      | Some (Inr t) \<Rightarrow> Inr (case first_some (packed_line name) (py_lines t) of
                              Some v \<Rightarrow> if is_sha v then Some v else None
                            | None \<Rightarrow> None))"

function resolve_git_ref :: "detector_fs \<Rightarrow> string \<Rightarrow> string \<Rightarrow> nat \<Rightarrow> unit + string option" where
  "resolve_git_ref fs g text depth =
     (let r = py_strip text
      in if \<not> prefix ''ref:'' r then Inr (if is_sha r then Some r else None)
         else if 5 \<le> depth then Inr None
         else (case df_file fs (path_join g (ref_path r)) of
                 Some (Inl e) \<Rightarrow> Inl e
               | Some (Inr t) \<Rightarrow> resolve_git_ref fs g t (depth + 1)
               | None \<Rightarrow> packed_ref fs g (ref_path r)))"
  by pat_completeness auto
termination
  by (relation "measure (\<lambda>(fs, g, text, depth). 5 - depth)") auto

declare resolve_git_ref.simps [simp del]

subsection \<open>Configuration files\<close>

text \<open>\<^verbatim>\<open>configparser.ConfigParser(strict=False)\<close> reading a file: the sections and their options, each with the lines of its
  value, the section and option that a continuation line belongs to, the indentation and whether a line did not parse.\<close>

datatype cfg_sect = Defaults | Sect string

record cfg_state =
  cf_defaults :: "string list dict"
  cf_sections :: "string list dict dict"
  cf_cur :: "cfg_sect option"
  cf_opt :: string
  cf_indent :: nat
  cf_error :: bool

definition cfg_start :: cfg_state where
  "cfg_start = \<lparr>cf_defaults = [], cf_sections = [], cf_cur = None, cf_opt = [], cf_indent = 0, cf_error = False\<rparr>"

definition cur_options :: "cfg_state \<Rightarrow> string list dict" where
  "cur_options st =
     (case cf_cur st of
        Some Defaults \<Rightarrow> cf_defaults st
      | Some (Sect n) \<Rightarrow> (case dget (cf_sections st) n of Some d \<Rightarrow> d | None \<Rightarrow> [])
      | None \<Rightarrow> [])"

definition set_option :: "string list \<Rightarrow> cfg_state \<Rightarrow> cfg_state" where
  "set_option v st =
     (let d = dset (cf_opt st) v (cur_options st)
      in case cf_cur st of
           Some Defaults \<Rightarrow> st\<lparr>cf_defaults := d\<rparr>
         | Some (Sect n) \<Rightarrow> st\<lparr>cf_sections := dset n d (cf_sections st)\<rparr>
         | None \<Rightarrow> st)"

definition append_line :: "string \<Rightarrow> cfg_state \<Rightarrow> cfg_state" where
  "append_line v st =
     (if cf_cur st \<noteq> None \<and> cf_opt st \<noteq> []
      then set_option ((case dget (cur_options st) (cf_opt st) of Some ls \<Rightarrow> ls | None \<Rightarrow> []) @ [v]) st
      else st)"

text \<open>\<^verbatim>\<open>\[(?P<header>.+)\]\<close> and \<^verbatim>\<open>(?P<option>.*?)\s*(?:(?P<vi>=|:)\s*(?P<value>.*))$\<close>.\<close>

definition section_header :: "string \<Rightarrow> string option" where
  "section_header v =
     (case v of
        [] \<Rightarrow> None
      | c # rest \<Rightarrow>
          (if c \<noteq> CHR ''['' then None
           else (case rpartition_c CHR '']'' rest of (h, found, _) \<Rightarrow> if found \<and> h \<noteq> [] then Some h else None)))"

definition is_delimiter :: "char \<Rightarrow> bool" where
  "is_delimiter c \<longleftrightarrow> c = CHR ''='' \<or> c = CHR '':''"

definition option_line :: "string \<Rightarrow> (string \<times> string) option" where
  "option_line v =
     (if list_ex is_delimiter v
      then Some (rstrip_p py_isspace (takeWhile (\<lambda>c. \<not> is_delimiter c) v),
                 py_strip (tl (dropWhile (\<lambda>c. \<not> is_delimiter c) v)))
      else None)"

definition enter_section :: "string \<Rightarrow> cfg_state \<Rightarrow> cfg_state" where
  "enter_section h st =
     (if dget (cf_sections st) h \<noteq> None then st\<lparr>cf_cur := Some (Sect h), cf_opt := []\<rparr>
      else if h = ''DEFAULT'' then st\<lparr>cf_cur := Some Defaults, cf_opt := []\<rparr>
      else st\<lparr>cf_sections := dset h [] (cf_sections st), cf_cur := Some (Sect h), cf_opt := []\<rparr>)"

text \<open>One line; \<^const>\<open>None\<close> is the exception for an option before the first section.\<close>

definition cfg_line :: "cfg_state \<Rightarrow> string \<Rightarrow> cfg_state option" where
  "cfg_line st line =
     (let stripped = py_strip line; comment = prefix ''#'' stripped \<or> prefix '';'' stripped;
          value = (if comment then [] else stripped);
          level = length (takeWhile py_isspace line)
      in if value = [] then Some (if comment then st else append_line [] st)
         else if cf_cur st \<noteq> None \<and> cf_opt st \<noteq> [] \<and> cf_indent st < level then Some (append_line value st)
         else (case section_header value of
                 Some h \<Rightarrow> Some (enter_section h (st\<lparr>cf_indent := level\<rparr>))
               | None \<Rightarrow>
                   (if cf_cur st = None then None
                    else (case option_line value of
                            None \<Rightarrow> Some (st\<lparr>cf_indent := level, cf_error := True\<rparr>)
                          | Some (name, v) \<Rightarrow>
                              Some (set_option [v] (st\<lparr>cf_indent := level, cf_error := cf_error st \<or> name = [],
                                                        cf_opt := py_lower name\<rparr>))))))"

fun cfg_lines :: "cfg_state \<Rightarrow> string list \<Rightarrow> cfg_state option" where
  "cfg_lines st [] = Some st"
| "cfg_lines st (l # ls) = (case cfg_line st l of None \<Rightarrow> None | Some st' \<Rightarrow> cfg_lines st' ls)"

definition read_config :: "string \<Rightarrow> cfg_state option" where
  "read_config text =
     (case cfg_lines cfg_start (py_lines text) of
        None \<Rightarrow> None
      | Some st \<Rightarrow> if cf_error st then None else Some st)"

text \<open>The value of an option: its lines joined, of the section before the defaults.\<close>

definition raw_value :: "cfg_state \<Rightarrow> string \<Rightarrow> string \<Rightarrow> string option" where
  "raw_value st sect name =
     map_option (\<lambda>ls. rstrip_p py_isspace (join_str [CHR 0x0A] ls))
       (case Option.bind (dget (cf_sections st) sect) (\<lambda>d. dget d name) of
          Some ls \<Rightarrow> Some ls
        | None \<Rightarrow> dget (cf_defaults st) name)"

text \<open>\<^verbatim>\<open>BasicInterpolation\<close>: \<^verbatim>\<open>%%\<close> is a percent sign, \<^verbatim>\<open>%(name)s\<close> another option, to a depth of ten, and every other
  percent sign raises (\<^const>\<open>None\<close>).\<close>

definition key_reference :: "string \<Rightarrow> (string \<times> string) option" where
  "key_reference rest =
     (let name = takeWhile (\<lambda>c. c \<noteq> CHR '')'') rest; after = dropWhile (\<lambda>c. c \<noteq> CHR '')'') rest
      in if name \<noteq> [] \<and> prefix '')s'' after then Some (name, drop 2 after) else None)"

lemma key_reference_length: "key_reference rest = Some (name, after) \<Longrightarrow> length after < length rest"
proof -
  assume "key_reference rest = Some (name, after)"
  then have "after = drop 2 (dropWhile (\<lambda>c. c \<noteq> CHR '')'') rest)" "prefix '')s'' (dropWhile (\<lambda>c. c \<noteq> CHR '')'') rest)"
    by (auto simp: key_reference_def Let_def split: if_splits)
  then show ?thesis using length_dropWhile_le [of "\<lambda>c. c \<noteq> CHR '')''" rest] prefix_length_le by fastforce
qed

function interpolate :: "(string \<Rightarrow> string option) \<Rightarrow> nat \<Rightarrow> string \<Rightarrow> string option" where
  "interpolate get depth [] = Some []"
| "interpolate get depth (c # s) =
     (if c \<noteq> CHR ''%'' then map_option (Cons c) (interpolate get depth s)
      else if prefix ''%'' s then map_option (Cons c) (interpolate get depth (tl s))
      else if \<not> prefix ''('' s then None
      else (case key_reference (tl s) of
              None \<Rightarrow> None
            | Some (name, after) \<Rightarrow>
                (case get (py_lower name) of
                   None \<Rightarrow> None
                 | Some v \<Rightarrow>
                     (case (if CHR ''%'' \<notin> set v then Some v else if depth = 0 then None else interpolate get (depth - 1) v) of
                        None \<Rightarrow> None
                      | Some w \<Rightarrow> map_option (\<lambda>u. w @ u) (interpolate get depth after)))))"
  by pat_completeness auto
termination
  by (relation "measures [\<lambda>(get, depth, s). depth, \<lambda>(get, depth, s). length s]")
    (auto dest: key_reference_length simp: less_Suc_eq_le)

definition config_get :: "cfg_state \<Rightarrow> string \<Rightarrow> string \<Rightarrow> unit + string option" where
  "config_get st sect name =
     (case raw_value st sect name of
        None \<Rightarrow> Inr None
      | Some v \<Rightarrow> (case interpolate (raw_value st sect) 9 v of None \<Rightarrow> Inl () | Some u \<Rightarrow> Inr (Some u)))"

text \<open>\<^verbatim>\<open>remote "\<close>\<close>

definition remote_prefix :: string where
  "remote_prefix = ''remote '' @ [CHR 0x22]"

definition origin_section :: string where
  "origin_section = remote_prefix @ ''origin'' @ [CHR 0x22]"

definition git_remote_url :: "detector_fs \<Rightarrow> string \<Rightarrow> string option" where
  "git_remote_url fs g =
     (case df_file fs (path_join g ''config'') of
        Some (Inr text) \<Rightarrow>
          (case read_config text of
             None \<Rightarrow> None
           | Some st \<Rightarrow>
               (case filter (prefix remote_prefix) (map fst (cf_sections st)) of
                  [] \<Rightarrow> None
                | r # rs \<Rightarrow>
                    (case config_get st (if origin_section \<in> set (r # rs) then origin_section else r) ''url'' of
                       Inl _ \<Rightarrow> None
                     | Inr u \<Rightarrow> map_option (detector_redact_git_url (df_bracket_ok fs)) u)))
      | _ \<Rightarrow> None)"

subsection \<open>Provenance\<close>

definition git_tree_dirty :: "detector_fs \<Rightarrow> string \<Rightarrow> bool option" where
  "git_tree_dirty fs worktree =
     (case df_status fs worktree of
        None \<Rightarrow> None
      | Some (code, out) \<Rightarrow> if code \<noteq> 0 then None else Some (py_strip out \<noteq> []))"

definition head_branch :: "string \<Rightarrow> string option" where
  "head_branch head =
     (if prefix ''ref:'' head
      then Some (let b = ref_path head in if prefix ''refs/heads/'' b then drop 11 b else b)
      else None)"

text \<open>The information to record; \<^const>\<open>None\<close> if nothing is recorded, for an exception as well.\<close>

record git_capture =
  gc_commit :: string
  gc_branch :: "string option"
  gc_repository :: "string option"
  gc_dirty :: "bool option"

definition capture_git_provenance :: "detector_fs \<Rightarrow> bool \<Rightarrow> git_capture option" where
  "capture_git_provenance fs check_dirty =
     (case find_repo fs of
        Inr (Some (worktree, g)) \<Rightarrow>
          (case git_common_dir fs g of
             Inl _ \<Rightarrow> None
           | Inr common \<Rightarrow>
               (case df_file fs (path_join g ''HEAD'') of
                  Some (Inr t) \<Rightarrow>
                    (case resolve_git_ref fs common (py_strip t) 0 of
                       Inr (Some commit) \<Rightarrow>
                         Some \<lparr>gc_commit = commit, gc_branch = head_branch (py_strip t),
                               gc_repository = nonempty (git_remote_url fs common),
                               gc_dirty = (if check_dirty then git_tree_dirty fs worktree else None)\<rparr>
                     | _ \<Rightarrow> None)
                | _ \<Rightarrow> None))
      | _ \<Rightarrow> None)"

subsection \<open>Resolving a reference\<close>

text \<open>What a reference means in git: a text that is no symbolic reference is the object name itself, a symbolic one
  has the value of its loose file, or without one the value in \<^verbatim>\<open>packed-refs\<close>. The number counts the symbolic references
  on the way.\<close>

inductive ref_value :: "detector_fs \<Rightarrow> string \<Rightarrow> string \<Rightarrow> nat \<Rightarrow> string option \<Rightarrow> bool" for fs g where
  direct: "\<not> prefix ''ref:'' (py_strip t) \<Longrightarrow>
      ref_value fs g t 0 (if is_sha (py_strip t) then Some (py_strip t) else None)"
| loose: "\<lbrakk>prefix ''ref:'' (py_strip t); df_file fs (path_join g (ref_path (py_strip t))) = Some (Inr u); ref_value fs g u n v\<rbrakk>
      \<Longrightarrow> ref_value fs g t (Suc n) v"
| packed: "\<lbrakk>prefix ''ref:'' (py_strip t); df_file fs (path_join g (ref_path (py_strip t))) = None;
      packed_ref fs g (ref_path (py_strip t)) = Inr v\<rbrakk> \<Longrightarrow> ref_value fs g t 1 v"

lemma packed_ref_sha: "packed_ref fs g name = Inr (Some c) \<Longrightarrow> is_sha c"
  by (auto simp: packed_ref_def split: option.splits sum.splits if_splits)

lemma resolve_git_ref_sha: "resolve_git_ref fs g t depth = Inr (Some c) \<Longrightarrow> is_sha c"
proof (induction fs g t depth rule: resolve_git_ref.induct)
  case (1 fs g t depth)
  show ?case using 1 packed_ref_sha
    by (subst (asm) (2) resolve_git_ref.simps) (auto simp: Let_def split: if_splits option.splits sum.splits)
qed

lemma resolve_follows: "ref_value fs g t n v \<Longrightarrow> resolve_git_ref fs g t d = Inr (if d + n \<le> 5 then v else None) \<or> (n = 0 \<and> resolve_git_ref fs g t d = Inr v)"
proof (induction arbitrary: d rule: ref_value.induct)
  case (loose t u n v)
  then show ?case by (subst (1 2) resolve_git_ref.simps) (use loose.IH [of "Suc d"] in \<open>auto simp: Let_def split: if_splits\<close>)
qed (subst (1 2) resolve_git_ref.simps; auto simp: Let_def)+


text \<open>The branch \<^verbatim>\<open>main\<close>, packed.\<close>

definition sample_sha :: string where
  "sample_sha = replicate 40 CHR ''a''"

definition sample_repo :: detector_fs where
  "sample_repo = \<lparr>df_isdir = (\<lambda>p. p = ''/w/.git''),
     df_file = (\<lambda>p. if p = ''/w/.git/HEAD'' then Some (Inr ''ref: refs/heads/main'')
                   else if p = ''/w/.git/packed-refs'' then Some (Inr (sample_sha @ '' refs/heads/main'')) else None),
     df_cwd = ''/w/src'', df_main = None, df_argv = [], df_status = (\<lambda>_. None), df_bracket_ok = (\<lambda>_. False)\<rparr>"

lemma sample_ref_value: "ref_value sample_repo ''/w/.git'' ''ref: refs/heads/main'' 1 (Some sample_sha)"
  by (rule ref_value.packed; code_simp)


subsection \<open>Finding the repository\<close>

abbreviation ancestor :: "string \<Rightarrow> nat \<Rightarrow> string" where
  "ancestor p k \<equiv> (dirname ^^ k) p"

lemma find_git_dir_loop_nearest:
  "find_git_dir_loop fs n p = Inr (Some (w, g)) \<longleftrightarrow>
     (\<exists>k<n. w = ancestor p k \<and> dot_git_at fs w = GitAt g \<and> (\<forall>j<k. dot_git_at fs (ancestor p j) = NoGit))"
proof (induction n arbitrary: p)
  case (Suc n)
  have shift: "(\<exists>k<Suc n. P k) \<longleftrightarrow> P 0 \<or> (\<exists>k<n. P (Suc k))" for P :: "nat \<Rightarrow> bool"
    using less_Suc_eq_0_disj by auto
  have first: "(\<forall>j<Suc k. P j) \<longleftrightarrow> P 0 \<and> (\<forall>j<k. P (Suc j))" for P :: "nat \<Rightarrow> bool" and k
    using less_Suc_eq_0_disj by auto
  have anc: "ancestor p (Suc k) = ancestor (dirname p) k" for k by (simp add: funpow_swap1)
  have fixed: "ancestor p k = p" if "dirname p = p" for k using that by (induction k) simp_all
  show ?case
  proof (cases "dot_git_at fs p")
    case NoGit
    then show ?thesis using Suc.IH [of "dirname p"] fixed
      by (cases "dirname p = p") (auto simp: shift first anc simp del: funpow.simps)
  qed (auto simp: shift first simp del: funpow.simps(2))
qed simp



lemma git_remote_url_redacted: "git_remote_url fs g = Some u \<Longrightarrow> \<exists>v. u = redact_git_url (df_bracket_ok fs) v"
  by (auto simp: git_remote_url_def detector_redact_git_url_eq split: option.splits sum.splits list.splits if_splits)

text \<open>A recorded provenance is one observation of one checkout: the commit is a full object name resolved from the HEAD of
  the repository that was found, a branch is recorded exactly for a symbolic HEAD, the repository is a redacted
  remote, and whether the tree is dirty is only recorded if git said so.\<close>

theorem git_capture_one_checkout:
  assumes "capture_git_provenance fs check_dirty = Some c"
  shows "\<exists>worktree g common t. find_repo fs = Inr (Some (worktree, g)) \<and> git_common_dir fs g = Inr common
      \<and> df_file fs (path_join g ''HEAD'') = Some (Inr t)
      \<and> resolve_git_ref fs common (py_strip t) 0 = Inr (Some (gc_commit c)) \<and> is_sha (gc_commit c)
      \<and> gc_branch c = head_branch (py_strip t)
      \<and> pred_option (\<lambda>u. \<exists>v. u = redact_git_url (df_bracket_ok fs) v) (gc_repository c)
      \<and> (gc_dirty c = None \<or> check_dirty \<and> gc_dirty c = git_tree_dirty fs worktree)"
proof -
  have "pred_option (\<lambda>u. \<exists>v. u = redact_git_url (df_bracket_ok fs) v) (nonempty (git_remote_url fs d))" for d
    by (auto simp: pred_option_def set_option_def dest!: nonempty_SomeD git_remote_url_redacted split: option.splits)
  then show ?thesis using assms resolve_git_ref_sha
    by (auto simp: capture_git_provenance_def split: sum.splits option.splits prod.splits if_splits)
qed

lemma sample_captured: "capture_git_provenance sample_repo False
    = Some \<lparr>gc_commit = sample_sha, gc_branch = Some ''main'', gc_repository = None, gc_dirty = None\<rparr>"
  by code_simp

theorem git_capture_one_checkout_witness:
  "\<exists>worktree g common. find_repo sample_repo = Inr (Some (worktree, g)) \<and> git_common_dir sample_repo g = Inr common \<and> is_sha sample_sha"
  using git_capture_one_checkout [OF sample_captured] by auto

subsection \<open>Reading the remote\<close>

text \<open>A configuration file as git writes it: a header for each section, then its options, each after a tab.\<close>

type_synonym git_section = "string \<times> (string \<times> string) list"

definition section_lines :: "git_section \<Rightarrow> string list" where
  "section_lines s = (''['' @ fst s @ '']'') # map (\<lambda>(k, v). CHR 0x09 # k @ '' = '' @ v) (snd s)"

definition config_text :: "git_section list \<Rightarrow> string" where
  "config_text ss = concat (map (\<lambda>l. l @ [CHR 0x0A]) (concat (map section_lines ss)))"

text \<open>Names and values that need no quoting: what git itself writes.\<close>

definition word_char :: "char \<Rightarrow> bool" where
  "word_char c \<longleftrightarrow> \<not> py_isspace c \<and> c \<noteq> CHR ''='' \<and> c \<noteq> CHR '':'' \<and> c \<noteq> CHR ''['' \<and> c \<noteq> CHR ''#'' \<and> c \<noteq> CHR '';''"

definition option_ok :: "string \<times> string \<Rightarrow> bool" where
  "option_ok kv \<longleftrightarrow> fst kv \<noteq> [] \<and> list_all word_char (fst kv) \<and> py_lower (fst kv) = fst kv
     \<and> snd kv \<noteq> [] \<and> \<not> py_isspace (hd (snd kv)) \<and> \<not> py_isspace (last (snd kv)) \<and> CHR 0x0A \<notin> set (snd kv)"

definition section_ok :: "git_section \<Rightarrow> bool" where
  "section_ok s \<longleftrightarrow> fst s \<noteq> [] \<and> fst s \<noteq> ''DEFAULT'' \<and> CHR 0x0A \<notin> set (fst s)
     \<and> list_all option_ok (snd s) \<and> distinct (map fst (snd s))"

definition config_ok :: "git_section list \<Rightarrow> bool" where
  "config_ok ss \<longleftrightarrow> list_all section_ok ss \<and> distinct (map fst ss)"

lemma split_c_line: "c \<notin> set l \<Longrightarrow> split_c c (l @ c # rest) = l # split_c c rest"
  by (induction l) auto

lemma py_lines_text:
  assumes "\<forall>l \<in> set ls. CHR 0x0A \<notin> set l"
  shows "py_lines (concat (map (\<lambda>l. l @ [CHR 0x0A]) ls)) = ls"
proof -
  have "split_c CHR 0x0A (concat (map (\<lambda>l. l @ [CHR 0x0A]) ls)) = ls @ [[]]"
    using assms by (induction ls) (simp_all add: split_c_line)
  then show ?thesis by (simp add: py_lines_def)
qed

lemma strip_ends: "s \<noteq> [] \<Longrightarrow> \<not> p (hd s) \<Longrightarrow> \<not> p (last s) \<Longrightarrow> strip_p p s = s"
  by (simp add: strip_p_def lstrip_p_def rstrip_p_def dropWhile_stop_id hd_rev)

lemma py_isspace_ascii [simp]:
  "py_isspace CHR 0x09" "py_isspace CHR 0x0A" "py_isspace CHR '' ''" "\<not> py_isspace CHR ''[''" "\<not> py_isspace CHR '']''" "\<not> py_isspace CHR ''=''"
  by code_simp+

lemma header_line:
  assumes "n \<noteq> []"
  shows "cfg_line st (''['' @ n @ '']'') = Some (enter_section n (st\<lparr>cf_indent := 0\<rparr>))"
proof -
  have s: "py_strip (''['' @ n @ '']'') = ''['' @ n @ '']''" by (rule strip_ends) simp_all
  have h: "section_header (''['' @ n @ '']'') = Some n"
    using assms rpartition_c_append [of "CHR '']''" "[]" n] by (simp add: section_header_def)
  show ?thesis unfolding cfg_line_def Let_def s using h by (simp add: section_header_def)
qed

lemma option_line_parses:
  assumes "option_ok (k, v)"
  shows "option_line (k @ '' = '' @ v) = Some (k, v)"
proof -
  have w: "\<forall>c \<in> set k. \<not> is_delimiter c \<and> \<not> py_isspace c"
    using assms by (auto simp: option_ok_def list_all_iff word_char_def is_delimiter_def)
  have ds: "\<not> is_delimiter CHR '' ''" "is_delimiter CHR ''=''" by (simp_all add: is_delimiter_def)
  have k: "takeWhile (\<lambda>c. \<not> is_delimiter c) (k @ '' = '' @ v) = k @ '' ''"
    "dropWhile (\<lambda>c. \<not> is_delimiter c) (k @ '' = '' @ v) = ''= '' @ v"
    using w ds by (simp_all add: takeWhile_append2 dropWhile_append2)
  have r: "rstrip_p py_isspace (k @ '' '') = k"
    using w by (simp add: rstrip_p_def dropWhile_stop_id disj_commute) (metis dropWhile_stop_id hd_in_set rev_rev_ident set_rev)
  have "strip_p py_isspace ('' '' @ v) = strip_p py_isspace v" by (simp add: strip_p_def lstrip_p_def)
  also have "\<dots> = v" using assms by (intro strip_ends) (simp_all add: option_ok_def)
  finally have s: "strip_p py_isspace ('' '' @ v) = v" .
  have "list_ex is_delimiter (k @ '' = '' @ v)" using ds by (simp add: list_ex_iff)
  then show ?thesis unfolding option_line_def k r using s by simp
qed

lemma option_value_shape:
  assumes "option_ok (k, v)"
  shows "py_strip (CHR 0x09 # k @ '' = '' @ v) = k @ '' = '' @ v" and "k @ '' = '' @ v \<noteq> []"
    and "takeWhile py_isspace (CHR 0x09 # k @ '' = '' @ v) = [CHR 0x09]"
    and "\<not> prefix ''#'' (k @ '' = '' @ v)" and "\<not> prefix '';'' (k @ '' = '' @ v)" and "section_header (k @ '' = '' @ v) = None"
proof -
  obtain c k' where k: "k = c # k'" and c: "word_char c" using assms by (cases k) (auto simp: option_ok_def)
  have v: "v \<noteq> []" "\<not> py_isspace (last v)" using assms by (simp_all add: option_ok_def)
  have "py_strip (CHR 0x09 # k @ '' = '' @ v) = py_strip (k @ '' = '' @ v)" by (simp add: strip_p_def lstrip_p_def)
  also have "\<dots> = k @ '' = '' @ v" using c v k by (intro strip_ends) (simp_all add: word_char_def)
  finally show "py_strip (CHR 0x09 # k @ '' = '' @ v) = k @ '' = '' @ v" .
  show "k @ '' = '' @ v \<noteq> []" "takeWhile py_isspace (CHR 0x09 # k @ '' = '' @ v) = [CHR 0x09]"
    "\<not> prefix ''#'' (k @ '' = '' @ v)" "\<not> prefix '';'' (k @ '' = '' @ v)" "section_header (k @ '' = '' @ v) = None"
    using c k by (auto simp: word_char_def section_header_def)
qed

lemma option_line_step:
  assumes "option_ok (k, v)" and "cf_cur st = Some (Sect n)" and "cf_opt st = [] \<or> 1 \<le> cf_indent st"
  shows "cfg_line st (CHR 0x09 # k @ '' = '' @ v) = Some (set_option [v] (st\<lparr>cf_indent := 1, cf_opt := k\<rparr>))"
proof -
  have "k \<noteq> []" "py_lower k = k" using assms(1) by (simp_all add: option_ok_def)
  then show ?thesis
    unfolding cfg_line_def Let_def option_value_shape(1,3) [OF assms(1)] using assms(2,3) option_value_shape(2,4,5,6) [OF assms(1)]
      option_line_parses [OF assms(1)] by auto
qed

lemma dset_new: "k \<notin> fst ` set d \<Longrightarrow> dset k v d = d @ [(k, v)]"
  by (induction d) (auto simp: dset_def)

lemma dset_last: "k \<notin> fst ` set d \<Longrightarrow> dset k v (d @ [(k, w)]) = d @ [(k, v)]"
  by (induction d) (auto simp: dset_def)

lemma dget_last: "k \<notin> fst ` set d \<Longrightarrow> dget (d @ [(k, w)]) k = Some w"
  by (induction d) (auto simp: dget_def)

definition read_options :: "(string \<times> string) list \<Rightarrow> string list dict" where
  "read_options os = map (\<lambda>(k, v). (k, [v])) os"

lemma cfg_options:
  assumes "list_all option_ok os" and "distinct (map fst d @ map fst os)" and "cf_cur st = Some (Sect n)"
    and "cf_sections st = D @ [(n, d)]" and "n \<notin> fst ` set D" and "cf_opt st = [] \<or> 1 \<le> cf_indent st"
  shows "\<exists>st'. cfg_lines st (map (\<lambda>(k, v). CHR 0x09 # k @ '' = '' @ v) os @ rest) = cfg_lines st' rest
    \<and> cf_sections st' = D @ [(n, d @ read_options os)] \<and> cf_defaults st' = cf_defaults st \<and> cf_error st' = cf_error st"
  using assms
proof (induction os arbitrary: st d)
  case Nil
  then show ?case by (auto simp: read_options_def)
next
  case (Cons kv os)
  obtain k v where kv: "kv = (k, v)" by (cases kv)
  let ?t = "set_option [v] (st\<lparr>cf_indent := 1, cf_opt := k\<rparr>)"
  have step: "cfg_line st (CHR 0x09 # k @ '' = '' @ v) = Some ?t"
    using Cons.prems kv by (intro option_line_step) simp_all
  have new: "k \<notin> fst ` set d" using Cons.prems(2) kv by auto
  have t: "cf_sections ?t = D @ [(n, d @ [(k, [v])])]" "cf_cur ?t = Some (Sect n)" "1 \<le> cf_indent ?t"
    "cf_defaults ?t = cf_defaults st" "cf_error ?t = cf_error st"
    using Cons.prems(3-5) new by (simp_all add: set_option_def cur_options_def Let_def dget_last dset_last dset_new)
  have "\<exists>st'. cfg_lines ?t (map (\<lambda>(k, v). CHR 0x09 # k @ '' = '' @ v) os @ rest) = cfg_lines st' rest
      \<and> cf_sections st' = D @ [(n, (d @ [(k, [v])]) @ read_options os)] \<and> cf_defaults st' = cf_defaults ?t \<and> cf_error st' = cf_error ?t"
    using Cons.prems(1,2,5) kv t by (intro Cons.IH) auto
  then show ?case using step kv t by (simp add: read_options_def)
qed

lemma cfg_sections_read:
  assumes "list_all section_ok ss" and "distinct (map fst (cf_sections st) @ map fst ss)" and "\<not> cf_error st"
  shows "\<exists>st'. cfg_lines st (concat (map section_lines ss)) = Some st' \<and> \<not> cf_error st' \<and> cf_defaults st' = cf_defaults st
    \<and> cf_sections st' = cf_sections st @ map (\<lambda>(n, os). (n, read_options os)) ss"
  using assms
proof (induction ss arbitrary: st)
  case (Cons s ss)
  obtain n os where s: "s = (n, os)" by (cases s)
  have ok: "n \<noteq> []" "n \<noteq> ''DEFAULT''" "list_all option_ok os" "distinct (map fst os)" "n \<notin> fst ` set (cf_sections st)"
    using Cons.prems s by (auto simp: section_ok_def)
  let ?h = "enter_section n (st\<lparr>cf_indent := 0\<rparr>)"
  have get: "dget (cf_sections st) n = None" using ok(5) by (simp add: dget_def map_of_eq_None_iff)
  have h: "cf_cur ?h = Some (Sect n)" "cf_sections ?h = cf_sections st @ [(n, [])]" "cf_opt ?h = []"
    "cf_defaults ?h = cf_defaults st" "cf_error ?h = cf_error st"
    using get ok by (simp_all add: enter_section_def dset_new)
  obtain st1 where st1: "cfg_lines ?h (map (\<lambda>(k, v). CHR 0x09 # k @ '' = '' @ v) os @ concat (map section_lines ss))
        = cfg_lines st1 (concat (map section_lines ss))"
      "cf_sections st1 = cf_sections st @ [(n, [] @ read_options os)]" "cf_defaults st1 = cf_defaults st" "cf_error st1 = cf_error st"
    using cfg_options [of os "[]" ?h n "cf_sections st"] ok h by auto
  have "\<exists>st'. cfg_lines st1 (concat (map section_lines ss)) = Some st' \<and> \<not> cf_error st' \<and> cf_defaults st' = cf_defaults st1
    \<and> cf_sections st' = cf_sections st1 @ map (\<lambda>(n, os). (n, read_options os)) ss"
    using Cons.prems s st1 by (intro Cons.IH) auto
  moreover have "section_lines s = (''['' @ n @ '']'') # map (\<lambda>(k, v). CHR 0x09 # k @ '' = '' @ v) os"
    by (simp add: section_lines_def s)
  ultimately show ?case using st1 s header_line [OF ok(1), of st] by auto
qed simp

lemma read_config_text:
  assumes "config_ok ss"
  obtains st where "read_config (config_text ss) = Some st" and "cf_defaults st = []"
    and "cf_sections st = map (\<lambda>(n, os). (n, read_options os)) ss"
proof -
  have "py_isspace CHR 0x0A" by simp
  then have "\<not> word_char CHR 0x0A" unfolding word_char_def by blast
  then have "CHR 0x0A \<notin> set k" if "list_all word_char k" for k
    using that unfolding list_all_iff by blast
  then have opt: "CHR 0x0A \<notin> set (CHR 0x09 # k @ '' = '' @ v)" if "option_ok (k, v)" for k v
    using that by (simp add: option_ok_def)
  have "CHR 0x0A \<notin> set l" if "section_ok s" "l \<in> set (section_lines s)" for s l
    using that opt by (auto simp: section_ok_def section_lines_def list_all_iff)
  then have "\<forall>l \<in> set (concat (map section_lines ss)). CHR 0x0A \<notin> set l"
    using assms unfolding config_ok_def list_all_iff by auto
  then have lines: "py_lines (config_text ss) = concat (map section_lines ss)" unfolding config_text_def by (rule py_lines_text)
  have start: "cf_sections cfg_start = []" "cf_defaults cfg_start = []" "\<not> cf_error cfg_start" by (simp_all add: cfg_start_def)
  have "list_all section_ok ss" "distinct (map fst (cf_sections cfg_start) @ map fst ss)"
    using assms start by (simp_all add: config_ok_def)
  from cfg_sections_read [OF this start(3)] start obtain st where
    "cfg_lines cfg_start (concat (map section_lines ss)) = Some st" "\<not> cf_error st" "cf_defaults st = []"
    "cf_sections st = map (\<lambda>(n, os). (n, read_options os)) ss" by auto
  then show thesis using that lines by (simp add: read_config_def)
qed

lemma interpolate_plain: "CHR ''%'' \<notin> set v \<Longrightarrow> interpolate get depth v = Some v"
  by (induction v) auto

text \<open>The remote of a configuration file: the section of origin if there is one, else the first remote.\<close>

definition remote_of :: "git_section list \<Rightarrow> git_section option" where
  "remote_of ss =
     (case find (\<lambda>s. fst s = origin_section) ss of Some s \<Rightarrow> Some s | None \<Rightarrow> find (\<lambda>s. prefix remote_prefix (fst s)) ss)"

lemma raw_value_read:
  assumes "cf_defaults st = []" and "cf_sections st = map (\<lambda>(n, os). (n, read_options os)) ss" and "distinct (map fst ss)"
    and "(n, os) \<in> set ss" and "map_of os k = Some v" and "v \<noteq> []" and "\<not> py_isspace (last v)"
  shows "raw_value st n k = Some v"
proof -
  have "map_of ss n = Some os" using assms(3,4) by simp
  then have "dget (cf_sections st) n = Some (read_options os)" using assms(2) by (simp add: dget_def map_of_map)
  moreover have "dget (read_options os) k = Some [v]" using assms(5) by (simp add: dget_def read_options_def map_of_map)
  ultimately show ?thesis using assms(6,7) by (simp add: raw_value_def rstrip_p_def hd_rev dropWhile_stop_id)
qed

lemma remote_section:
  assumes "remote_of ss = Some (n, os)"
  shows "(n, os) \<in> set ss" and "\<exists>r rs. filter (prefix remote_prefix) (map fst ss) = r # rs \<and> (if origin_section \<in> set (r # rs) then origin_section else r) = n"
proof -
  have origin: "prefix remote_prefix origin_section" by (simp add: origin_section_def)
  show "(n, os) \<in> set ss" using assms by (auto simp: remote_of_def find_Some_iff split: option.splits)
  show "\<exists>r rs. filter (prefix remote_prefix) (map fst ss) = r # rs \<and> (if origin_section \<in> set (r # rs) then origin_section else r) = n"
  proof (cases "find (\<lambda>s. fst s = origin_section) ss")
    case None
    then have no: "origin_section \<notin> fst ` set ss" by (auto simp: find_None_iff)
    have "find (\<lambda>s. prefix remote_prefix (fst s)) ss = Some (n, os)" using assms None by (simp add: remote_of_def)
    then have hd: "filter (prefix remote_prefix) (map fst ss) = n # filter (prefix remote_prefix) (map fst (tl (dropWhile (\<lambda>s. \<not> prefix remote_prefix (fst s)) ss)))"
      by (induction ss) (auto split: if_splits)
    then have "origin_section \<notin> set (n # filter (prefix remote_prefix) (map fst (tl (dropWhile (\<lambda>s. \<not> prefix remote_prefix (fst s)) ss))))"
      using no by (metis filter_is_subset image_set subset_code(1))
    then show ?thesis using hd by auto
  next
    case (Some s)
    then have "s = (n, os)" using assms by (simp add: remote_of_def)
    moreover have "fst s = origin_section" using Some by (auto simp: find_Some_iff)
    ultimately have "n = origin_section" by simp
    then have "origin_section \<in> set (filter (prefix remote_prefix) (map fst ss))" using \<open>(n, os) \<in> set ss\<close> origin by force
    then show ?thesis using \<open>n = origin_section\<close> by (cases "filter (prefix remote_prefix) (map fst ss)") auto
  qed
qed


definition sample_config :: "string \<Rightarrow> git_section list" where
  "sample_config u = [(''core'', [(''bare'', ''false'')]), (origin_section, [(''url'', u), (''fetch'', ''+refs/heads/*:refs/remotes/origin/*'')])]"

definition config_fs :: "string \<Rightarrow> detector_fs" where
  "config_fs u = sample_repo\<lparr>df_file := (\<lambda>p. if p = ''/w/.git/config'' then Some (Inr (config_text (sample_config u))) else None)\<rparr>"


text \<open>A remote with an escaped character is not recorded: the parser takes the percent sign for an interpolation.\<close>

lemma percent_remote_lost: "git_remote_url (config_fs ''https://h.io/My%20Repo.git'') ''/w/.git'' = None"
  by code_simp

end
