(* ===== verification/DetectorHooks.thy ===== *)
theory DetectorHooks
  imports DetectorOutput DetectorGit
begin

text \<open>
  The hooks of \<^verbatim>\<open>scripts/aibom-scripts/runtime_detector.py\<close>: what they record of the objects that the frameworks build. The
  recorded entries are shared objects, so the state has them in a list and the two registries refer to them by
  position. The objects of the frameworks are records of the attributes that the hooks read.
\<close>

subsection \<open>State\<close>

text \<open>The key of a Hugging Face data set: builder, configuration, split and cache directory.\<close>

type_synonym hf_key = "string \<times> string option \<times> string option \<times> string option"

text \<open>\<open>hs_objects\<close> is \<^verbatim>\<open>_dataset_registry\<close> by the identity of the object, \<open>hs_keys\<close> is \<^verbatim>\<open>_hf_dataset_key_registry\<close>, where
  \<^term>\<open>Some None\<close> is a key that two loads share.\<close>

record hook_state =
  hs_entries :: "entry list"
  hs_objects :: "nat \<Rightarrow> nat option"
  hs_keys :: "hf_key \<Rightarrow> nat option option"

text \<open>A data set object: its identity, whether it can be weakly referenced, and the attributes behind the key. \<open>ho_cache\<close> is the
  file name of the first cache file.\<close>

record hf_object =
  ho_id :: nat
  ho_weak :: bool
  ho_builder :: "string option"
  ho_config :: "string option"
  ho_split :: "string option"
  ho_cache :: "string option"
  ho_train :: "bool option"

definition hf_dataset_key :: "hf_object \<Rightarrow> hf_key option" where
  "hf_dataset_key obj =
     (case nonempty (ho_builder obj) of
        None \<Rightarrow> None
      | Some b \<Rightarrow> Some (b, ho_config obj, ho_split obj, nonempty (map_option dirname (ho_cache obj))))"

definition register_object :: "hf_object \<Rightarrow> nat \<Rightarrow> hook_state \<Rightarrow> hook_state" where
  "register_object obj e st = (if ho_weak obj then st\<lparr>hs_objects := (hs_objects st)(ho_id obj \<mapsto> e)\<rparr> else st)"

definition register_hf_dataset :: "hf_object \<Rightarrow> nat \<Rightarrow> hook_state \<Rightarrow> hook_state" where
  "register_hf_dataset obj e st =
     (let st' = register_object obj e st
      in case hf_dataset_key obj of
           None \<Rightarrow> st'
         | Some k \<Rightarrow> st'\<lparr>hs_keys := (hs_keys st)(k \<mapsto> (if hs_keys st k \<in> {None, Some (Some e)} then Some e else None))\<rparr>)"

definition record_entry :: "entry \<Rightarrow> hook_state \<Rightarrow> hook_state" where
  "record_entry e st = st\<lparr>hs_entries := hs_entries st @ [e]\<rparr>"

text \<open>Optional fields: set if there is a value.\<close>

definition add_text :: "string \<Rightarrow> string option \<Rightarrow> entry \<Rightarrow> entry" where
  "add_text k v d = (case nonempty v of Some s \<Rightarrow> dset k (VStr s) d | None \<Rightarrow> d)"

subsection \<open>DataLoader\<close>

text \<open>The attributes of a data set that \<^verbatim>\<open>_inspect_torch_dataset\<close> reads: \<open>to_paths\<close> are those of \<^verbatim>\<open>root\<close>, \<^verbatim>\<open>data_path\<close>,
  \<^verbatim>\<open>data_dir\<close>, \<^verbatim>\<open>filename\<close> and \<^verbatim>\<open>path\<close>; an attribute that may be missing is an option.\<close>

datatype urls = UrlList "string list" | UrlDict "(string \<times> string) list" | OtherUrls

record torch_object =
  to_class :: string
  to_class_name :: string
  to_paths :: "string option list"
  to_train :: "bool option"
  to_transform :: "string option option"
  to_name :: "string option"
  to_url :: "string option"
  to_urls :: "urls option"

definition inspect_torch_dataset :: "(string \<Rightarrow> string option) \<Rightarrow> torch_object \<Rightarrow> entry" where
  "inspect_torch_dataset fingerprint t =
     (let e0 = [(''source'', VStr ''torch.utils.data.DataLoader''), (''dataset_class'', VStr (to_class t))];
          found = first_some id (to_paths t);
          e1 = (case found of Some p \<Rightarrow> dset ''path'' (VStr p) e0 | None \<Rightarrow> e0);
          e2 = (case to_train t of Some b \<Rightarrow> dset ''split'' (VStr (if b then ''train'' else ''test'')) e1 | None \<Rightarrow> e1);
          e3 = (case to_transform t of Some n \<Rightarrow> dset ''transform'' (case n of Some s \<Rightarrow> VStr s | None \<Rightarrow> VNone) e2 | None \<Rightarrow> e2);
          e4 = dset ''dataset_name'' (VStr (case nonempty (to_name t) of Some n \<Rightarrow> n | None \<Rightarrow> to_class_name t)) e3;
          e5 = (case to_url t of Some u \<Rightarrow> dset ''url'' (VStr u) e4 | None \<Rightarrow> e4);
          e6 = (case to_urls t of
                  Some (UrlList us) \<Rightarrow> dset ''urls'' (VList (map VStr (take 5 us))) e5
                | Some (UrlDict us) \<Rightarrow> dset ''urls'' (VDict (map (\<lambda>(k, v). (k, VStr v)) (take 5 us))) e5
                | _ \<Rightarrow> e5)
      in add_text ''fingerprint'' (Option.bind (nonempty found) fingerprint) e6)"

text \<open>The recorded entry that a data set belongs to: by identity, else by key.\<close>

definition existing_entry :: "hook_state \<Rightarrow> hf_object \<Rightarrow> nat option" where
  "existing_entry st obj =
     (case hs_objects st (ho_id obj) of
        Some e \<Rightarrow> Some e
      | None \<Rightarrow> Option.bind (hf_dataset_key obj) (\<lambda>k. Option.bind (hs_keys st k) id))"

definition loader_name :: pyval where
  "loader_name = VStr ''torch.utils.data.DataLoader''"

definition is_train_split :: "hf_object \<Rightarrow> bool" where
  "is_train_split obj \<longleftrightarrow> (case ho_split obj of Some s \<Rightarrow> prefix ''train'' s | None \<Rightarrow> False) \<or> ho_train obj = Some True"

definition merge_loader :: "hf_object \<Rightarrow> int option \<Rightarrow> entry \<Rightarrow> entry" where
  "merge_loader obj batch e =
     (let e1 = (case batch of
                  Some b \<Rightarrow> if dget e ''batch_size'' = None \<or> is_train_split obj then dset ''batch_size'' (VInt b) e else e
                | None \<Rightarrow> e);
          seen = seen_via e1
      in dset ''seen_via'' (VList (if loader_name \<in> set seen then seen else seen @ [loader_name])) e1)"

text \<open>\<^verbatim>\<open>DataLoader._patched_init\<close>. The lookup of an object that cannot be weakly referenced raises, and nothing is recorded;
  \<^const>\<open>None\<close> is a loader without a data set.\<close>

definition dataloader_init :: "(string \<Rightarrow> string option) \<Rightarrow> hf_object option \<Rightarrow> torch_object \<Rightarrow> int option \<Rightarrow> hook_state \<Rightarrow> hook_state" where
  "dataloader_init fingerprint dataset t batch st =
     (let new = (case batch of Some b \<Rightarrow> dset ''batch_size'' (VInt b) (inspect_torch_dataset fingerprint t)
                 | None \<Rightarrow> inspect_torch_dataset fingerprint t)
      in case dataset of
           None \<Rightarrow> record_entry new st
         | Some obj \<Rightarrow>
             (if \<not> ho_weak obj then st
              else (case existing_entry st obj of
                      Some e \<Rightarrow> st\<lparr>hs_entries := (hs_entries st)[e := merge_loader obj batch (hs_entries st ! e)]\<rparr>
                    | None \<Rightarrow> record_entry new st)))"

subsection \<open>load_dataset\<close>

definition file_builders :: "string list" where
  "file_builders = [''json'', ''csv'', ''parquet'', ''text'', ''arrow'', ''pandas'', ''xml'',
     ''imagefolder'', ''audiofolder'', ''videofolder'', ''webdataset'']"

datatype data_files = OneFile string | Files "string list" | SplitFiles "(string \<times> (string + string list)) list"

record load_call =
  lc_path :: string
  lc_name :: "string option"
  lc_split :: "string option"
  lc_revision :: "string option"
  lc_data_dir :: "string option"
  lc_data_files :: "data_files option"

text \<open>The recorded \<^verbatim>\<open>data_files\<close> and the list of files in them.\<close>

definition recorded_files :: "data_files \<Rightarrow> pyval" where
  "recorded_files fs =
     (case fs of
        OneFile f \<Rightarrow> VList [VStr f]
      | Files l \<Rightarrow> VList (map VStr (take 10 l))
      | SplitFiles d \<Rightarrow> VDict (map (\<lambda>(k, v). (k, case v of Inl f \<Rightarrow> VStr f | Inr l \<Rightarrow> VList (map VStr l))) d))"

definition files_of :: "data_files \<Rightarrow> string list" where
  "files_of fs =
     (case fs of
        OneFile f \<Rightarrow> [f]
      | Files l \<Rightarrow> take 10 l
      | SplitFiles d \<Rightarrow> concat (map (\<lambda>(k, v). case v of Inl f \<Rightarrow> [f] | Inr l \<Rightarrow> l) d))"

text \<open>An empty string, list or dictionary is no \<^verbatim>\<open>data_files\<close>.\<close>

definition given_files :: "load_call \<Rightarrow> data_files option" where
  "given_files c = (case lc_data_files c of
     Some (OneFile []) \<Rightarrow> None | Some (Files []) \<Rightarrow> None | Some (SplitFiles []) \<Rightarrow> None | fs \<Rightarrow> fs)"

fun common_prefix :: "string \<Rightarrow> string \<Rightarrow> string" where
  "common_prefix (a # s) (b # t) = (if a = b then a # common_prefix s t else [])"
| "common_prefix _ _ = []"

definition data_files_name :: "data_files option \<Rightarrow> string option \<Rightarrow> string option" where
  "data_files_name fs data_dir =
     (case (case fs of Some f \<Rightarrow> files_of f | None \<Rightarrow> []) of
        [] \<Rightarrow> data_dir
      | [f] \<Rightarrow> Some f
      | f # g # l \<Rightarrow>
          (let dir = fst (rpartition_c CHR ''/'' (foldl common_prefix f (g # l)))
           in Some (if dir \<noteq> [] then dir else join_str '', '' (f # g # l))))"

text \<open>The metadata of the loaded data set, of the first one in a dictionary of splits. \<open>di_checksum\<close> is the checksum of the
  first download, if there is a download record.\<close>

record dataset_info =
  di_fingerprint :: "string option"
  di_checksum :: "pyval option"
  di_version :: "string option"
  di_license :: "string option"
  di_description :: "string option"

record load_result =
  lr_parts :: "hf_object list"
  lr_splits :: "string list option"
  lr_info :: dataset_info

definition call_entry :: "load_call \<Rightarrow> entry" where
  "call_entry c =
     (let e = add_text ''data_dir'' (lc_data_dir c) (add_text ''revision'' (lc_revision c) (add_text ''split'' (lc_split c)
                (add_text ''config_name'' (lc_name c) [(''source'', VStr ''datasets.load_dataset''), (''dataset_name'', VStr (lc_path c))])));
          e' = (case given_files c of Some fs \<Rightarrow> dset ''data_files'' (recorded_files fs) e | None \<Rightarrow> e)
      in if lc_path c \<notin> set file_builders then e'
         else (case nonempty (data_files_name (given_files c) (nonempty (lc_data_dir c))) of
                 Some n \<Rightarrow> dset ''dataset_name'' (VStr n) (dset ''builder'' (VStr (lc_path c)) e')
               | None \<Rightarrow> e'))"

definition load_entry :: "load_call \<Rightarrow> load_result \<Rightarrow> entry" where
  "load_entry c r =
     (let i = lr_info r;
          e1 = (case lr_splits r of Some ss \<Rightarrow> dset ''splits'' (VList (map VStr ss)) (call_entry c) | None \<Rightarrow> call_entry c);
          e2 = (case (di_fingerprint i, di_checksum i) of
                  (Some f, _) \<Rightarrow> dset ''fingerprint'' (VStr f) e1
                | (None, Some v) \<Rightarrow> dset ''fingerprint'' v e1
                | _ \<Rightarrow> e1)
      in add_text ''description'' (map_option (take 200) (di_description i))
           (add_text ''license'' (di_license i) (add_text ''version'' (di_version i) e2)))"

definition load_dataset :: "load_call \<Rightarrow> load_result \<Rightarrow> hook_state \<Rightarrow> hook_state" where
  "load_dataset c r st =
     fold (\<lambda>part. register_hf_dataset part (length (hs_entries st))) (lr_parts r) (record_entry (load_entry c r) st)"

subsection \<open>torchvision and webdataset\<close>

definition torchvision_datasets :: "string list" where
  "torchvision_datasets = [''MNIST'', ''FashionMNIST'', ''KMNIST'', ''EMNIST'', ''CIFAR10'', ''CIFAR100'', ''ImageNet'', ''ImageFolder'',
     ''DatasetFolder'', ''CelebA'', ''LSUN'', ''STL10'', ''SVHN'', ''VOCDetection'', ''VOCSegmentation'', ''CocoDetection'',
     ''CocoCaptions'', ''Flickr8k'', ''Flickr30k'', ''Places365'']"

text \<open>The arguments of a constructor: positional ones as text and whether they are booleans, keywords by name.\<close>

record tv_call =
  tv_args :: "(string \<times> bool option) list"
  tv_root :: "string option"
  tv_train :: "bool option"
  tv_split :: "string option"
  tv_download :: "pyval option"

definition split_name :: "bool \<Rightarrow> pyval" where
  "split_name b = VStr (if b then ''train'' else ''test'')"

definition torchvision_entry :: "(string \<Rightarrow> string option) \<Rightarrow> string \<Rightarrow> tv_call \<Rightarrow> entry" where
  "torchvision_entry fingerprint name c =
     (let root = (case tv_args c of (a, _) # _ \<Rightarrow> Some a | [] \<Rightarrow> tv_root c);
          e0 = [(''source'', VStr (''torchvision.datasets.'' @ name)), (''dataset_name'', VStr name)];
          e1 = (case root of Some r \<Rightarrow> dset ''root'' (VStr r) e0 | None \<Rightarrow> e0);
          e2 = (case (tv_train c, tv_args c) of
                  (Some b, _) \<Rightarrow> dset ''split'' (split_name b) e1
                | (None, _ # (_, Some b) # _) \<Rightarrow> dset ''split'' (split_name b) e1
                | _ \<Rightarrow> e1);
          e3 = (case tv_split c of Some s \<Rightarrow> dset ''split'' (VStr s) e2 | None \<Rightarrow> e2);
          e4 = (case tv_download c of Some v \<Rightarrow> dset ''download'' v e3 | None \<Rightarrow> e3)
      in add_text ''fingerprint'' (Option.bind (nonempty root) fingerprint) e4)"

text \<open>The patched \<^verbatim>\<open>__init__\<close> of class \<open>owner\<close>, run for an object with the given method resolution order: only the most derived
  patched class records.\<close>

definition torchvision_init ::
  "(string \<Rightarrow> string option) \<Rightarrow> string set \<Rightarrow> string list \<Rightarrow> hf_object \<Rightarrow> tv_call \<Rightarrow> string \<Rightarrow> hook_state \<Rightarrow> hook_state" where
  "torchvision_init fingerprint patched mro obj c owner st =
     (if find (\<lambda>k. k \<in> patched) mro \<noteq> Some owner then st
      else register_object obj (length (hs_entries st)) (record_entry (torchvision_entry fingerprint owner c) st))"

definition webdataset_init :: "urls \<Rightarrow> hook_state \<Rightarrow> hook_state" where
  "webdataset_init us st =
     (let e = [(''source'', VStr ''webdataset.WebDataset''), (''dataset_name'', VStr ''WebDataset'')]
      in record_entry (case us of UrlList l \<Rightarrow> dset ''urls'' (VList (map VStr (take 10 l))) e | _ \<Rightarrow> e) st)"

subsection \<open>transformers and peft\<close>

text \<open>The attributes of \<^verbatim>\<open>TrainingArguments\<close>; \<open>ta_optim\<close> is the value of the enumeration member or its text.\<close>

record training_args =
  ta_learning_rate :: "pyval option"
  ta_batch_size :: "pyval option"
  ta_epochs :: "pyval option"
  ta_optim :: "string option"
  ta_seed :: "pyval option"
  ta_bf16 :: bool
  ta_fp16 :: bool

definition add_value :: "string \<Rightarrow> pyval option \<Rightarrow> pyval dict \<Rightarrow> pyval dict" where
  "add_value k v d = (case v of Some w \<Rightarrow> dset k w d | None \<Rightarrow> d)"

definition training_args_info :: "training_args \<Rightarrow> pyval dict" where
  "training_args_info t =
     (let d = add_value ''random_seed'' (ta_seed t) (add_value ''optimizer'' (map_option VStr (ta_optim t))
                (add_value ''epochs'' (ta_epochs t) (add_value ''batch_size'' (ta_batch_size t)
                  (add_value ''learning_rate'' (ta_learning_rate t) [(''training_framework'', VStr ''transformers.Trainer'')]))))
      in if ta_bf16 t then dset ''mixed_precision'' (VStr ''bf16'') d
         else if ta_fp16 t then dset ''mixed_precision'' (VStr ''fp16'') d else d)"

text \<open>How many accelerators a device map uses, from the texts of its values; \<^const>\<open>None\<close> if it is unresolved.\<close>

definition strip_cuda :: "string \<Rightarrow> string" where
  "strip_cuda v = (let d = (if prefix ''cuda:'' v then drop 5 v else v) in if d = ''cuda'' then ''0'' else d)"

definition gpu_device_count :: "string list \<Rightarrow> nat option" where
  "gpu_device_count vs =
     (if list_ex (\<lambda>v. v \<in> set [''auto'', ''balanced'', ''balanced_low_0'', ''sequential'']) vs then None
      else Some (card (strip_cuda ` set (filter (\<lambda>v. v \<notin> set [''cpu'', ''disk'', ''meta'']) vs))))"

definition quant_class_name_hints :: "(string \<times> string) list" where
  "quant_class_name_hints = [(''BitsAndBytes'', ''bitsandbytes''), (''GPTQ'', ''gptq''), (''AWQ'', ''awq''), (''HQQ'', ''hqq''), (''AQLM'', ''aqlm'')]"

record quant_config =
  qc_method :: "string option"
  qc_4bit :: bool
  qc_8bit :: bool
  qc_class :: string
  qc_bits :: "pyval option"

definition quant_method :: "quant_config \<Rightarrow> string option" where
  "quant_method q =
     (case nonempty (qc_method q) of
        Some m \<Rightarrow> Some m
      | None \<Rightarrow>
          (if qc_4bit q \<or> qc_8bit q then Some ''bitsandbytes''
           else map_option snd (find (\<lambda>(needle, _). py_in (py_lower needle) (py_lower (qc_class q))) quant_class_name_hints)))"

definition quant_bits :: "quant_config \<Rightarrow> pyval option" where
  "quant_bits q = (case qc_bits q of Some b \<Rightarrow> Some b | None \<Rightarrow> if qc_4bit q then Some (VInt 4) else if qc_8bit q then Some (VInt 8) else None)"

text \<open>What is recorded of a loaded model: the name, the device map as text with the texts of its devices, the first architecture,
  the dtype and the quantization.\<close>

record loaded_model =
  lm_name :: string
  lm_device_map :: "(string \<times> string list) option"
  lm_architecture :: "string option"
  lm_dtype :: "string option"
  lm_quant :: "quant_config option"

definition model_info :: "loaded_model \<Rightarrow> pyval dict" where
  "model_info m =
     (let d0 = [(''model_name'', VStr (lm_name m))];
          d1 = (case lm_device_map m of
                  Some (text, devices) \<Rightarrow>
                    add_value ''model_device_count'' (map_option (VInt \<circ> int) (gpu_device_count devices))
                      (dset ''model_device_map'' (VStr text) d0)
                | None \<Rightarrow> d0);
          d2 = add_value ''dtype'' (map_option (\<lambda>t. VStr (replace_all ''torch.'' [] t)) (lm_dtype m))
                 (add_value ''model_architecture'' (map_option VStr (lm_architecture m)) d1)
      in case lm_quant m of
           Some q \<Rightarrow> add_value ''quantization_bits'' (quant_bits q) (add_text ''quantization_method'' (quant_method q) d2)
         | None \<Rightarrow> d2)"

text \<open>Calls of \<^verbatim>\<open>from_pretrained\<close>: a load runs the loads nested in it and then returns a model or raises. The state is whether
  the first load is claimed, and what was recorded.\<close>

datatype model_load = ModelLoad "model_load list" "loaded_model option"

fun from_pretrained :: "model_load \<Rightarrow> bool \<times> loaded_model list \<Rightarrow> bool \<times> loaded_model list"
  and from_pretrained_all :: "model_load list \<Rightarrow> bool \<times> loaded_model list \<Rightarrow> bool \<times> loaded_model list" where
  "from_pretrained (ModelLoad nested result) (claimed, done_loads) =
     (let (claimed', loads) = from_pretrained_all nested (True, done_loads)
      in case result of
           None \<Rightarrow> (if claimed then claimed' else False, loads)
         | Some m \<Rightarrow> (claimed', if claimed then loads else loads @ [m]))"
| "from_pretrained_all [] s = s"
| "from_pretrained_all (l # ls) s = from_pretrained_all ls (from_pretrained l s)"

record lora_config =
  lo_rank :: "pyval option"
  lo_alpha :: "pyval option"
  lo_dora :: bool
  lo_rslora :: bool

definition lora_info :: "lora_config \<Rightarrow> pyval dict" where
  "lora_info c =
     dset ''adaptation_method'' (VStr (if lo_dora c then ''dora'' else if lo_rslora c then ''rslora'' else ''lora''))
       (add_value ''lora_alpha'' (lo_alpha c) (add_value ''lora_rank'' (lo_rank c) []))"

subsection \<open>Installing hooks after an import\<close>

text \<open>\<^verbatim>\<open>_PostImportHookFinder\<close>: the modules whose hook is pending, whether the finder is on the meta path, and the hooks that
  have run. \<open>fire\<close> claims a hook under the lock, so it is one step; running the hook may import and fire other modules.\<close>

record finder =
  fi_pending :: "string list"
  fi_on_path :: bool
  fi_run :: "string list"

definition lazy_triggers :: "string list" where
  "lazy_triggers = [''torch'', ''datasets'', ''torchvision'', ''webdataset'', ''transformers'', ''peft'']"

definition claim :: "string \<Rightarrow> finder \<Rightarrow> bool \<times> finder" where
  "claim name f =
     (let pending = remove1 name (fi_pending f)
      in (name \<in> set (fi_pending f), f\<lparr>fi_pending := pending, fi_on_path := fi_on_path f \<and> pending \<noteq> []\<rparr>))"

definition fire :: "string \<Rightarrow> finder \<Rightarrow> finder" where
  "fire name f = (let (got, g) = claim name f in if got then g\<lparr>fi_run := fi_run g @ [name]\<rparr> else g)"

definition install_hooks_lazy :: "string set \<Rightarrow> finder" where
  "install_hooks_lazy imported =
     (let already = filter (\<lambda>m. m \<in> imported) lazy_triggers
      in fold fire already \<lparr>fi_pending = lazy_triggers, fi_on_path = length already < length lazy_triggers, fi_run = []\<rparr>)"

text \<open>\<open>find_spec\<close> only takes part in imports whose hook is pending, and not while it is asking the other finders itself.\<close>

definition finds_spec :: "finder \<Rightarrow> string set \<Rightarrow> string \<Rightarrow> bool" where
  "finds_spec f resolving name \<longleftrightarrow> fi_on_path f \<and> name \<in> set (fi_pending f) \<and> name \<notin> resolving"

subsection \<open>Attribution of a data loader\<close>

definition no_hooks :: hook_state where
  "no_hooks = \<lparr>hs_entries = [], hs_objects = (\<lambda>_. None), hs_keys = (\<lambda>_. None)\<rparr>"

text \<open>The registrations of all loads so far, in order.\<close>

definition register_all :: "(hf_object \<times> nat) list \<Rightarrow> hook_state \<Rightarrow> hook_state" where
  "register_all rs st = fold (\<lambda>(obj, e). register_hf_dataset obj e) rs st"

text \<open>The entries under which a key was registered.\<close>

definition key_entries :: "(hf_object \<times> nat) list \<Rightarrow> hf_key \<Rightarrow> nat set" where
  "key_entries rs k = {e. \<exists>obj. (obj, e) \<in> set rs \<and> hf_dataset_key obj = Some k}"

lemma register_keys:
  "hs_keys (register_hf_dataset obj e st) k =
     (if hf_dataset_key obj = Some k then Some (if hs_keys st k \<in> {None, Some (Some e)} then Some e else None) else hs_keys st k)"
  by (auto simp: register_hf_dataset_def register_object_def Let_def split: option.split)

lemma register_objects:
  "hs_objects (register_hf_dataset obj e st) i = (if ho_weak obj \<and> ho_id obj = i then Some e else hs_objects st i)"
  by (auto simp: register_hf_dataset_def register_object_def Let_def split: option.split)

lemma register_all_keys:
  "hs_keys (register_all rs no_hooks) k =
     (if key_entries rs k = {} then None else if \<exists>e. key_entries rs k = {e} then Some (Some (the_elem (key_entries rs k))) else Some None)"
proof (induction rs rule: rev_induct)
  case Nil
  then show ?case by (simp add: register_all_def key_entries_def no_hooks_def)
next
  case (snoc r rs)
  obtain obj e where r: "r = (obj, e)" by (cases r)
  let ?K = "key_entries rs k"
  have keys: "hs_keys (register_all (rs @ [r]) no_hooks) k =
      (if hf_dataset_key obj = Some k
       then Some (if hs_keys (register_all rs no_hooks) k \<in> {None, Some (Some e)} then Some e else None)
       else hs_keys (register_all rs no_hooks) k)"
    using register_keys [of obj e "register_all rs no_hooks" k] by (simp add: register_all_def r)
  have ents: "key_entries (rs @ [r]) k = (if hf_dataset_key obj = Some k then insert e ?K else ?K)"
    by (auto simp: key_entries_def r)
  show ?case
  proof (cases "hf_dataset_key obj = Some k")
    case True
    consider "?K = {}" | f where "?K = {f}" | "?K \<noteq> {}" "\<nexists>f. ?K = {f}" by blast
    then show ?thesis
    proof cases
      case 3
      then have "\<nexists>f. insert e ?K = {f}" by (metis insert_not_empty singleton_insert_inj_eq subset_singletonD insert_subset order_refl subset_insertI)
      then show ?thesis using True keys ents snoc.IH 3 by simp
    qed (use True keys ents snoc.IH in \<open>auto simp: insert_eq_iff doubleton_eq_iff\<close>)
  qed (use keys ents snoc.IH in simp)
qed

text \<open>C17: A data loader over a transformed copy of a loaded data set is attributed to a recorded load exactly if that is the only
  load with a data set of the same builder, configuration, split and cache directory; a key that two loads share
  attributes nothing.\<close>

theorem loader_attribution:
  assumes "hs_objects (register_all rs no_hooks) (ho_id obj) = None" and "hf_dataset_key obj = Some k"
  shows "existing_entry (register_all rs no_hooks) obj = Some e \<longleftrightarrow> key_entries rs k = {e}"
proof -
  have "existing_entry (register_all rs no_hooks) obj = Option.bind (hs_keys (register_all rs no_hooks) k) id"
    using assms by (simp add: existing_entry_def)
  moreover consider "key_entries rs k = {}" | f where "key_entries rs k = {f}"
    | "key_entries rs k \<noteq> {}" "\<nexists>f. key_entries rs k = {f}" by blast
  then have "Option.bind (hs_keys (register_all rs no_hooks) k) id = Some e \<longleftrightarrow> key_entries rs k = {e}"
  proof cases
    case (2 f)
    then have "hs_keys (register_all rs no_hooks) k = Some (Some f)" using register_all_keys [of rs k] by simp
    then show ?thesis using 2 by simp
  qed (use register_all_keys [of rs k] in simp_all)
  ultimately show ?thesis by simp
qed

definition sample_part :: "nat \<Rightarrow> string \<Rightarrow> hf_object" where
  "sample_part i split = \<lparr>ho_id = i, ho_weak = True, ho_builder = Some ''glue'', ho_config = Some ''mrpc'', ho_split = Some split,
     ho_cache = Some ''/c/a.arrow'', ho_train = None\<rparr>"

theorem loader_attribution_witness:
  "existing_entry (register_all [(sample_part 1 ''train'', 0), (sample_part 2 ''test'', 0), (sample_part 3 ''test'', 1)] no_hooks)
     (sample_part 9 ''train'') = Some 0"
proof -
  let ?rs = "[(sample_part 1 ''train'', 0), (sample_part 2 ''test'', 0), (sample_part 3 ''test'', 1)]"
  have k: "hf_dataset_key (sample_part 9 ''train'') = Some (''glue'', Some ''mrpc'', Some ''train'', Some ''/c'')" by code_simp
  have "hs_objects (register_all ?rs no_hooks) (ho_id (sample_part 9 ''train'')) = None"
    by (simp add: register_all_def register_objects no_hooks_def sample_part_def)
  moreover have "key_entries ?rs (''glue'', Some ''mrpc'', Some ''train'', Some ''/c'') = {0}"
  proof -
    have "hf_dataset_key (sample_part 1 ''train'') = Some (''glue'', Some ''mrpc'', Some ''train'', Some ''/c'')"
      "hf_dataset_key (sample_part 2 ''test'') \<noteq> Some (''glue'', Some ''mrpc'', Some ''train'', Some ''/c'')"
      "hf_dataset_key (sample_part 3 ''test'') \<noteq> Some (''glue'', Some ''mrpc'', Some ''train'', Some ''/c'')"
      by code_simp+
    then show ?thesis by (auto simp: key_entries_def)
  qed
  ultimately show ?thesis using loader_attribution [OF _ k] by blast
qed

lemma seen_via_dset: "seen_via (dset ''seen_via'' (VList l) d) = l"
  by (simp add: seen_via_def)

text \<open>A data loader over a data set that is already recorded adds no entry and changes only the entry of that data set: it is
  marked as seen by the loader, its identity stays, and a batch size that is there is replaced only by the loader
  of a training split.\<close>

theorem loader_merges:
  assumes "ho_weak obj" and "existing_entry st obj = Some e" and "e < length (hs_entries st)"
    and "st' = dataloader_init fingerprint (Some obj) t batch st"
  shows "length (hs_entries st') = length (hs_entries st)
    \<and> (\<forall>i < length (hs_entries st). i \<noteq> e \<longrightarrow> hs_entries st' ! i = hs_entries st ! i)
    \<and> dataset_identity (hs_entries st' ! e) = dataset_identity (hs_entries st ! e)
    \<and> loader_name \<in> set (seen_via (hs_entries st' ! e))
    \<and> (dget (hs_entries st ! e) ''batch_size'' \<noteq> None \<and> \<not> is_train_split obj
         \<longrightarrow> dget (hs_entries st' ! e) ''batch_size'' = dget (hs_entries st ! e) ''batch_size'')"
proof -
  let ?old = "hs_entries st ! e"
  have st': "st' = st\<lparr>hs_entries := (hs_entries st)[e := merge_loader obj batch ?old]\<rparr>"
    using assms by (simp add: dataloader_init_def Let_def)
  have "dataset_identity (merge_loader obj batch ?old) = dataset_identity ?old"
    by (simp add: merge_loader_def Let_def dataset_identity_def dataset_identity_keys_def split: option.split)
  moreover have "loader_name \<in> set (seen_via (merge_loader obj batch ?old))"
    by (simp add: merge_loader_def Let_def seen_via_dset)
  moreover have "dget (merge_loader obj batch ?old) ''batch_size'' = dget ?old ''batch_size''"
    if "dget ?old ''batch_size'' \<noteq> None" "\<not> is_train_split obj"
    using that by (auto simp: merge_loader_def Let_def split: option.split)
  ultimately show ?thesis using assms(3) by (simp add: st')
qed

theorem loader_merges_witness:
  "length (hs_entries (dataloader_init (\<lambda>_. None) (Some (sample_part 1 ''test''))
      \<lparr>to_class = ''C'', to_class_name = ''C'', to_paths = [], to_train = None, to_transform = None, to_name = None, to_url = None,
       to_urls = None\<rparr> (Some 64) (register_all [(sample_part 1 ''train'', 0)] (no_hooks\<lparr>hs_entries := [[(''batch_size'', VInt 8)]]\<rparr>)))) = 1"
proof -
  let ?st = "register_all [(sample_part 1 ''train'', 0)] (no_hooks\<lparr>hs_entries := [[(''batch_size'', VInt 8)]]\<rparr>)"
  have entries: "hs_entries ?st = [[(''batch_size'', VInt 8)]]"
    by (simp add: register_all_def register_hf_dataset_def register_object_def no_hooks_def Let_def split: option.split)
  have "existing_entry ?st (sample_part 1 ''test'') = Some 0"
    by (simp add: existing_entry_def register_all_def register_objects sample_part_def)
  from loader_merges [OF _ this _ refl] entries show ?thesis by (simp add: sample_part_def)
qed

text \<open>A loader over an object without weak references, such as a list, is not recorded: the lookup raises.\<close>

lemma unreferenced_loader_lost: "\<not> ho_weak obj \<Longrightarrow> dataloader_init fingerprint (Some obj) t batch st = st"
  by (simp add: dataloader_init_def Let_def)

text \<open>Building a torchvision data set records it once, under the name of its most derived class, however many patched
  constructors of its parent classes run.\<close>

theorem torchvision_once:
  assumes "find (\<lambda>k. k \<in> patched) mro = Some owner" and "distinct runs" and "owner \<in> set runs"
  shows "hs_entries (fold (torchvision_init fingerprint patched mro obj c) runs st) = hs_entries st @ [torchvision_entry fingerprint owner c]"
proof -
  have none: "hs_entries (fold (torchvision_init fingerprint patched mro obj c) rs s) = hs_entries s" if "owner \<notin> set rs" for rs s
    using that assms(1) by (induction rs arbitrary: s) (auto simp: torchvision_init_def)
  obtain as bs where runs: "runs = as @ owner # bs" using assms(3) by (meson split_list)
  then have "owner \<notin> set as" "owner \<notin> set bs" using assms(2) by auto
  then show ?thesis using assms(1) none by (simp add: runs torchvision_init_def register_object_def record_entry_def)
qed

theorem torchvision_once_witness:
  "hs_entries (fold (torchvision_init (\<lambda>_. None) {''CIFAR10'', ''CIFAR100''} [''CIFAR100'', ''CIFAR10'', ''VisionDataset''] (sample_part 1 ''x'')
      \<lparr>tv_args = [(''/data'', None)], tv_root = None, tv_train = Some True, tv_split = None, tv_download = None\<rparr>) [''CIFAR10'', ''CIFAR100''] no_hooks)
   = hs_entries no_hooks @ [torchvision_entry (\<lambda>_. None) ''CIFAR100''
      \<lparr>tv_args = [(''/data'', None)], tv_root = None, tv_train = Some True, tv_split = None, tv_download = None\<rparr>]"
  by (rule torchvision_once) simp_all

subsection \<open>The model that is recorded\<close>

fun load_outcome :: "model_load \<Rightarrow> loaded_model option" where
  "load_outcome (ModelLoad _ r) = r"

lemma claimed_stays:
  "from_pretrained l (True, ls) = (True, ls)"
  "from_pretrained_all loads (True, ls) = (True, ls)"
  by (induction l "(True, ls)" and loads "(True, ls)" arbitrary: ls and ls rule: from_pretrained_from_pretrained_all.induct)
    (simp_all split: option.split)

text \<open>C36: The model that is recorded is that of the first load of the process that succeeds: a load nested in another one never
  replaces its caller, a load that raised does not count, and no later load is recorded.\<close>

theorem first_model_recorded:
  "snd (from_pretrained_all loads (False, [])) = (case List.map_filter load_outcome loads of [] \<Rightarrow> [] | m # _ \<Rightarrow> [m])"
proof (induction loads)
  case (Cons l loads)
  obtain nested r where l: "l = ModelLoad nested r" by (cases l)
  show ?case
    by (cases r) (use Cons.IH claimed_stays(2) in \<open>simp_all add: l claimed_stays List.map_filter_simps\<close>)
qed (simp add: List.map_filter_simps)

subsection \<open>Hooks run once\<close>

lemma fire_simps [simp]:
  "fi_pending (fire n f) = remove1 n (fi_pending f)"
  "fi_run (fire n f) = fi_run f @ (if n \<in> set (fi_pending f) then [n] else [])"
  "fi_on_path (fire n f) \<longleftrightarrow> fi_on_path f \<and> remove1 n (fi_pending f) \<noteq> []"
  by (simp_all add: fire_def claim_def Let_def)

text \<open>Every trigger is either pending or has run, none twice, and the finder stays on the path while something is pending.\<close>

definition finder_ok :: "bool \<Rightarrow> finder \<Rightarrow> bool" where
  "finder_ok b f \<longleftrightarrow> distinct (fi_pending f) \<and> distinct (fi_run f) \<and> set (fi_pending f) \<inter> set (fi_run f) = {}
     \<and> set (fi_pending f) \<union> set (fi_run f) = set lazy_triggers \<and> (fi_on_path f \<longleftrightarrow> b \<and> fi_pending f \<noteq> [])"

lemma fire_ok: "finder_ok b f \<Longrightarrow> finder_ok b (fire n f)"
  by (auto simp: finder_ok_def set_remove1_eq distinct_remove1)

lemma fires_ok: "finder_ok b f \<Longrightarrow> finder_ok b (fold fire ns f)"
  by (induction ns arbitrary: f) (auto intro: fire_ok)

lemma fires_run: "finder_ok b f \<Longrightarrow> set (fi_run (fold fire ns f)) = set (fi_run f) \<union> (set ns \<inter> set lazy_triggers)"
proof (induction ns arbitrary: f)
  case (Cons n ns)
  then have "set (fi_run (fold fire ns (fire n f))) = set (fi_run (fire n f)) \<union> (set ns \<inter> set lazy_triggers)" using fire_ok by blast
  moreover have "n \<in> set lazy_triggers \<longleftrightarrow> n \<in> set (fi_pending f) \<or> n \<in> set (fi_run f)" using Cons.prems by (auto simp: finder_ok_def)
  ultimately show ?case by auto
qed simp

lemma finder_okD:
  assumes "finder_ok b f"
  shows "distinct (fi_run f)" and "set (fi_pending f) \<inter> set (fi_run f) = {}" and "set (fi_pending f) \<subseteq> set lazy_triggers"
    and "fi_on_path f \<longleftrightarrow> b \<and> fi_pending f \<noteq> []"
  using assms by (auto simp: finder_ok_def)

lemma filter_all_kept: "\<not> length (filter (\<lambda>m. m \<in> A) xs) < length xs \<Longrightarrow> set xs \<subseteq> A"
  using length_filter_less [of _ xs "\<lambda>m. m \<in> A"] by blast

lemma nothing_left: "P \<inter> R = {} \<Longrightarrow> P \<subseteq> T \<Longrightarrow> R = (I \<union> N) \<inter> T \<Longrightarrow> T \<subseteq> I \<Longrightarrow> P = {}"
  by blast

text \<open>Whatever is imported before and after the detector, in whatever order and however often, the hook of every framework
  that was imported has run exactly once, no other hook has run, and the finder is off the meta path exactly when
  nothing is pending any more.\<close>

theorem hooks_fire_once:
  "distinct (fi_run (fold fire names (install_hooks_lazy imported)))
   \<and> set (fi_run (fold fire names (install_hooks_lazy imported))) = (imported \<union> set names) \<inter> set lazy_triggers
   \<and> (fi_on_path (fold fire names (install_hooks_lazy imported)) \<longleftrightarrow> fi_pending (fold fire names (install_hooks_lazy imported)) \<noteq> [])"
proof -
  let ?already = "filter (\<lambda>m. m \<in> imported) lazy_triggers"
  let ?b = "length ?already < length lazy_triggers"
  let ?start = "\<lparr>fi_pending = lazy_triggers, fi_on_path = ?b, fi_run = []\<rparr>"
  let ?f = "fold fire names (install_hooks_lazy imported)"
  have "finder_ok ?b ?start" by (auto simp: finder_ok_def lazy_triggers_def)
  note ok = fires_ok [OF this, of "?already @ names"] and run = fires_run [OF this, of "?already @ names"]
  have f: "fold fire (?already @ names) ?start = ?f" by (simp add: install_hooks_lazy_def Let_def)
  have set: "set (fi_run ?f) = (imported \<union> set names) \<inter> set lazy_triggers" using run unfolding f by auto
  note okf = finder_okD [OF ok [unfolded f]]
  have "fi_pending ?f = []" if "\<not> ?b"
  proof -
    have "set lazy_triggers \<subseteq> imported" by (rule filter_all_kept [OF that])
    then have "set (fi_pending ?f) = {}" by (rule nothing_left [OF okf(2,3) set])
    then show ?thesis by simp
  qed
  then have "fi_on_path ?f \<longleftrightarrow> fi_pending ?f \<noteq> []" using okf(4) by blast
  then show ?thesis using okf(1) set by simp
qed

subsection \<open>The accelerate configuration\<close>

definition accelerate_distributed_type_strategies :: "(string \<times> string) list" where
  "accelerate_distributed_type_strategies =
     [(''fsdp'', ''fsdp''), (''deepspeed'', ''deepspeed''), (''multi_gpu'', ''data_parallel''), (''multi_cpu'', ''data_parallel'')]"

text \<open>The path that the first of the flags gives.\<close>

fun config_path :: "string list \<Rightarrow> string option" where
  "config_path [] = None"
| "config_path (a # as) =
     (let (key, _, val) = partition_c CHR ''='' a
      in if key \<in> set [''--accelerate_config'', ''--accelerate-config'', ''--config_file'', ''--config-file'']
         then nonempty (Some (if val = [] then (case as of [] \<Rightarrow> [] | b # _ \<Rightarrow> b) else val))
         else config_path as)"

text \<open>\<open>yaml p\<close> is the text of \<^verbatim>\<open>distributed_type\<close> in the file, \<^const>\<open>None\<close> if the file is not regular, PyYAML is missing or anything raises.\<close>

definition capture_accelerate_config :: "(string \<Rightarrow> string option) \<Rightarrow> string list \<Rightarrow> pyval dict \<times> bool \<Rightarrow> pyval dict \<times> bool" where
  "capture_accelerate_config yaml argv s =
     (case Option.bind (config_path argv) yaml of
        None \<Rightarrow> s
      | Some t \<Rightarrow>
          (case map_of accelerate_distributed_type_strategies (py_lower t) of
             None \<Rightarrow> s
           | Some strategy \<Rightarrow> notifying_set (''parallelization_strategy'', VStr strategy) s))"

end
