(* ===== verification/DetectorLoad.thy ===== *)
theory DetectorLoad
  imports DetectorHooks "HOL-Library.Multiset"
begin

text \<open>
  How \<^verbatim>\<open>scripts/aibom-scripts/runtime_detector.py\<close> gets into a process and what it reads there: the finder that
  wraps the loaders of the frameworks (\<^verbatim>\<open>find_spec\<close>, \<^verbatim>\<open>_wrap_loader\<close>) inside a run of the import system with nested,
  failing and repeated imports, the sitecustomize module that it shadows, and the fingerprint of a data directory. The
  other finders, the modules' bodies and the file system are parameters.
\<close>

subsection \<open>Imports\<close>

text \<open>What the other finders return for a module: no specification, a loader whose \<^verbatim>\<open>exec_module\<close> cannot be replaced, or a
  loader object. While they search, they may themselves look for modules.\<close>

datatype spec_loader = NoSpec | FixedLoader | LoaderObject nat

datatype lookup = Lookup (look_name: string) (look_loader: spec_loader) (look_nested: "lookup list")

text \<open>What a script does: it asks where a module is, or imports it. Executing the module runs the imports of its body and
  then returns or raises; the last component are the imports of the hook, should this import run it.\<close>

datatype importing = Locate lookup | Import lookup "importing list" bool "importing list"

text \<open>\<open>im_attr l\<close> is the attribute \<^verbatim>\<open>exec_module\<close> that was set on the loader object \<open>l\<close>: the names of the wrappers around the
  original method, the outermost first.\<close>

record import_state =
  im_finder :: finder
  im_modules :: "string set"
  im_attr :: "nat \<Rightarrow> string list"

definition wrap_loader :: "string \<Rightarrow> spec_loader \<Rightarrow> import_state \<Rightarrow> import_state" where
  "wrap_loader name ld im = (case ld of LoaderObject l \<Rightarrow> im\<lparr>im_attr := (im_attr im)(l := name # im_attr im l)\<rparr> | _ \<Rightarrow> im)"

text \<open>\<^verbatim>\<open>find_spec\<close>, with the names that are being resolved. If the finder does not take part, the finders after it are
  asked by the import system.\<close>

fun find_spec :: "string set \<Rightarrow> lookup \<Rightarrow> import_state \<Rightarrow> import_state" where
  "find_spec resolving (Lookup name ld nested) im =
     (if finds_spec (im_finder im) resolving name
      then wrap_loader name ld (fold (find_spec (insert name resolving)) nested im)
      else fold (find_spec resolving) nested im)"

definition exec_chain :: "spec_loader \<Rightarrow> import_state \<Rightarrow> string list" where
  "exec_chain ld im = (case ld of LoaderObject l \<Rightarrow> im_attr im l | _ \<Rightarrow> [])"

definition unwrap_loader :: "spec_loader \<Rightarrow> import_state \<Rightarrow> import_state" where
  "unwrap_loader ld im = (case ld of LoaderObject l \<Rightarrow> im\<lparr>im_attr := (im_attr im)(l := [])\<rparr> | _ \<Rightarrow> im)"

text \<open>An import. The wrappers that the loader had when it was called run from the inside out; those of other modules
  only pass on. The innermost wrapper of the module removes the attribute, and fires if the module returned; another
  wrapper of the same module finds nothing to claim and removes the attribute again. A module that raises is taken
  out of \<^verbatim>\<open>sys.modules\<close>.\<close>

fun run_import :: "importing \<Rightarrow> import_state \<Rightarrow> import_state"
  and run_imports :: "importing list \<Rightarrow> import_state \<Rightarrow> import_state" where
  "run_import (Locate q) im = (if look_name q \<in> im_modules im then im else find_spec {} q im)"
| "run_import (Import q body returns hook) im =
     (if look_name q \<in> im_modules im then im
      else let found = find_spec {} q im; ld = look_loader q; chain = exec_chain ld found
           in if ld = NoSpec then found
              else let ran = run_imports body (found\<lparr>im_modules := insert (look_name q) (im_modules found)\<rparr>);
                       bare = (if look_name q \<in> set chain then unwrap_loader ld ran else ran)
                   in if \<not> returns then bare\<lparr>im_modules := im_modules bare - {look_name q}\<rparr>
                      else if look_name q \<notin> set chain then bare
                      else let claimed = look_name q \<in> set (fi_pending (im_finder bare));
                               fired = bare\<lparr>im_finder := fire (look_name q) (im_finder bare)\<rparr>;
                               hooked = (if claimed then run_imports hook fired else fired)
                           in if 1 < count_list chain (look_name q) then unwrap_loader ld hooked else hooked)"
| "run_imports [] im = im"
| "run_imports (i # is) im = run_imports is (run_import i im)"

definition start_imports :: "string set \<Rightarrow> import_state" where
  "start_imports imported = \<lparr>im_finder = install_hooks_lazy imported, im_modules = imported, im_attr = (\<lambda>_. [])\<rparr>"

subsection \<open>Hooks run when a module has been executed\<close>

lemma find_spec_keeps [simp]:
  "im_finder (find_spec r q im) = im_finder im" "im_modules (find_spec r q im) = im_modules im"
proof (induction r q im rule: find_spec.induct)
  case (1 r name ld nested im)
  have fold_keeps: "im_finder (fold (find_spec s) ns i) = im_finder i \<and> im_modules (fold (find_spec s) ns i) = im_modules i"
    if "\<And>n i. n \<in> set ns \<Longrightarrow> im_finder (find_spec s n i) = im_finder i \<and> im_modules (find_spec s n i) = im_modules i" for s ns i
    using that by (induction ns arbitrary: i) simp_all
  {
    case 1
    then show ?case using fold_keeps "1.IH" by (auto simp: wrap_loader_def split: spec_loader.split)
  next
    case 2
    then show ?case using fold_keeps "1.IH" by (auto simp: wrap_loader_def split: spec_loader.split)
  }
qed

lemma unwrap_keeps [simp]: "im_finder (unwrap_loader ld im) = im_finder im" "im_modules (unwrap_loader ld im) = im_modules im"
  by (simp_all add: unwrap_loader_def split: spec_loader.split)

lemma found_wrapped:
  assumes "finds_spec (im_finder im) {} (look_name q)" and "look_loader q = LoaderObject l"
  shows "look_name q \<in> set (exec_chain (look_loader q) (find_spec {} q im))"
  using assms by (cases q) (simp add: wrap_loader_def exec_chain_def)

text \<open>The loaders of the frameworks can be wrapped.\<close>

fun wrappable :: "importing \<Rightarrow> bool" where
  "wrappable (Locate q) \<longleftrightarrow> True"
| "wrappable (Import q body returns hook) \<longleftrightarrow> (look_name q \<in> set lazy_triggers \<longrightarrow> look_loader q \<noteq> FixedLoader)
     \<and> list_all wrappable body \<and> list_all wrappable hook"

text \<open>The hooks that have run are those of the modules that are imported and not in execution.\<close>

definition imports_ok :: "string set \<Rightarrow> import_state \<Rightarrow> bool" where
  "imports_ok running im \<longleftrightarrow> running \<subseteq> im_modules im
     \<and> distinct (fi_pending (im_finder im)) \<and> distinct (fi_run (im_finder im))
     \<and> set (fi_run (im_finder im)) = (im_modules im - running) \<inter> set lazy_triggers
     \<and> set (fi_pending (im_finder im)) = set lazy_triggers - set (fi_run (im_finder im))
     \<and> (fi_on_path (im_finder im) \<longleftrightarrow> fi_pending (im_finder im) \<noteq> [])"

lemma imports_ok_finds:
  assumes "imports_ok running im" and "n \<in> set lazy_triggers" and "n \<notin> im_modules im"
  shows "finds_spec (im_finder im) {} n"
proof -
  have "n \<notin> set (fi_run (im_finder im))" using assms by (simp add: imports_ok_def)
  then have "n \<in> set (fi_pending (im_finder im))" using assms by (simp add: imports_ok_def)
  moreover from this have "fi_on_path (im_finder im)" using assms(1) by (auto simp: imports_ok_def)
  ultimately show ?thesis by (simp add: finds_spec_def)
qed

lemma imports_ok_found: "imports_ok running im \<Longrightarrow> imports_ok running (find_spec {} q im)"
  by (simp add: imports_ok_def)

lemma imports_ok_unwrap [simp]: "imports_ok running (unwrap_loader ld im) \<longleftrightarrow> imports_ok running im"
  by (simp add: imports_ok_def)

lemma imports_ok_enter:
  "imports_ok running im \<Longrightarrow> n \<notin> im_modules im \<Longrightarrow> imports_ok (insert n running) (im\<lparr>im_modules := insert n (im_modules im)\<rparr>)"
  by (auto simp: imports_ok_def)

lemma imports_ok_raise:
  "imports_ok (insert n running) im \<Longrightarrow> n \<notin> running \<Longrightarrow> imports_ok running (im\<lparr>im_modules := im_modules im - {n}\<rparr>)"
  by (auto simp: imports_ok_def)

lemma imports_ok_fire:
  assumes "imports_ok (insert n running) im" and "n \<notin> running"
  shows "imports_ok running (im\<lparr>im_finder := fire n (im_finder im)\<rparr>)"
  using assms by (auto simp: imports_ok_def set_remove1_eq distinct_remove1)

lemma imports_ok_leave:
  "imports_ok (insert n running) im \<Longrightarrow> n \<notin> set lazy_triggers \<Longrightarrow> n \<notin> running \<Longrightarrow> imports_ok running im"
  by (auto simp: imports_ok_def)

lemma run_import_ok:
  "imports_ok running im \<Longrightarrow> wrappable i \<Longrightarrow> imports_ok running (run_import i im)"
  "imports_ok running im \<Longrightarrow> list_all wrappable is \<Longrightarrow> imports_ok running (run_imports is im)"
proof (induction i im and "is" im arbitrary: running and running rule: run_import_run_imports.induct)
  case (1 q im)
  then show ?case by (simp add: imports_ok_found)
next
  case (2 q body returns hook im)
  let ?n = "look_name q" and ?ld = "look_loader q" and ?found = "find_spec {} q im"
  show ?case
  proof (cases "?n \<in> im_modules im \<or> ?ld = NoSpec")
    case True
    then show ?thesis using 2(3) imports_ok_found by (auto simp: Let_def)
  next
    case False
    note False_ = this
    let ?ran = "run_imports body (?found\<lparr>im_modules := insert ?n (im_modules ?found)\<rparr>)"
    let ?chain = "exec_chain ?ld ?found"
    let ?bare = "if ?n \<in> set ?chain then unwrap_loader ?ld ?ran else ?ran"
    have out: "?n \<notin> running" using False 2(3) by (auto simp: imports_ok_def)
    have "imports_ok (insert ?n running) (?found\<lparr>im_modules := insert ?n (im_modules ?found)\<rparr>)"
      using imports_ok_enter [OF imports_ok_found [OF 2(3), of q], of ?n] False by simp
    then have ran: "imports_ok (insert ?n running) ?bare"
      using 2(1) [OF _ refl refl refl _, of "insert ?n running"] False 2(4) by simp
    show ?thesis
    proof (cases "?n \<in> set ?chain")
      case chain: True
      let ?b = "unwrap_loader ?ld ?ran"
      let ?f = "?b\<lparr>im_finder := fire ?n (im_finder ?b)\<rparr>"
      have bare: "imports_ok (insert ?n running) ?b" using ran chain by simp
      have fired: "imports_ok running ?f" by (rule imports_ok_fire [OF bare out])
      have "imports_ok running (run_imports hook ?f)" if "?n \<in> set (fi_pending (im_finder ?b))" returns
        using 2(2) [OF _ refl refl refl _ refl refl _ _ refl refl, of running] fired False_ chain that 2(4) by simp
      then show ?thesis using False_ chain fired imports_ok_raise [OF bare out] by (simp add: Let_def)
    next
      case chain: False
      then have "?n \<notin> set lazy_triggers"
        using found_wrapped [of im q] imports_ok_finds [OF 2(3), of ?n] False 2(4) by (cases ?ld) auto
      then show ?thesis using False chain ran imports_ok_raise [OF ran out] imports_ok_leave [OF ran _ out] by (simp add: Let_def)
    qed
  qed
qed simp_all

lemma start_imports_ok: "imports_ok {} (start_imports imported)"
proof -
  let ?f = "install_hooks_lazy imported"
  have fresh: "finder_ok (length (filter (\<lambda>m. m \<in> imported) lazy_triggers) < length lazy_triggers) ?f"
    unfolding install_hooks_lazy_def Let_def
    by (rule fires_ok) (auto simp: finder_ok_def lazy_triggers_def)
  have run: "distinct (fi_run ?f)" "set (fi_run ?f) = imported \<inter> set lazy_triggers" "fi_on_path ?f \<longleftrightarrow> fi_pending ?f \<noteq> []"
    using hooks_fire_once [of "[]" imported] by simp_all
  moreover have "distinct (fi_pending ?f)" "set (fi_pending ?f) = set lazy_triggers - set (fi_run ?f)"
    using fresh by (auto simp: finder_ok_def)
  ultimately show ?thesis by (simp add: imports_ok_def start_imports_def)
qed

text \<open>C37: Whatever a program imports, in whatever order, nested, repeatedly and with modules that raise, and wherever it
  only looks for modules: at every point the hooks that have run are exactly those of the frameworks that have been imported,
  each once, and the finder leaves the meta path when none is pending.\<close>

theorem imports_hooked:
  assumes "list_all wrappable script" and "im = run_imports script (start_imports imported)"
  shows "distinct (fi_run (im_finder im)) \<and> set (fi_run (im_finder im)) = im_modules im \<inter> set lazy_triggers
    \<and> (fi_on_path (im_finder im) \<longleftrightarrow> fi_pending (im_finder im) \<noteq> [])"
  using run_import_ok(2) [OF start_imports_ok assms(1), of imported] assms(2) by (simp add: imports_ok_def)

text \<open>A program that looks for torch without importing it, and imports a helper module whose body imports
  datasets, fails to import peft, and gets transformers whose hook imports torch.\<close>

definition sample_script :: "importing list" where
  "sample_script =
     [Locate (Lookup ''torch'' (LoaderObject 1) [Lookup ''torch'' (LoaderObject 1) []]),
      Import (Lookup ''helper'' (LoaderObject 2) [])
        [Import (Lookup ''datasets'' (LoaderObject 3) []) [] True [],
         Import (Lookup ''peft'' (LoaderObject 4) []) [Import (Lookup ''nothing'' NoSpec []) [] False []] False [],
         Import (Lookup ''transformers'' (LoaderObject 5) []) [] True [Import (Lookup ''torch'' (LoaderObject 1) []) [] True []]] True [],
      Import (Lookup ''torch'' (LoaderObject 1) []) [] True []]"

theorem imports_hooked_witness:
  "distinct (fi_run (im_finder (run_imports sample_script (start_imports {}))))
   \<and> fi_run (im_finder (run_imports sample_script (start_imports {}))) = [''datasets'', ''transformers'', ''torch'']
   \<and> fi_pending (im_finder (run_imports sample_script (start_imports {}))) = [''torchvision'', ''webdataset'', ''peft'']"
proof -
  have "list_all wrappable sample_script" by (simp add: sample_script_def)
  from imports_hooked [OF this refl, of "{}"]
  have "distinct (fi_run (im_finder (run_imports sample_script (start_imports {}))))" by blast
  moreover have "fi_run (im_finder (run_imports sample_script (start_imports {}))) = [''datasets'', ''transformers'', ''torch'']"
    "fi_pending (im_finder (run_imports sample_script (start_imports {}))) = [''torchvision'', ''webdataset'', ''peft'']"
    by code_simp+
  ultimately show ?thesis by blast
qed

text \<open>A framework whose loader cannot be wrapped is never hooked.\<close>

lemma fixed_loader_missed:
  "fi_run (im_finder (run_imports [Import (Lookup ''torch'' FixedLoader []) [] True []] (start_imports {}))) = []"
  by code_simp

subsection \<open>The shadowed sitecustomize module\<close>

text \<open>\<^verbatim>\<open>_run_shadowed_sitecustomize\<close>: the file that is run, if there is one. \<open>here\<close> is the directory of the detector.\<close>

definition sitecustomize_files :: "string \<Rightarrow> string list" where
  "sitecustomize_files base = [path_join base ''sitecustomize.py'', path_join (path_join base ''sitecustomize'') ''__init__.py'']"

definition is_file :: "detector_fs \<Rightarrow> string \<Rightarrow> bool" where
  "is_file fs p \<longleftrightarrow> df_file fs p \<noteq> None"

definition path_dir :: "detector_fs \<Rightarrow> string \<Rightarrow> string" where
  "path_dir fs entry = abspath fs (if entry = [] then df_cwd fs else entry)"

fun shadowed_sitecustomize :: "detector_fs \<Rightarrow> string \<Rightarrow> string list \<Rightarrow> string option" where
  "shadowed_sitecustomize fs here [] = None"
| "shadowed_sitecustomize fs here (entry # dirs) =
     (let base = path_dir fs entry
      in if base = here then shadowed_sitecustomize fs here dirs
         else case find (is_file fs) (sitecustomize_files base) of
                Some c \<Rightarrow> Some c
              | None \<Rightarrow> shadowed_sitecustomize fs here dirs)"

text \<open>What the import system would take without the detector: in a directory, the package before the module.\<close>

definition import_choice :: "detector_fs \<Rightarrow> string \<Rightarrow> string option" where
  "import_choice fs base = find (is_file fs) (rev (sitecustomize_files base))"

definition other_dirs :: "detector_fs \<Rightarrow> string \<Rightarrow> string list \<Rightarrow> string list" where
  "other_dirs fs here dirs = filter (\<lambda>b. b \<noteq> here) (map (path_dir fs) dirs)"

lemma shadowed_is_next:
  assumes "list_all (\<lambda>b. \<not> list_all (is_file fs) (sitecustomize_files b)) (other_dirs fs here dirs)"
  shows "shadowed_sitecustomize fs here dirs = first_some (import_choice fs) (other_dirs fs here dirs)"
  using assms
proof (induction dirs)
  case (Cons entry dirs)
  let ?base = "path_dir fs entry"
  show ?case
  proof (cases "?base = here")
    case False
    then have "find (is_file fs) (sitecustomize_files ?base) = import_choice fs ?base"
      using Cons.prems by (auto simp: import_choice_def sitecustomize_files_def other_dirs_def)
    then show ?thesis using Cons False by (simp add: other_dirs_def Let_def split: option.split)
  qed (use Cons in \<open>simp add: other_dirs_def\<close>)
qed (simp add: other_dirs_def)

text \<open>A directory with both: the module is run, although without the detector it would have been the package.\<close>

lemma package_not_run:
  assumes "is_file fs (path_join base ''sitecustomize.py'')" and "is_file fs (path_join (path_join base ''sitecustomize'') ''__init__.py'')"
    and "path_dir fs entry = base" and "base \<noteq> here"
  shows "shadowed_sitecustomize fs here (entry # dirs) = Some (path_join base ''sitecustomize.py'')"
    and "import_choice fs base = Some (path_join (path_join base ''sitecustomize'') ''__init__.py'')"
  using assms by (simp_all add: Let_def sitecustomize_files_def import_choice_def)

subsection \<open>The fingerprint of a path\<close>

text \<open>A path as \<^verbatim>\<open>os.walk\<close> sees it. A file has its size and its modification time in whole seconds, or cannot be asked for
  them; a link to a directory is listed but not followed; a directory that cannot be read has no entries.\<close>

datatype fs_node = FileNode "(nat \<times> int) option" | DirNode "(string \<times> fs_node) list" | DirLink

fun nat_text :: "nat \<Rightarrow> string" where
  "nat_text n = (if n < 10 then [char_of (48 + n)] else nat_text (n div 10) @ [char_of (48 + n mod 10)])"

declare nat_text.simps [simp del]

definition int_text :: "int \<Rightarrow> string" where
  "int_text i = (if i < 0 then CHR ''-'' # nat_text (nat (- i)) else nat_text (nat i))"

definition file_record :: "string \<Rightarrow> (nat \<times> int) option \<Rightarrow> string" where
  "file_record name st = (case st of None \<Rightarrow> [] | Some (bytes, mtime) \<Rightarrow> name @ [CHR 0x00] @ nat_text bytes @ [CHR 0x00] @ int_text mtime)"

text \<open>What is hashed of a directory: the records of its files by name, then those of its subdirectories by name.\<close>

definition file_names :: "(string \<times> fs_node) list \<Rightarrow> (string \<times> (nat \<times> int) option) list" where
  "file_names es = sort_key fst (List.map_filter (\<lambda>(n, x). case x of FileNode st \<Rightarrow> Some (n, st) | _ \<Rightarrow> None) es)"

definition sub_dirs :: "(string \<times> fs_node) list \<Rightarrow> (string \<times> (string \<times> fs_node) list) list" where
  "sub_dirs es = sort_key fst (List.map_filter (\<lambda>(n, x). case x of DirNode ds \<Rightarrow> Some (n, ds) | _ \<Rightarrow> None) es)"

lemma set_file_names: "set (file_names es) = {(n, st). (n, FileNode st) \<in> set es}"
  by (force simp: file_names_def List.map_filter_def split: fs_node.splits)

lemma set_sub_dirs: "set (sub_dirs es) = {(n, ds). (n, DirNode ds) \<in> set es}"
  by (force simp: sub_dirs_def List.map_filter_def split: fs_node.splits)

lemma size_sub_dirs:
  "(n, DirNode ds) \<in> set es \<Longrightarrow> size_list (size_prod (\<lambda>_. 0) size) ds < size_list (size_prod (\<lambda>_. 0) size) es"
  by (induction es) auto

function walk_texts :: "string \<Rightarrow> (string \<times> fs_node) list \<Rightarrow> string" where
  "walk_texts rel es =
     concat (map (\<lambda>(n, st). file_record (path_join rel n) st) (file_names es))
     @ concat (map (\<lambda>(n, ds). walk_texts (path_join rel n) ds) (sub_dirs es))"
  by pat_completeness auto

termination
  by (relation "measure (\<lambda>(rel, es). size_list (size_prod (\<lambda>_. 0) size) es)") (auto simp: set_sub_dirs intro: size_sub_dirs)

declare walk_texts.simps [simp del]

text \<open>\<^verbatim>\<open>_path_fingerprint\<close>: nothing at the absolute path, a file, or the entries of a directory. A file that cannot be asked
  for its size raises, which is caught.\<close>

definition path_fingerprint ::
  "(string \<Rightarrow> string) \<Rightarrow> string \<Rightarrow> ((nat \<times> int) option + (string \<times> fs_node) list) option \<Rightarrow> string option" where
  "path_fingerprint sha256 p node =
     (case node of
        None \<Rightarrow> None
      | Some (Inl None) \<Rightarrow> None
      | Some (Inl (Some st)) \<Rightarrow> Some (sha256 (file_record p (Some st)))
      | Some (Inr es) \<Rightarrow> Some (sha256 (walk_texts [] es)))"

text \<open>Two listings of the same tree: the same names with the same contents, in any order.\<close>

inductive same_tree :: "fs_node \<Rightarrow> fs_node \<Rightarrow> bool" where
  same_file: "same_tree (FileNode st) (FileNode st)"
| same_link: "same_tree DirLink DirLink"
| same_dir: "\<lbrakk>distinct (map fst es); distinct (map fst fs); fst ` set es = fst ` set fs;
    \<And>n x y. (n, x) \<in> set es \<Longrightarrow> (n, y) \<in> set fs \<Longrightarrow> same_tree x y\<rbrakk> \<Longrightarrow> same_tree (DirNode es) (DirNode fs)"

inductive_cases same_tree_fileE: "same_tree (FileNode st) y"
inductive_cases same_tree_dirE: "same_tree (DirNode es) y"

lemma same_tree_sym: "same_tree x y \<Longrightarrow> same_tree y x"
  by (induction rule: same_tree.induct) (auto intro!: same_tree.intros)

lemma fst_map_filter: "(\<And>n x y. f (n, x) = Some y \<Longrightarrow> fst y = n) \<Longrightarrow> fst ` set (List.map_filter f es) \<subseteq> fst ` set es"
  by (force simp: List.map_filter_def)

lemma distinct_fst_map_filter:
  assumes f: "\<And>n x y. f (n, x) = Some y \<Longrightarrow> fst y = n" and "distinct (map fst es)"
  shows "distinct (map fst (List.map_filter f es))"
  using assms(2)
proof (induction es)
  case (Cons e es)
  have "fst ` set (List.map_filter f es) \<subseteq> fst ` set es" using f by (rule fst_map_filter)
  then show ?case using Cons f [of "fst e" "snd e"] by (auto simp: List.map_filter_simps split: option.splits)
qed (simp add: List.map_filter_simps)

lemma distinct_fst_sort: "distinct (map fst es) \<Longrightarrow> distinct (map fst (sort_key fst es))"
  by (simp add: distinct_map)

lemma file_names_ok:
  assumes "distinct (map fst es)"
  shows "sorted (map fst (file_names es))" and "distinct (map fst (file_names es))"
  using assms by (auto simp: file_names_def intro!: distinct_fst_sort distinct_fst_map_filter split: fs_node.splits)

lemma sub_dirs_ok:
  assumes "distinct (map fst es)"
  shows "sorted (map fst (sub_dirs es))" and "distinct (map fst (sub_dirs es))"
  using assms by (auto simp: sub_dirs_def intro!: distinct_fst_sort distinct_fst_map_filter split: fs_node.splits)

text \<open>Two lists of named things that are sorted by distinct names agree if they have the same names with the same things.\<close>

lemma sorted_names_eq:
  assumes "sorted (map fst xs)" and "distinct (map fst xs)" and "sorted (map fst ys)" and "distinct (map fst ys)"
    and "fst ` set xs = fst ` set ys" and "\<And>n x y. (n, x) \<in> set xs \<Longrightarrow> (n, y) \<in> set ys \<Longrightarrow> g n x = g n y"
  shows "map (\<lambda>(n, x). g n x) xs = map (\<lambda>(n, x). g n x) ys"
proof -
  have names: "map fst xs = map fst ys"
    by (rule sorted_distinct_set_unique) (use assms in simp_all)
  then have len: "length xs = length ys" by (metis length_map)
  show ?thesis
  proof (rule nth_equalityI)
    fix i assume "i < length (map (\<lambda>(n, x). g n x) xs)"
    then have i: "i < length xs" "i < length ys" using len by simp_all
    have same: "fst (xs ! i) = fst (ys ! i)" using names i by (metis nth_map)
    have "(fst (xs ! i), snd (xs ! i)) \<in> set xs" "(fst (xs ! i), snd (ys ! i)) \<in> set ys" using i by (simp, simp add: same)
    then show "map (\<lambda>(n, x). g n x) xs ! i = map (\<lambda>(n, x). g n x) ys ! i"
      using assms(6) [of "fst (xs ! i)" "snd (xs ! i)" "snd (ys ! i)"] i same by (simp add: case_prod_beta)
  qed (simp add: len)
qed

lemma same_name: "fst ` set es = fst ` set fs \<Longrightarrow> (n, x) \<in> set es \<Longrightarrow> \<exists>y. (n, y) \<in> set fs"
  by force

text \<open>What \<^verbatim>\<open>os.walk\<close> tells apart: both are the same file, or both are directories.\<close>

definition like :: "fs_node \<Rightarrow> fs_node \<Rightarrow> bool" where
  "like x y \<longleftrightarrow> (\<forall>st. x = FileNode st \<longleftrightarrow> y = FileNode st) \<and> ((\<exists>es. x = DirNode es) \<longleftrightarrow> (\<exists>fs. y = DirNode fs))"

lemma like_names:
  assumes "fst ` set es = fst ` set fs" and "\<And>n x y. (n, x) \<in> set es \<Longrightarrow> (n, y) \<in> set fs \<Longrightarrow> like x y"
  shows "set (file_names es) \<subseteq> set (file_names fs)" and "fst ` set (sub_dirs es) \<subseteq> fst ` set (sub_dirs fs)"
proof -
  have "(n, st) \<in> set (file_names fs)" if mem: "(n, FileNode st) \<in> set es" for n st
  proof -
    obtain y where y: "(n, y) \<in> set fs" using same_name [OF assms(1) mem] by blast
    then have "y = FileNode st" using assms(2) [OF mem y] by (auto simp: like_def)
    then show ?thesis using y by (simp add: set_file_names)
  qed
  then show "set (file_names es) \<subseteq> set (file_names fs)" by (auto simp: set_file_names)
  have "n \<in> fst ` set (sub_dirs fs)" if mem: "(n, DirNode ds) \<in> set es" for n ds
  proof -
    obtain y where y: "(n, y) \<in> set fs" using same_name [OF assms(1) mem] by blast
    then obtain gs where "y = DirNode gs" using assms(2) [OF mem] by (auto simp: like_def)
    then have "(n, gs) \<in> set (sub_dirs fs)" using y by (simp add: set_sub_dirs)
    then show ?thesis by force
  qed
  then show "fst ` set (sub_dirs es) \<subseteq> fst ` set (sub_dirs fs)" by (auto simp: set_sub_dirs)
qed

lemma like_sym: "like x y \<Longrightarrow> like y x"
  by (auto simp: like_def)

lemma same_tree_walk:
  "same_tree a b \<Longrightarrow> like a b \<and> (\<forall>es fs rel. a = DirNode es \<longrightarrow> b = DirNode fs \<longrightarrow> walk_texts rel es = walk_texts rel fs)"
proof (induction rule: same_tree.induct)
  case (same_dir es fs)
  note names = same_dir.hyps(3) and ok = same_dir.hyps(1,2)
  have child: "like x y" "\<And>ds gs rel. x = DirNode ds \<Longrightarrow> y = DirNode gs \<Longrightarrow> walk_texts rel ds = walk_texts rel gs"
    if "(n, x) \<in> set es" "(n, y) \<in> set fs" for n x y
    using same_dir.IH [OF that] by blast+
  have le: "set (file_names es) \<subseteq> set (file_names fs)" "fst ` set (sub_dirs es) \<subseteq> fst ` set (sub_dirs fs)"
    using like_names [OF names] child(1) by blast+
  have ge: "set (file_names fs) \<subseteq> set (file_names es)" "fst ` set (sub_dirs fs) \<subseteq> fst ` set (sub_dirs es)"
    using like_names [OF names [symmetric]] like_sym [OF child(1)] by blast+
  have "file_names es = file_names fs"
  proof -
    have "set (file_names es) = set (file_names fs)" using le(1) ge(1) by blast
    moreover have "inj_on fst (set (file_names fs))" using file_names_ok(2) [OF ok(2)] by (simp add: distinct_map)
    ultimately show ?thesis
      using file_names_ok [OF ok(1)] file_names_ok [OF ok(2)] by (intro map_sorted_distinct_set_unique [of fst]) simp_all
  qed
  moreover have "map (\<lambda>(n, ds). walk_texts (path_join rel n) ds) (sub_dirs es) = map (\<lambda>(n, ds). walk_texts (path_join rel n) ds) (sub_dirs fs)" for rel
  proof (rule sorted_names_eq [OF sub_dirs_ok [OF ok(1)] sub_dirs_ok [OF ok(2)]])
    show "fst ` set (sub_dirs es) = fst ` set (sub_dirs fs)" using le(2) ge(2) by blast
    show "walk_texts (path_join rel n) x = walk_texts (path_join rel n) y" if "(n, x) \<in> set (sub_dirs es)" "(n, y) \<in> set (sub_dirs fs)" for n x y
      using child(2) [of n "DirNode x" "DirNode y"] that by (simp add: set_sub_dirs)
  qed
  ultimately have "walk_texts rel es = walk_texts rel fs" for rel by (simp add: walk_texts.simps [of rel])
  then show ?case by (simp add: like_def)
qed (simp_all add: like_def)

text \<open>C32: The fingerprint of a directory depends on the tree alone: not on the order in which the file system lists the
  entries, at any depth.\<close>

theorem fingerprint_order:
  assumes "same_tree (DirNode es) (DirNode fs)"
  shows "path_fingerprint sha256 p (Some (Inr es)) = path_fingerprint sha256 p (Some (Inr fs))"
  using same_tree_walk [OF assms] by (simp add: path_fingerprint_def)

theorem fingerprint_order_witness:
  "path_fingerprint (\<lambda>t. t) ''/d'' (Some (Inr [(''b'', FileNode (Some (3, 5))), (''a'', DirNode [])]))
   = path_fingerprint (\<lambda>t. t) ''/d'' (Some (Inr [(''a'', DirNode []), (''b'', FileNode (Some (3, 5)))]))"
  by (rule fingerprint_order) (auto intro!: same_tree.intros)

text \<open>Records are hashed without a separator between them, so two different directories can have the same fingerprint
  for every hash.\<close>

lemma fingerprint_ambiguous:
  "path_fingerprint sha256 p (Some (Inr [(''1'', FileNode (Some (1, 12))), (''b'', FileNode (Some (1, 5)))]))
   = path_fingerprint sha256 p (Some (Inr [(''1'', FileNode (Some (1, 1))), (''2b'', FileNode (Some (1, 5)))]))"
proof -
  have "walk_texts [] [(''1'', FileNode (Some (1, 12))), (''b'', FileNode (Some (1, 5)))]
      = walk_texts [] [(''1'', FileNode (Some (1, 1))), (''2b'', FileNode (Some (1, 5)))]"
    by code_simp
  then show ?thesis by (simp add: path_fingerprint_def)
qed

end
