(* ===== verification/Inputs.thy ===== *)
theory Inputs
  imports Pipeline Json
begin

text \<open>
  The input files of the post-processing Job (\<^verbatim>\<open>load_json_file\<close> and the loaders of \<^verbatim>\<open>postprocess.py\<close>): a file that is missing or
  is not valid JSON is as good as no file, the recorded remote loses its credentials when it is loaded, and a file
  with a value of the wrong shape raises, which the theorems at the end follow to the end of the Job.
\<close>

subsection \<open>Reading files\<close>

text \<open>\<open>files p\<close> is the content of a file, if it exists and can be read. \<^verbatim>\<open>null\<close> is \<^verbatim>\<open>None\<close>, as if there were no file.\<close>

definition load_json_file :: "(string \<Rightarrow> string option) \<Rightarrow> string \<Rightarrow> pyval option" where
  "load_json_file files p = (case Option.bind (files p) json_loads of Some VNone \<Rightarrow> None | v \<Rightarrow> v)"

text \<open>What a loader ends with: a value or an exception (\<^verbatim>\<open>AttributeError\<close>) that nothing catches.\<close>

datatype 'a loaded = Loaded 'a | LoadRaises

definition get_or :: "pyval dict \<Rightarrow> string \<Rightarrow> pyval \<Rightarrow> pyval" where
  "get_or d k v = (case dget d k of Some w \<Rightarrow> w | None \<Rightarrow> v)"

definition load_datasets :: "(string \<Rightarrow> bool) \<Rightarrow> pyval option \<Rightarrow> (pyval \<times> pyval dict) loaded" where
  "load_datasets bracket_ok data =
     (case data of
        None \<Rightarrow> Loaded (VList [], [])
      | Some (VDict d) \<Rightarrow>
          (case get_or d ''runtime_info'' (VDict []) of
             VDict ri \<Rightarrow> Loaded (get_or d ''datasets'' (VList []), load_runtime_info bracket_ok ri)
           | _ \<Rightarrow> LoadRaises)
      | Some _ \<Rightarrow> LoadRaises)"

definition load_containers :: "pyval option \<Rightarrow> pyval list" where
  "load_containers data = (case data of None \<Rightarrow> [] | Some (VList xs) \<Rightarrow> xs | Some v \<Rightarrow> [v])"

definition load_annotations :: "pyval option \<Rightarrow> pyval" where
  "load_annotations data = (case data of None \<Rightarrow> VDict [] | Some v \<Rightarrow> v)"

definition load_storage :: "pyval option \<Rightarrow> pyval" where
  "load_storage data = (case data of None \<Rightarrow> VDict [] | Some v \<Rightarrow> v)"

definition input_file :: "string \<Rightarrow> string \<Rightarrow> string" where
  "input_file dir name = dir @ ''/'' @ name"

text \<open>The files of a Job, as \<^verbatim>\<open>main\<close> loads them.\<close>

record loaded_inputs =
  li_discoveries :: "pyval list"
  li_datasets :: pyval
  li_runtime :: "pyval dict"
  li_annotations :: pyval
  li_containers :: "pyval list"
  li_storage :: pyval

definition load_inputs :: "(string \<Rightarrow> bool) \<Rightarrow> (string \<Rightarrow> string option) \<Rightarrow> string \<Rightarrow> loaded_inputs loaded" where
  "load_inputs bracket_ok files dir =
     (let load = (\<lambda>name. load_json_file files (input_file dir name))
      in case load_datasets bracket_ok (load ''dataset.json'') of
           LoadRaises \<Rightarrow> LoadRaises
         | Loaded (ds, ri) \<Rightarrow>
             Loaded \<lparr>li_discoveries = load_discovery (load ''discovery.json''), li_datasets = ds, li_runtime = ri,
                     li_annotations = load_annotations (load ''annotations.json''),
                     li_containers = load_containers (load ''containers.json''), li_storage = load_storage (load ''storage.json'')\<rparr>)"

subsection \<open>What a Job makes of its files\<close>

text \<open>Without a file, or with a file that is no JSON, the Job goes on with nothing.\<close>

lemma load_inputs_missing:
  assumes "\<And>p. Option.bind (files p) json_loads = None"
  shows "load_inputs bracket_ok files dir =
    Loaded \<lparr>li_discoveries = [], li_datasets = VList [], li_runtime = [], li_annotations = VDict [], li_containers = [], li_storage = VDict []\<rparr>"
  using assms by (simp add: load_inputs_def load_json_file_def load_datasets_def load_discovery_def load_containers_def load_annotations_def load_storage_def)

text \<open>The content of \<^verbatim>\<open>dataset.json\<close> comes from the workload. If its \<^verbatim>\<open>runtime_info\<close> is a list, \<^verbatim>\<open>load_datasets\<close> raises before anything is
  compiled.\<close>

lemma load_datasets_list_raises:
  "load_datasets bracket_ok (json_loads (''{'' @ [CHR 0x22] @ ''runtime_info'' @ [CHR 0x22] @ '': []}'')) = LoadRaises"
proof -
  have "json_loads (''{'' @ [CHR 0x22] @ ''runtime_info'' @ [CHR 0x22] @ '': []}'') = Some (VDict [(''runtime_info'', VList [])])"
    by code_simp
  then show ?thesis by (simp add: load_datasets_def get_or_def dget_def)
qed

end
