(* ===== verification/DetectorRun.thy ===== *)
theory DetectorRun
  imports DetectorHooks
begin

text \<open>
  The life of an instrumented process in \<^verbatim>\<open>scripts/aibom-scripts/runtime_detector.py\<close>: what the hooks record and notify, what a
  flush captures and takes as its snapshot, the SIGTERM handler, the fork handler, and how they are registered. The
  theorems say that every snapshot is well formed, so that the protocol of the output file applies to real
  processes, that a process which detected nothing writes nothing, and exactly when SIGTERM ends the process.
\<close>

subsection \<open>The state of a process\<close>

text \<open>The data sets with their registries, \<^verbatim>\<open>_runtime_info\<close>, and the flags of the durable flush. The last two fields say that
  \<^verbatim>\<open>_lock\<close> or \<^verbatim>\<open>_flush_timer_lock\<close> is held by a frame that cannot go on before the current call returns: the one
  that a signal handler interrupted, or one of a thread that does not exist after a fork.\<close>

record process =
  pr_hooks :: hook_state
  pr_info :: "pyval dict"
  pr_enabled :: bool
  pr_timer :: bool
  pr_git_captured :: bool
  pr_lock_stuck :: bool
  pr_timer_lock_stuck :: bool

text \<open>What the process runs in: its files, its arguments, and the strategy of an accelerate configuration file; whether threads
  can still be started.\<close>

record run_env =
  rn_fs :: detector_fs
  rn_argv :: "string list"
  rn_yaml :: "string \<Rightarrow> string option"
  rn_threads :: bool

definition notify_change :: "run_env \<Rightarrow> process \<Rightarrow> process" where
  "notify_change env st =
     (if \<not> pr_enabled st \<or> pr_timer_lock_stuck st \<or> pr_timer st then st else st\<lparr>pr_timer := rn_threads env\<rparr>)"

text \<open>\<^verbatim>\<open>_NotifyingDict.update\<close>.\<close>

definition notifying_update :: "pyval dict \<Rightarrow> pyval dict \<times> bool \<Rightarrow> pyval dict \<times> bool" where
  "notifying_update new s =
     (dupdate (fst s) new,
      snd s \<or> list_ex (\<lambda>(k, v). case dget (fst s) k of None \<Rightarrow> True | Some old \<Rightarrow> \<not> py_num_eq old v) new)"

definition set_info :: "run_env \<Rightarrow> pyval dict \<times> bool \<Rightarrow> process \<Rightarrow> process" where
  "set_info env s st = (let st' = st\<lparr>pr_info := fst s\<rparr> in if snd s then notify_change env st' else st')"

text \<open>A hook that records into \<^verbatim>\<open>_runtime_info\<close>, and one that records data sets.\<close>

definition record_info :: "run_env \<Rightarrow> pyval dict \<Rightarrow> process \<Rightarrow> process" where
  "record_info env new st = set_info env (notifying_update new (pr_info st, False)) st"

definition record_datasets :: "run_env \<Rightarrow> (hook_state \<Rightarrow> hook_state) \<Rightarrow> process \<Rightarrow> process" where
  "record_datasets env hook st = notify_change env (st\<lparr>pr_hooks := hook (pr_hooks st)\<rparr>)"

subsection \<open>Flushing\<close>

definition git_info :: "git_capture \<Rightarrow> pyval dict" where
  "git_info c =
     add_value ''git_dirty'' (map_option VBool (gc_dirty c))
       (add_value ''git_repository'' (map_option VStr (gc_repository c))
         (add_value ''git_branch'' (map_option VStr (gc_branch c)) [(''git_commit'', VStr (gc_commit c))]))"

text \<open>The end of a flush: it waits forever, has nothing to write, or has taken the snapshot that it writes.\<close>

datatype flush_end = Blocked | NothingDetected process | Flushed process snapshot

definition capture_arguments :: "run_env \<Rightarrow> process \<Rightarrow> process" where
  "capture_arguments env st =
     set_info env (capture_accelerate_config (rn_yaml env) (rn_argv env) (capture_training_args (rn_argv env) (pr_info st))) st"

definition detected :: "process \<Rightarrow> bool" where
  "detected st \<longleftrightarrow> hs_entries (pr_hooks st) \<noteq> [] \<or> pr_info st \<noteq> []"

definition take_snapshot :: "process \<Rightarrow> snapshot" where
  "take_snapshot st = (hs_entries (pr_hooks st), pr_info st)"

text \<open>\<^verbatim>\<open>_flush\<close> up to the write. Checking and copying take \<^verbatim>\<open>_lock\<close> with a timeout in a signal handler; the capture of the git
  provenance takes it without one.\<close>

definition flush :: "run_env \<Rightarrow> bool \<Rightarrow> bool \<Rightarrow> process \<Rightarrow> flush_end" where
  "flush env final in_signal st =
     (let st1 = capture_arguments env st
      in if pr_lock_stuck st1 \<and> \<not> in_signal then Blocked
         else if \<not> detected st1 then NothingDetected st1
         else if final \<or> \<not> pr_git_captured st1
         then (case capture_git_provenance (rn_fs env) (\<not> in_signal) of
                 None \<Rightarrow> let st2 = st1\<lparr>pr_git_captured := True\<rparr> in Flushed st2 (take_snapshot st2)
               | Some c \<Rightarrow>
                   if pr_lock_stuck st1 then Blocked
                   else let st2 = (record_info env (git_info c) st1)\<lparr>pr_git_captured := True\<rparr> in Flushed st2 (take_snapshot st2))
         else Flushed st1 (take_snapshot st1))"

subsection \<open>Signals, forks and registration\<close>

text \<open>\<^verbatim>\<open>_on_sigterm\<close>: how the process ends, or that it does not. The write itself may fail; exceptions are dropped and
  waiting for the lock of the output file is bounded.\<close>

datatype signal_end = StuckInHandler | DiesOfSignal "snapshot option"

definition on_sigterm :: "run_env \<Rightarrow> process \<Rightarrow> signal_end" where
  "on_sigterm env st =
     (case flush env True True st of
        Blocked \<Rightarrow> StuckInHandler
      | NothingDetected _ \<Rightarrow> DiesOfSignal None
      | Flushed _ x \<Rightarrow> DiesOfSignal (Some x))"

definition after_fork_in_child :: "process \<Rightarrow> process" where
  "after_fork_in_child st = st\<lparr>pr_lock_stuck := False, pr_timer_lock_stuck := False, pr_timer := False, pr_git_captured := False\<rparr>"

text \<open>What \<^verbatim>\<open>_register_durable_flush\<close> leaves in the interpreter: flushes at exit, the fork handler and the SIGTERM handler,
  which it only replaces if it is the default one, and only in the main thread.\<close>

datatype sig_handler = DefaultHandler | DetectorHandler | ApplicationHandler

record interpreter =
  in_atexit :: nat
  in_forks :: nat
  in_fork_registered :: bool
  in_sigterm :: sig_handler
  in_sigterm_installed :: bool

definition register_durable_flush :: "bool \<Rightarrow> bool \<Rightarrow> process \<times> interpreter \<Rightarrow> process \<times> interpreter" where
  "register_durable_flush can_fork main_thread s =
     (let i1 = (snd s)\<lparr>in_atexit := in_atexit (snd s) + 1\<rparr>;
          i2 = (if \<not> in_fork_registered i1 \<and> can_fork then i1\<lparr>in_forks := in_forks i1 + 1, in_fork_registered := True\<rparr> else i1);
          i3 = (if \<not> in_sigterm_installed i2 \<and> in_sigterm i2 = DefaultHandler \<and> main_thread
                then i2\<lparr>in_sigterm := DetectorHandler, in_sigterm_installed := True\<rparr> else i2)
      in ((fst s)\<lparr>pr_enabled := True\<rparr>, i3))"

subsection \<open>Runs of a process\<close>

definition new_process :: process where
  "new_process = \<lparr>pr_hooks = no_hooks, pr_info = [], pr_enabled = True, pr_timer = False, pr_git_captured = False,
     pr_lock_stuck = False, pr_timer_lock_stuck = False\<rparr>"

definition framework_info :: "string \<Rightarrow> pyval dict" where
  "framework_info version = [(''framework'', VStr ''PyTorch''), (''framework_version'', VStr version)]"

text \<open>The timer fires (\<^verbatim>\<open>_debounced_flush\<close>).\<close>

definition debounced_flush :: "run_env \<Rightarrow> process \<Rightarrow> flush_end" where
  "debounced_flush env st = flush env False False (st\<lparr>pr_timer := False\<rparr>)"

definition flush_state :: "flush_end \<Rightarrow> process option" where
  "flush_state r = (case r of Blocked \<Rightarrow> None | NothingDetected st \<Rightarrow> Some st | Flushed st _ \<Rightarrow> Some st)"

inductive process_step :: "run_env \<Rightarrow> process \<Rightarrow> process \<Rightarrow> bool" for env where
  loader: "case_option True ho_weak dataset \<Longrightarrow>
     process_step env st (record_datasets env (dataloader_init fingerprint dataset t batch) st)"
| load: "process_step env st (record_datasets env (load_dataset c r) st)"
| torchvision: "find (\<lambda>k. k \<in> patched) mro = Some owner \<Longrightarrow>
     process_step env st (record_datasets env (torchvision_init fingerprint patched mro obj tv owner) st)"
| webdataset: "process_step env st (record_datasets env (webdataset_init us) st)"
| framework: "process_step env st (record_info env (framework_info version) st)"
| trainer: "process_step env st (record_info env (training_args_info t) st)"
| model: "process_step env st (record_info env (model_info m) st)"
| lora: "process_step env st (record_info env (lora_info c) st)"
| timer: "flush_state (debounced_flush env st) = Some st' \<Longrightarrow> process_step env st st'"
| at_exit: "flush_state (flush env True False st) = Some st' \<Longrightarrow> process_step env st st'"
| fork: "process_step env st (after_fork_in_child (st\<lparr>pr_lock_stuck := a, pr_timer_lock_stuck := b\<rparr>))"

inductive process_run :: "run_env \<Rightarrow> process \<Rightarrow> bool" for env where
  start: "process_run env new_process"
| step: "process_run env st \<Longrightarrow> process_step env st st' \<Longrightarrow> process_run env st'"

subsection \<open>Every snapshot is well formed\<close>

definition process_ok :: "process \<Rightarrow> bool" where
  "process_ok st \<longleftrightarrow> snapshot_ok (take_snapshot st)"

lemma dict_ok_add [simp]: "dict_ok d \<Longrightarrow> dict_ok (add_text k t d)" "dict_ok d \<Longrightarrow> dict_ok (add_value k v d)"
  by (simp_all add: add_text_def add_value_def split: option.split)

lemma dict_ok_lit [simp]: "dict_ok [(k, v)]" "dict_ok [(k, v), (j, w)] \<longleftrightarrow> k \<noteq> j"
  by (auto simp: dict_ok_def)

lemma dict_ok_info [simp]:
  "dict_ok (training_args_info t)" "dict_ok (model_info m)" "dict_ok (lora_info c)" "dict_ok (git_info g)" "dict_ok (framework_info v)"
  by (simp_all add: training_args_info_def model_info_def lora_info_def git_info_def framework_info_def Let_def split: option.split)

lemma dict_ok_call_entry [simp]: "dict_ok (call_entry c)"
  by (simp add: call_entry_def Let_def split: option.split)

text \<open>Entries are built by steps that each may set one field; the steps are taken one at a time.\<close>

lemma dict_ok_let: "dict_ok d \<Longrightarrow> (\<And>x. dict_ok x \<Longrightarrow> dict_ok (f x)) \<Longrightarrow> dict_ok (let x = d in f x)"
  by (simp add: Let_def)

lemma dict_ok_let_other: "(\<And>x. dict_ok (f x)) \<Longrightarrow> dict_ok (let x = a in f x)"
  by (simp add: Let_def)

lemma dict_ok_option: "dict_ok d \<Longrightarrow> (\<And>x. dict_ok (f x)) \<Longrightarrow> dict_ok (case v of None \<Rightarrow> d | Some x \<Rightarrow> f x)"
  by (simp split: option.split)

lemma dict_ok_inspect [simp]: "dict_ok (inspect_torch_dataset fingerprint t)"
  unfolding inspect_torch_dataset_def
  by (intro dict_ok_let dict_ok_let_other dict_ok_option; auto split: option.split urls.split)

lemma dict_ok_load_entry [simp]: "dict_ok (load_entry c r)"
  unfolding load_entry_def
  by (rule dict_ok_let_other, intro dict_ok_let; auto split: option.split)

lemma dict_ok_torchvision [simp]: "dict_ok (torchvision_entry fingerprint name tv)"
  unfolding torchvision_entry_def
  by (rule dict_ok_let_other, intro dict_ok_let dict_ok_option; auto split: option.split list.split prod.split)

lemma dict_ok_merge_loader [simp]: "dict_ok e \<Longrightarrow> dict_ok (merge_loader obj batch e)"
  by (simp add: merge_loader_def Let_def split: option.split)

definition hooks_ok :: "hook_state \<Rightarrow> bool" where
  "hooks_ok h \<longleftrightarrow> list_all dict_ok (hs_entries h)"

lemma register_entries [simp]:
  "hs_entries (register_object obj e h) = hs_entries h" "hs_entries (register_hf_dataset obj e h) = hs_entries h"
  by (simp_all add: register_object_def register_hf_dataset_def Let_def split: option.split)

lemma register_fold_entries [simp]: "hs_entries (fold (\<lambda>part. register_hf_dataset part e) parts h) = hs_entries h"
  by (induction parts arbitrary: h) simp_all

lemma record_entry_ok: "hooks_ok h \<Longrightarrow> dict_ok e \<Longrightarrow> hooks_ok (record_entry e h)"
  by (simp add: hooks_ok_def record_entry_def)

lemma merge_entry_ok: "hooks_ok h \<Longrightarrow> hooks_ok (h\<lparr>hs_entries := (hs_entries h)[e := merge_loader obj batch (hs_entries h ! e)]\<rparr>)"
  by (cases "e < length (hs_entries h)") (auto simp: hooks_ok_def list_all_length nth_list_update)

lemma hooks_keep_ok:
  assumes "hooks_ok h"
  shows "hooks_ok (dataloader_init fingerprint dataset t batch h)" and "hooks_ok (load_dataset c r h)"
    and "hooks_ok (torchvision_init fingerprint patched mro obj tv owner h)" and "hooks_ok (webdataset_init us h)"
proof -
  show "hooks_ok (dataloader_init fingerprint dataset t batch h)"
    using assms by (simp add: dataloader_init_def Let_def record_entry_ok merge_entry_ok split: option.split)
  have "hooks_ok (record_entry (load_entry c r) h)" by (simp add: record_entry_ok assms)
  then show "hooks_ok (load_dataset c r h)" by (simp add: load_dataset_def hooks_ok_def)
  have "hooks_ok (record_entry (torchvision_entry fingerprint owner tv) h)" by (simp add: record_entry_ok assms)
  then show "hooks_ok (torchvision_init fingerprint patched mro obj tv owner h)" using assms by (simp add: torchvision_init_def hooks_ok_def)
  show "hooks_ok (webdataset_init us h)"
    using assms by (auto simp: webdataset_init_def Let_def intro!: record_entry_ok split: urls.split)
qed

lemma notify_keeps [simp]: "pr_hooks (notify_change env st) = pr_hooks st" "pr_info (notify_change env st) = pr_info st"
  "pr_git_captured (notify_change env st) = pr_git_captured st" "pr_lock_stuck (notify_change env st) = pr_lock_stuck st"
  by (simp_all add: notify_change_def)

lemma set_info_keeps [simp]: "pr_hooks (set_info env s st) = pr_hooks st" "pr_info (set_info env s st) = fst s"
  "pr_git_captured (set_info env s st) = pr_git_captured st" "pr_lock_stuck (set_info env s st) = pr_lock_stuck st"
  by (simp_all add: set_info_def Let_def)

lemma process_ok_iff: "process_ok st \<longleftrightarrow> hooks_ok (pr_hooks st) \<and> dict_ok (pr_info st)"
  by (simp add: process_ok_def take_snapshot_def snapshot_ok_def hooks_ok_def)

lemma record_info_ok: "process_ok st \<Longrightarrow> process_ok (record_info env new st)"
  by (simp add: process_ok_iff record_info_def notifying_update_def)

lemma dict_ok_captured: "dict_ok (fst s) \<Longrightarrow> dict_ok (fst (fold notifying_set ss s))"
  by (induction ss arbitrary: s) (simp_all add: notifying_set_def Let_def)

lemma capture_arguments_ok: "process_ok st \<Longrightarrow> process_ok (capture_arguments env st)"
  by (simp add: process_ok_iff capture_arguments_def capture_accelerate_config_def capture_training_args_def notifying_set_def Let_def
      dict_ok_captured split: option.split)

lemma flush_ok:
  assumes "process_ok st"
  shows "flush env final in_signal st = Flushed st' x \<Longrightarrow> process_ok st' \<and> x = take_snapshot st'"
    and "flush env final in_signal st = NothingDetected st' \<Longrightarrow> process_ok st'"
proof -
  note ok = capture_arguments_ok [OF assms, of env]
  show "process_ok st' \<and> x = take_snapshot st'" if "flush env final in_signal st = Flushed st' x"
    using that ok record_info_ok [OF ok, of env]
    by (auto simp: flush_def Let_def process_ok_iff split: if_splits option.splits)
  show "process_ok st'" if "flush env final in_signal st = NothingDetected st'"
    using that ok by (auto simp: flush_def Let_def split: if_splits option.splits)
qed

lemma flush_state_ok: "process_ok st \<Longrightarrow> flush_state (flush env final in_signal st) = Some st' \<Longrightarrow> process_ok st'"
  by (auto simp: flush_state_def split: flush_end.splits dest: flush_ok)

lemma process_step_ok: "process_step env st st' \<Longrightarrow> process_ok st \<Longrightarrow> process_ok st'"
proof (induction rule: process_step.induct)
  case (timer st st')
  have "process_ok (st\<lparr>pr_timer := False\<rparr>)" using timer.prems by (simp add: process_ok_iff)
  then show ?case using timer.hyps flush_state_ok unfolding debounced_flush_def by blast
next
  case (at_exit st st')
  then show ?case using flush_state_ok by blast
qed (simp_all add: process_ok_iff record_datasets_def hooks_keep_ok record_info_def notifying_update_def after_fork_in_child_def)

lemma process_run_ok: "process_run env st \<Longrightarrow> process_ok st"
  by (induction rule: process_run.induct) (simp_all add: process_step_ok, simp add: new_process_def process_ok_iff hooks_ok_def no_hooks_def)

text \<open>The protocol of the output file, applied to processes that run the detector.\<close>

definition recorded :: "snapshot \<Rightarrow> bool" where
  "recorded x \<longleftrightarrow> (\<exists>env st. process_run env st \<and> x = take_snapshot st)"

lemma recorded_ok: "recorded x \<Longrightarrow> snapshot_ok x"
  using process_run_ok by (auto simp: recorded_def process_ok_def)

lemma flush_step_mono:
  assumes "flush_step merge blank good s t" and "\<And>x. good x \<Longrightarrow> fine x"
  shows "flush_step merge blank fine s t"
  using assms(1) by (induction rule: flush_step.induct) (blast intro: flush_step.intros assms(2))+

lemma flush_run_mono:
  assumes "flush_run merge blank good s" and "\<And>x. good x \<Longrightarrow> fine x"
  shows "flush_run merge blank fine s"
  using assms(1)
proof (induction rule: flush_run.induct)
  case (step s t)
  show ?case using flush_run.step [OF step.IH flush_step_mono [OF step.hyps(2) assms(2)]] .
qed (auto intro: flush_run.start assms(2))

lemma webdataset_recorded: "recorded ([[(''source'', VStr ''webdataset.WebDataset''), (''dataset_name'', VStr ''WebDataset'')]], [])"
proof -
  let ?e = "[(''source'', VStr ''webdataset.WebDataset''), (''dataset_name'', VStr ''WebDataset'')]"
  let ?env = "\<lparr>rn_fs = sample_repo, rn_argv = [], rn_yaml = (\<lambda>_. None), rn_threads = True\<rparr>"
  have "process_run ?env (record_datasets ?env (webdataset_init OtherUrls) new_process)"
    by (rule process_run.step [OF process_run.start process_step.webdataset])
  moreover have "take_snapshot (record_datasets ?env (webdataset_init OtherUrls) new_process) = ([?e], [])"
    by (simp add: take_snapshot_def record_datasets_def webdataset_init_def record_entry_def new_process_def no_hooks_def)
  ultimately show ?thesis unfolding recorded_def by (metis (no_types))
qed

text \<open>A data set that a hook recorded and that a process flushed is never missing from the output file again, whatever hooks run
  in whatever processes, forks, timers and exits included, however their flushes interleave and wherever they are killed.\<close>

theorem detected_never_lost:
  assumes "flush_run merge_snapshot no_document recorded s" and "x \<in> set (fs_flushed s)" and "e \<in> set (fst x)"
  shows "\<exists>d. fs_files s OutputFile = Complete d \<and> dataset_identity e \<in> dataset_identity ` set (doc_datasets d)"
proof -
  have "flush_run merge_snapshot no_document snapshot_ok s" by (rule flush_run_mono [OF assms(1) recorded_ok])
  from detector.run_kept [OF this assms(2)]
  have "dataset_identity e \<in> identities (doc_datasets (read_file no_document (fs_files s OutputFile)))"
    using assms(3) by (auto simp: identities_def)
  then show ?thesis by (cases "fs_files s OutputFile") (auto simp: read_file_def no_document_def identities_def)
qed

theorem detected_never_lost_witness:
  "\<exists>d. fs_files (one_flush ([[(''source'', VStr ''webdataset.WebDataset''), (''dataset_name'', VStr ''WebDataset'')]], [])) OutputFile = Complete d
     \<and> dataset_identity [(''source'', VStr ''webdataset.WebDataset''), (''dataset_name'', VStr ''WebDataset'')]
         \<in> dataset_identity ` set (doc_datasets d)"
  using detected_never_lost [OF one_flush_run [of recorded, OF webdataset_recorded], of _
      "[(''source'', VStr ''webdataset.WebDataset''), (''dataset_name'', VStr ''WebDataset'')]"]
  by (simp add: one_flush_def)

subsection \<open>SIGTERM\<close>

lemma dget_git_commit: "dget (git_info c) ''git_commit'' = Some (VStr (gc_commit c))"
  by (simp add: git_info_def add_value_def dget_def [of "[_]"] split: option.split)


lemma flush_ends:
  "detected (capture_arguments env st) \<Longrightarrow> \<not> pr_lock_stuck (capture_arguments env st) \<Longrightarrow> \<exists>st1 x. flush env final in_signal st = Flushed st1 x"
  by (simp add: flush_def Let_def split: option.split)

text \<open>In a forked child no lock is stuck, so its flushes end, and its first flush captures its own checkout.\<close>

lemma child_never_blocked: "flush env final in_signal (after_fork_in_child st) \<noteq> Blocked"
proof -
  have "\<not> pr_lock_stuck (capture_arguments env (after_fork_in_child st))" by (simp add: capture_arguments_def after_fork_in_child_def)
  then show ?thesis by (simp add: flush_def Let_def split: option.split)
qed

text \<open>After the first flush a periodic flush never looks at the repository again.\<close>

lemma periodic_flush_ignores_repository:
  "pr_git_captured st \<Longrightarrow> flush env False in_signal st = flush (env\<lparr>rn_fs := fs\<rparr>) False in_signal st"
  by (simp add: flush_def Let_def capture_arguments_def set_info_def notify_change_def)

text \<open>A handler of the application is never replaced, and registering twice only registers another flush at exit.\<close>

lemma register_keeps_application_handler:
  "in_sigterm (snd s) = ApplicationHandler \<Longrightarrow> in_sigterm (snd (register_durable_flush can_fork main_thread s)) = ApplicationHandler"
  by (simp add: register_durable_flush_def Let_def)

lemma register_twice:
  "register_durable_flush cf mt (register_durable_flush cf mt s)
   = (fst (register_durable_flush cf mt s),
      (snd (register_durable_flush cf mt s))\<lparr>in_atexit := in_atexit (snd s) + 2\<rparr>)"
  by (simp add: register_durable_flush_def Let_def)

subsection \<open>An idle process stops flushing\<close>

lemma arg_setting_key:
  assumes "arg_setting a rest = Some (k, v)"
  shows "k \<in> {''epochs'', ''batch_size'', ''learning_rate''}"
proof -
  have "fst ` snd ` set training_arg_map \<subseteq> {''epochs'', ''batch_size'', ''learning_rate''}"
    by (simp add: training_arg_map_def Let_def)
  moreover obtain conv where "\<exists>key. map_of training_arg_map key = Some (k, conv)"
    using assms by (auto simp: arg_setting_def Let_def split: prod.splits option.splits if_splits)
  then have "k \<in> fst ` snd ` set training_arg_map" by (force dest: map_of_SomeD)
  ultimately show ?thesis by blast
qed

lemma arg_settings_keys: "fst ` set (arg_settings as) \<subseteq> {''epochs'', ''batch_size'', ''learning_rate''}"
  by (induction as) (auto split: option.splits dest: arg_setting_key)

lemma dget_git_info: "k \<notin> {''git_commit'', ''git_branch'', ''git_repository'', ''git_dirty''} \<Longrightarrow> dget (git_info c) k = None"
  by (auto simp: git_info_def add_value_def dget_def [of "[_]"] split: option.splits if_splits)

text \<open>The strategy that the configuration file gives.\<close>

definition accelerate_strategy :: "run_env \<Rightarrow> string option" where
  "accelerate_strategy env =
     (case Option.bind (config_path (rn_argv env)) (rn_yaml env) of
        None \<Rightarrow> None
      | Some t \<Rightarrow> map_of accelerate_distributed_type_strategies (py_lower t))"

lemma capture_accelerate_eq:
  "capture_accelerate_config (rn_yaml env) (rn_argv env) s =
     (case accelerate_strategy env of None \<Rightarrow> s | Some g \<Rightarrow> notifying_set (''parallelization_strategy'', VStr g) s)"
  by (simp add: capture_accelerate_config_def accelerate_strategy_def split: option.split)

text \<open>What the arguments and the configuration file set is in \<^verbatim>\<open>_runtime_info\<close>.\<close>

definition arguments_set :: "run_env \<Rightarrow> pyval dict \<Rightarrow> bool" where
  "arguments_set env info \<longleftrightarrow>
     (\<forall>k \<in> fst ` set (arg_settings (rn_argv env)). \<exists>w. (k, w) \<in> set (arg_settings (rn_argv env)) \<and> dget info k = Some w)
     \<and> (case accelerate_strategy env of None \<Rightarrow> True | Some g \<Rightarrow> dget info ''parallelization_strategy'' = Some (VStr g))"

lemma arguments_set_cong:
  assumes "arguments_set env info"
    and "\<And>k. k \<in> {''epochs'', ''batch_size'', ''learning_rate'', ''parallelization_strategy''} \<Longrightarrow> dget info' k = dget info k"
  shows "arguments_set env info'"
proof -
  have "dget info' k = dget info k" if "k \<in> fst ` set (arg_settings (rn_argv env))" for k
    using assms(2) [of k] that arg_settings_keys [of "rn_argv env"] by blast
  then show ?thesis using assms(1) assms(2) [of "''parallelization_strategy''"] by (simp add: arguments_set_def split: option.splits)
qed

lemma dget_notifying_set: "dget (fst (notifying_set kv s)) k = (if k = fst kv then Some (snd kv) else dget (fst s) k)"
  by (simp add: notifying_set_def Let_def)

lemma capture_sets: "arguments_set env (pr_info (capture_arguments env st))"
proof -
  let ?ss = "arg_settings (rn_argv env)"
  let ?d = "fst (fold notifying_set ?ss (pr_info st, False))"
  have get: "dget (pr_info (capture_arguments env st)) k =
      (case accelerate_strategy env of None \<Rightarrow> dget ?d k
       | Some g \<Rightarrow> if k = ''parallelization_strategy'' then Some (VStr g) else dget ?d k)" for k
    by (simp add: capture_arguments_def capture_accelerate_eq capture_training_args_def dget_notifying_set split: option.split)
  have "\<exists>w. (k, w) \<in> set ?ss \<and> dget (pr_info (capture_arguments env st)) k = Some w" if "k \<in> fst ` set ?ss" for k
  proof -
    have "k \<noteq> ''parallelization_strategy''" using that arg_settings_keys [of "rn_argv env"] by auto
    then have "dget (pr_info (capture_arguments env st)) k = dget ?d k" by (simp add: get split: option.split)
    then show ?thesis using fold_set_get [of k ?ss "(pr_info st, False)"] that by simp
  qed
  then show ?thesis by (simp add: arguments_set_def get split: option.split)
qed

lemma notifying_set_nonempty: "fst (notifying_set kv s) \<noteq> []"
  using dget_notifying_set [of kv s "fst kv"] by (auto simp: dget_def)

lemma captured_keeps: "fst s \<noteq> [] \<Longrightarrow> fst (fold notifying_set ss s) \<noteq> []"
  by (induction ss arbitrary: s) (simp_all add: notifying_set_nonempty)

lemma capture_arguments_keeps: "pr_info st \<noteq> [] \<Longrightarrow> pr_info (capture_arguments env st) \<noteq> []"
  by (simp add: capture_arguments_def capture_accelerate_eq capture_training_args_def notifying_set_nonempty captured_keeps split: option.split)

text \<open>Capturing them again does not notify.\<close>

lemma capture_quiet:
  assumes "settled (arg_settings (rn_argv env))" and "arguments_set env (pr_info st)"
  shows "pr_timer (capture_arguments env st) = pr_timer st"
proof -
  let ?ss = "arg_settings (rn_argv env)"
  let ?s = "fold notifying_set ?ss (pr_info st, False)"
  have "\<forall>kv \<in> set ?ss. \<forall>w. (fst kv, w) \<in> set ?ss \<longrightarrow> py_num_eq w (snd kv)"
    using assms(1) by (fastforce simp: settled_def list_all_iff)
  moreover have "\<forall>k \<in> fst ` set ?ss. \<exists>w. (k, w) \<in> set ?ss \<and> dget (pr_info st) k = Some w"
    using assms(2) by (simp add: arguments_set_def)
  ultimately have quiet: "\<not> snd ?s" using quiet_fold [of ?ss ?ss "pr_info st" False] by simp
  have "snd (notifying_set (''parallelization_strategy'', VStr g) ?s) = snd ?s" if "accelerate_strategy env = Some g" for g
  proof -
    have "''parallelization_strategy'' \<notin> fst ` set ?ss" using arg_settings_keys [of "rn_argv env"] by auto
    then have "dget (fst ?s) ''parallelization_strategy'' = Some (VStr g)"
      using fold_set_get [of "''parallelization_strategy''" ?ss "(pr_info st, False)"] assms(2) that by (simp add: arguments_set_def)
    then show ?thesis by (simp add: notifying_set_def)
  qed
  then show ?thesis using quiet
    by (simp add: capture_arguments_def capture_accelerate_eq capture_training_args_def set_info_def split: option.split)
qed

lemma record_git_keeps:
  assumes "arguments_set env (pr_info st)"
  shows "arguments_set env (pr_info (record_info env (git_info c) st))" and "pr_info (record_info env (git_info c) st) \<noteq> []"
proof -
  have get: "dget (pr_info (record_info env (git_info c) st)) k = (case dget (git_info c) k of Some v \<Rightarrow> Some v | None \<Rightarrow> dget (pr_info st) k)" for k
    by (simp add: record_info_def notifying_update_def dget_dupdate_ok)
  show "arguments_set env (pr_info (record_info env (git_info c) st))"
  proof (rule arguments_set_cong [OF assms])
    fix k
    assume "k \<in> {''epochs'', ''batch_size'', ''learning_rate'', ''parallelization_strategy''}"
    then have "dget (git_info c) k = None" by (intro dget_git_info) auto
    then show "dget (pr_info (record_info env (git_info c) st)) k = dget (pr_info st) k" by (simp add: get)
  qed
  have "dget (pr_info (record_info env (git_info c) st)) ''git_commit'' \<noteq> None" by (simp add: get dget_git_commit)
  then show "pr_info (record_info env (git_info c) st) \<noteq> []" by (auto simp: dget_def)
qed

lemma flushed_state:
  assumes "flush env final in_signal st = Flushed st1 x" and "\<not> in_signal"
  shows "pr_git_captured st1 \<and> \<not> pr_lock_stuck st1 \<and> detected st1 \<and> arguments_set env (pr_info st1)"
  using assms capture_sets [of env st] record_git_keeps [of env "capture_arguments env st"]
  by (auto simp: flush_def Let_def detected_def record_info_def split: if_splits option.splits)


definition sample_env :: run_env where
  "sample_env = \<lparr>rn_fs = sample_repo, rn_argv = [''train.py'', ''--batch-size'', ''8''], rn_yaml = (\<lambda>_. None), rn_threads = True\<rparr>"


text \<open>SIGTERM arrives while a hook holds the lock, in a process that runs in a checkout: the handler waits for a lock that the
  interrupted code never releases, until the process is killed.\<close>

lemma sigterm_hangs:
  "on_sigterm sample_env (new_process\<lparr>pr_info := framework_info ''2.4'', pr_lock_stuck := True\<rparr>) = StuckInHandler"
proof -
  let ?st = "new_process\<lparr>pr_info := framework_info ''2.4'', pr_lock_stuck := True\<rparr>"
  have "detected (capture_arguments sample_env ?st)"
    using capture_arguments_keeps [of ?st sample_env] by (simp add: detected_def framework_info_def)
  moreover have "pr_lock_stuck (capture_arguments sample_env ?st)" by (simp add: capture_arguments_def)
  moreover have "\<exists>c. capture_git_provenance (rn_fs sample_env) False = Some c" using sample_captured by (simp add: sample_env_def)
  ultimately show ?thesis by (auto simp: on_sigterm_def flush_def Let_def)
qed

end
