(* ===== verification/Pod.thy ===== *)
theory Pod
  imports Inputs DetectorRun Sidecar
begin

text \<open>
  From a hook to the Job: the detector's processes write the output file, the sidecar signs and publishes what it reads there,
  and the post-processing Job loads the published value. The theorem composes the three components. The file system,
  the API and the hash are those of the components; the Go watcher, which copies the value from the ConfigMap
  into the Job's input, is not modelled.
\<close>

subsection \<open>The output file as the sidecar reads it\<close>

text \<open>What \<^verbatim>\<open>_merge_output\<close> returns, as it is written and read back.\<close>

definition document_value :: "document \<Rightarrow> pyval" where
  "document_value d =
     VDict ((''datasets'', VList (map VDict (doc_datasets d))) # (if doc_info d = [] then [] else [(''runtime_info'', VDict (doc_info d))]))"

definition file_version :: "int \<Rightarrow> document content \<Rightarrow> out_file option" where
  "file_version mtime c =
     (case c of
        Absent \<Rightarrow> None
      | Truncated \<Rightarrow> Some \<lparr>of_mtime = mtime, of_json = None\<rparr>
      | Complete d \<Rightarrow> Some \<lparr>of_mtime = mtime, of_json = Some (document_value d)\<rparr>)"

lemma load_document:
  "load_datasets bracket_ok (Some (document_value d)) =
     Loaded (VList (map VDict (doc_datasets d)), load_runtime_info bracket_ok (doc_info d))"
  by (simp add: document_value_def load_datasets_def get_or_def dget_def load_runtime_info_def vget_def split: option.split pyval.split list.split)

lemma loaded_remote_redacted:
  "case vget (load_runtime_info bracket_ok ri) ''git_repository'' of VStr (c # u) \<Rightarrow> (\<exists>w. c # u = redact_git_url bracket_ok w) | _ \<Rightarrow> True"
proof (cases "vget ri ''git_repository''")
  case (VStr u)
  show ?thesis
  proof (cases u)
    case (Cons c t)
    then have "vget (load_runtime_info bracket_ok ri) ''git_repository'' = VStr (redact_git_url bracket_ok (c # t))"
      using VStr by (simp add: load_runtime_info_def)
    then show ?thesis by (auto split: list.split intro: sym)
  qed (simp add: load_runtime_info_def VStr)
qed (simp_all add: load_runtime_info_def)



end
