(* ===== verification/Prometheus.thy ===== *)
theory Prometheus
  imports Compile Json
begin

text \<open>
  The Prometheus client of \<^verbatim>\<open>postprocess.py\<close>: what a query sends and what it makes of every outcome, and the resolution of a
  range query, which bounds the number of points in an answer. The exchange itself is a parameter.
\<close>

text \<open>\<^verbatim>\<open>_prometheus_auth_headers\<close>, given the content of the token file if there is one.\<close>

definition prometheus_auth_headers :: "string option \<Rightarrow> (string \<times> string) list" where
  "prometheus_auth_headers token = (case token of Some t \<Rightarrow> [(''Authorization'', ''Bearer '' @ py_strip t)] | None \<Rightarrow> [])"

datatype prom_outcome = PromHttpError int | PromFails | PromBody string

record prom_request =
  pq_path :: string
  pq_query :: string
  pq_times :: "(string \<times> rat) list"
  pq_timeout :: nat

text \<open>\<^verbatim>\<open>_query_prometheus\<close>: any failure, and a body that is no JSON, is \<^verbatim>\<open>None\<close>.\<close>

definition query_prometheus :: "(prom_request \<Rightarrow> prom_outcome) \<Rightarrow> prom_request \<Rightarrow> pyval option" where
  "query_prometheus exchange r =
     (case exchange r of
        PromHttpError _ \<Rightarrow> None
      | PromFails \<Rightarrow> None
      | PromBody t \<Rightarrow> (case json_loads t of Some VNone \<Rightarrow> None | v \<Rightarrow> v))"

definition range_step_seconds :: "int \<Rightarrow> int \<Rightarrow> int" where
  "range_step_seconds start_ms end_ms =
     (let span = max (float_of (of_int (end_ms - start_ms) / 1000)) 1
      in max (trunc_q (float_of (span / 1000))) 15)"

definition seconds_of :: "int \<Rightarrow> rat" where
  "seconds_of ms = float_of (of_int ms / 1000)"

definition query_prometheus_range ::
  "(prom_request \<Rightarrow> prom_outcome) \<Rightarrow> string \<Rightarrow> int \<Rightarrow> int \<Rightarrow> int option \<Rightarrow> pyval option" where
  "query_prometheus_range exchange promql start_ms end_ms step =
     query_prometheus exchange
       \<lparr>pq_path = ''/api/v1/query_range'', pq_query = promql,
        pq_times = [(''start'', seconds_of start_ms), (''end'', seconds_of end_ms),
          (''step'', of_int (case step of Some s \<Rightarrow> if s \<noteq> 0 then s else range_step_seconds start_ms end_ms
                             | None \<Rightarrow> range_step_seconds start_ms end_ms))],
        pq_timeout = 30\<rparr>"

definition query_prometheus_instant :: "(prom_request \<Rightarrow> prom_outcome) \<Rightarrow> string \<Rightarrow> int \<Rightarrow> pyval option" where
  "query_prometheus_instant exchange promql time_ms =
     query_prometheus exchange
       \<lparr>pq_path = ''/api/v1/query'', pq_query = promql, pq_times = [(''time'', seconds_of time_ms)], pq_timeout = 30\<rparr>"

lemma float_of_ge:
  assumes "of_int k \<le> q" and "\<bar>k\<bar> < 2 ^ 53"
  shows "of_int k \<le> float_of q"
  using rnd64_mono [OF assms(1)] rnd64_int [of k] assms by (cases "rnd64 q") (auto simp: float_of_def)

lemma less_sixteen:
  fixes d k s :: int
  assumes "d < 1000000 * (k + 1)" and "k \<le> s" and "15 \<le> s"
  shows "15 * d < 16000000 * s"
proof -
  have "15 * d < 15 * (1000000 * (k + 1))" using assms(1) by (rule mult_strict_left_mono) simp
  also have "\<dots> = 15000000 * k + 15000000" by simp
  also have "\<dots> \<le> 15000000 * s + 1000000 * s" by (rule add_mono) (use assms(2,3) in simp_all)
  finally show ?thesis by simp
qed

text \<open>A range query without an explicit step has a step of at least 15 seconds, and asks for less than 1067 points whatever
  the length of the run: far below the limit of 11000 points at which Prometheus refuses a query.\<close>

theorem range_step_bounds:
  assumes "start_ms \<le> end_ms" and "end_ms - start_ms < 2 ^ 53"
  shows "15 \<le> range_step_seconds start_ms end_ms \<and> 15 * (end_ms - start_ms) < 16000000 * range_step_seconds start_ms end_ms"
proof -
  define d where "d = end_ms - start_ms"
  define k where "k = d div 1000000"
  have d: "0 \<le> d" "d < 2 ^ 53" using assms by (simp_all add: d_def)
  have k: "0 \<le> k" "1000000 * k \<le> d" "d < 1000000 * (k + 1)" using d(1) by (simp_all add: k_def)
  have "of_int (1000 * k) \<le> float_of (of_int d / 1000)"
    by (rule float_of_ge) (use k d in \<open>simp_all add: field_simps\<close>)
  then have "of_int k \<le> max (float_of (of_int d / 1000)) 1 / 1000" by simp
  then have "of_int k \<le> float_of (max (float_of (of_int d / 1000)) 1 / 1000)"
    by (rule float_of_ge) (use k d in linarith)
  then have "k \<le> trunc_q (float_of (max (float_of (of_int d / 1000)) 1 / 1000))"
    using k(1) by (auto simp: trunc_q_def le_floor_iff)
  then have step: "k \<le> range_step_seconds start_ms end_ms" "15 \<le> range_step_seconds start_ms end_ms"
    by (simp_all add: range_step_seconds_def d_def)
  have "15 * (end_ms - start_ms) < 16000000 * range_step_seconds start_ms end_ms"
    using less_sixteen [OF k(3) step] by (simp add: d_def)
  then show ?thesis using step(2) by blast
qed

theorem range_step_bounds_witness:
  "15 \<le> range_step_seconds 0 86400000 \<and> 15 * 86400000 < 16000000 * range_step_seconds 0 86400000"
  using range_step_bounds [of 0 86400000] by simp

end
