(* ===== verification/Spec2Isabelle.thy ===== *)
theory Spec2Isabelle
  imports Cluster Snapshot DetectorLoad Pod Prometheus
begin

text \<open>
  The Python part of the AIBOM webhook service: what runs inside an instrumented pod and what compiles the AIBOM after it.

  A pod has three writers. The discovery init container runs \<^verbatim>\<open>scripts/aibom-scripts/generate_snapshot.py\<close> once; the
  workload's own processes load \<^verbatim>\<open>runtime_detector.py\<close>, which patches the machine learning frameworks and writes a
  shared file; the sidecar \<^verbatim>\<open>dataset_sidecar.py\<close> signs and publishes that file. Both publish through \<^verbatim>\<open>k8s_api.py\<close> into one
  ConfigMap, whose content the watcher (in Go, not modelled) hands to a Job: \<^verbatim>\<open>postprocess/postprocess.py\<close> detects the model
  and the code from command lines, images and storage, collects telemetry, compiles the AIBOM, signs it and creates
  it with its time series in the cluster.

  \<^bold>\<open>Foundations.\<close> \<^verbatim>\<open>Prelude\<close> has lists, strings and ordered dictionaries (a locale \<open>dictionary\<close>, interpreted on association
  lists); \<^verbatim>\<open>PyFloat\<close>, \<^verbatim>\<open>PyValue\<close>, \<^verbatim>\<open>Json\<close>, \<^verbatim>\<open>Regex\<close> and \<^verbatim>\<open>ShellLex\<close> model what the code uses of Python's library: binary floats
  with their rounding, dynamically typed values, \<^verbatim>\<open>json.loads\<close>, \<^verbatim>\<open>re\<close> and \<^verbatim>\<open>shlex\<close>. Strings are lists of characters of one
  byte.

  \<^bold>\<open>Detection\<close> (\<^verbatim>\<open>postprocess.py\<close>). \<^verbatim>\<open>Command\<close>: \<^verbatim>\<open>_flatten_container_command\<close>, \<^verbatim>\<open>_split_segments\<close>, \<^verbatim>\<open>_parse_flags\<close>;
  scripts come back as their commands, flags are typed, and both spellings read alike. \<^verbatim>\<open>Quantization\<close>, \<^verbatim>\<open>Serving\<close> and
  \<^verbatim>\<open>ModelDetect\<close>: the engines, trainers, launchers, storage and data sets; detectors look into one command and
  skip package installs (locale \<open>arg_finder\<close>). \<^verbatim>\<open>GitUrl\<close>: \<^verbatim>\<open>redact_git_url\<close> removes credentials, \<^verbatim>\<open>merge_provenance\<close> never mixes two
  checkouts. \<^verbatim>\<open>GitClone\<close>: the walk over cd, clone and checkout, with an invariant. \<^verbatim>\<open>Registry\<close>: tokens stay with their
  host, requests are bounded, and labels are bound to the digest of the image.

  \<^bold>\<open>Telemetry.\<close> \<^verbatim>\<open>Telemetry\<close> has the statistics and their bounds, \<^verbatim>\<open>TimeSeries\<close> the persisted series (fitting ends, keeps every
  metric at one resolution and the peaks), \<^verbatim>\<open>Queries\<close> the generated queries (every selector is restricted to the pod),
  \<^verbatim>\<open>Prometheus\<close> the client, with the number of points that a query asks for.

  \<^bold>\<open>Compilation.\<close> \<^verbatim>\<open>Status\<close> rolls the pods up to one status (when it is completed, and that no out-of-memory kill is
  hidden); \<^verbatim>\<open>Compile\<close> is \<^verbatim>\<open>compile_aibom\<close>, an option for its exceptions; \<^verbatim>\<open>Pipeline\<close> is \<^verbatim>\<open>main\<close> with its effects on
  the cluster in order: the Job fails open and its exit code tells whether there is an AIBOM. \<^verbatim>\<open>Cluster\<close> lets any number
  of Jobs run interleaved and be killed: references, hashes, signatures and owners always agree.

  \<^bold>\<open>In the pod.\<close> \<^verbatim>\<open>K8sApi\<close>: \<^verbatim>\<open>patch_configmap\<close> as the steps of concurrent callers, which lose no update (locale
  \<open>config_store\<close> for its clients). \<^verbatim>\<open>Sidecar\<close>: the last content of the file is published. \<^verbatim>\<open>Snapshot\<close>: guarded stages
  and the signed entries. \<^verbatim>\<open>DetectorGit\<close>: the \<^verbatim>\<open>.git\<close> directory, refining what a reference means. \<^verbatim>\<open>DetectorOutput\<close>: the merge
  and the flush protocol of many processes (locale \<open>merging\<close>), the debounced timer. \<^verbatim>\<open>DetectorHooks\<close>: what the hooks
  record, and to which load a data loader is attributed. \<^verbatim>\<open>DetectorLoad\<close>: hooks run exactly when a framework has been imported,
  whatever imports nest or fail; the shadowed sitecustomize module; the fingerprint of a directory. \<^verbatim>\<open>DetectorRun\<close>: the
  life of a process over all hooks, timers, forks and signals, whose snapshots are what the flush protocol needs.
  \<^verbatim>\<open>Inputs\<close> loads the files of the Job, and \<^verbatim>\<open>Pod\<close> composes the way of a data set: hook, flush, sidecar, ConfigMap, Job.

  \<^bold>\<open>Conventions.\<close> Exceptions are \<^const>\<open>None\<close>, \<^const>\<open>Inl\<close> or a state of their own. A service is a field of an environment record:
  HTTP exchanges, hashes, keys, encoders, clocks, date parsing, the file system. Loops are structural or have a measure; the
  loop of \<^verbatim>\<open>_fit_series_doc\<close> may not end and is a partial function in the option type, with the condition under which
  it ends. The only fuel is that of \<^verbatim>\<open>Json\<close>, with a lemma that the length of the text is enough. Bounds of the
  code stay as they are: four registry requests, twenty directory levels, five symbolic references.

  \<^bold>\<open>What the proofs found.\<close> Credentials survive in git's transport-helper syntax; values that are not JSON reach the AIBOM
  (a nan in a speculative configuration, infinite samples); a failed memory command, an infinite framebuffer size and an
  architectures object end the Job without an AIBOM; an annotation of zero is ignored; fitting a series may not
  end for a minimum of one point; a remote with a percent sign is not recorded; contradicting arguments make
  the detector flush forever; a data loader over a list is not recorded; SIGTERM can deadlock in a checkout; the fingerprint of
  a directory is ambiguous; a shadowed sitecustomize package loses to a module. Each has a lemma where it is modelled.

  \<^bold>\<open>Not modelled.\<close> The Go programs, the charts, HTTP and TLS, printing, the helpers that only tests call (\<^verbatim>\<open>reset\<close>), and
  threads that import at the same time.
\<close>

end
